(* ===== verification/Wch_Prelude.thy ===== *)
theory Wch_Prelude
  imports Main "HOL-Library.Word"
begin

text \<open>
  Shared vocabulary of the development: error codes, machine-integer type names, the
  collections of simplification rules, and the generic facts on words, lists and
  register flags that the component theories use.

  Conventions. A C function that returns \<^verbatim>\<open>0\<close> or a negative \<^verbatim>\<open>errno\<close>
  returns a value of \<open>'a res\<close>: \<open>Inr\<close> is success, \<open>Inl e\<close> is the early return or
  error path with that code.  A critical section (\<^verbatim>\<open>irq_lock\<close> or
  \<^verbatim>\<open>k_spin_lock\<close> to its unlock) is one state transformer: CH32V203 is single-core and
  the section excludes interrupts, so nothing of the driver runs in between.  Pointers are
  32-bit words with \<open>0\<close> for \<^verbatim>\<open>NULL\<close>; a pointer that is only tested for
  \<^verbatim>\<open>NULL\<close> and then followed is an \<open>option\<close>.
\<close>

unbundle bit_operations_syntax

named_theorems wch_bits \<open>which bit a register flag is, and flag tests as bit tests\<close>
named_theorems wch_ops \<open>definitions of the drivers' operations, to unfold in proofs\<close>

section \<open>Types\<close>

type_synonym u8 = "8 word"
type_synonym u16 = "16 word"
type_synonym u32 = "32 word"

text \<open>The error codes the drivers return. \<open>ERet r\<close> is a nonzero code \<open>r\<close> that an external
  function (clock, pin control, kernel work queue) returned and the driver passes on.\<close>

datatype errno =
    EINVAL | ENOTSUP | EBUSY | ENODEV | EIO | EFAULT | EACCES | EMSGSIZE | ERANGE
  | EOVERFLOW | ECONNABORTED | ERet int

type_synonym 'a res = "errno + 'a"

abbreviation Ok :: "unit res" where "Ok \<equiv> Inr ()"
abbreviation Err :: "errno \<Rightarrow> 'a res" where "Err e \<equiv> Inl e"

text \<open>\<^verbatim>\<open>if (x & m)\<close> in C.\<close>

abbreviation has :: "'a::len word \<Rightarrow> 'a word \<Rightarrow> bool" where
  "has x m \<equiv> x AND m \<noteq> 0"

section \<open>Flags as bits\<close>

lemma and_pow2_eq_0 [wch_bits]: "(x AND 2 ^ k = 0) = (\<not> bit x k)" for x :: "'a::len word"
  by (rule and_exp_eq_0_iff_not_bit)

lemma bit_pow2_word: "bit (2 ^ k :: 'a::len word) n \<longleftrightarrow> n = k \<and> k < LENGTH('a)"
  by (auto simp: bit_exp_iff)

text \<open>From a flag's value \<open>m = 2 ^ k\<close>: testing it reads bit \<open>k\<close>, and it has no other bit.\<close>

lemma flag_test: "m = 2 ^ k \<Longrightarrow> (x AND m = 0) = (\<not> bit x k)" for x m :: "'a::len word"
  by (simp add: and_pow2_eq_0)

lemma flag_bit: "m = 2 ^ k \<Longrightarrow> bit m n \<longleftrightarrow> n = k \<and> k < LENGTH('a)" for m :: "'a::len word"
  by (simp add: bit_pow2_word)

lemma flag_zero: "m = 2 ^ k \<Longrightarrow> m = 0 \<longleftrightarrow> LENGTH('a) \<le> k" for m :: "'a::len word"
  by (simp add: exp_eq_0_imp_not_bit)

lemmas bit_word_ops [wch_bits] = bit_and_iff bit_or_iff bit_not_iff

lemma bit_word_less: "bit x n \<Longrightarrow> n < LENGTH('a)" for x :: "'a::len word"
  by (rule bit_imp_le_length)

section \<open>Word arithmetic\<close>

lemma unat_u32_bound: "unat (x :: u32) < 2 ^ 32"
  using unsigned_less [of x] by simp

lemma unat_word_div: "unat (a div b) = unat a div unat b" for a b :: "'a::len word"
  by (rule unat_div)

lemma word_mod_eq_0_iff: "a mod b = 0 \<longleftrightarrow> unat b dvd unat a" for a b :: "'a::len word"
proof -
  have "a mod b = 0 \<longleftrightarrow> unat (a mod b) = 0" by (simp add: unat_eq_zero)
  then show ?thesis by (simp add: unat_mod dvd_eq_mod_eq_0)
qed

lemma unat_sub_le: "b \<le> a \<Longrightarrow> unat (a - b) = unat a - unat b" for a b :: "'a::len word"
  by (simp add: unat_sub)

lemma unat_mult_no_overflow:
  "unat a * unat b < 2 ^ LENGTH('a) \<Longrightarrow> unat (a * b) = unat a * unat b" for a b :: "'a::len word"
  by (simp add: unat_word_ariths)

end
