(* ===== verification/Uart_Contract.thy ===== *)
theory Uart_Contract
  imports Wch_Prelude
begin

text \<open>
  \<^verbatim>\<open>drivers/serial/uart_wch_contract.h\<close>: the baud-rate divisor, the DMA buffer
  check and the receive-delta arithmetic shared by the UART driver.  Out-parameters are
  \<open>option\<close> results or are returned with the code; a \<^verbatim>\<open>NULL\<close> out-pointer is a flag.
  \<^verbatim>\<open>size_t\<close> and \<^verbatim>\<open>uintptr_t\<close> are 32 bits wide on CH32V203 (RV32).
\<close>

section \<open>Definitions\<close>

definition WCH_UART_DMA_MAX_BYTES :: nat where
  "WCH_UART_DMA_MAX_BYTES = 65535"

text \<open>\<open>brr_nonnull\<close> says whether the out-pointer is not \<^verbatim>\<open>NULL\<close>.  The intermediate values are
  64 bits wide, as in the code; \<open>baud div 2\<close> is computed at 32 bits.\<close>

definition wch_uart_brr :: "bool \<Rightarrow> u32 \<Rightarrow> u32 \<Rightarrow> u32 res" where
  "wch_uart_brr brr_nonnull clock_hz baud =
     (if \<not> brr_nonnull \<or> baud = 0 \<or> clock_hz = 0 then Err EINVAL
      else let divisor = ((ucast clock_hz :: 64 word) + ucast (baud div 2)) div ucast baud
           in if (ucast baud :: 64 word) * 16 > ucast clock_hz \<or> divisor > 65535 then Err ERANGE
              else Inr (ucast divisor))"

definition wch_uart_dma_buffer_check :: "u32 \<Rightarrow> u32 \<Rightarrow> unit res" where
  "wch_uart_dma_buffer_check buffer len =
     (if buffer = 0 \<or> len = 0 then Err EINVAL
      else if unat len > WCH_UART_DMA_MAX_BYTES then Err EMSGSIZE else Ok)"

text \<open>\<open>offset_p\<close> and \<open>count_p\<close> are the out-pointers; the result is what is stored through them.\<close>

definition wch_uart_dma_rx_delta ::
  "u32 \<Rightarrow> u32 \<Rightarrow> u32 \<Rightarrow> u32 \<Rightarrow> u32 \<Rightarrow> (u32 \<times> u32) res" where
  "wch_uart_dma_rx_delta len pending reported offset_p count_p =
     (if offset_p = 0 \<or> count_p = 0 \<or> offset_p = count_p \<or> len = 0 \<or>
         unat len > WCH_UART_DMA_MAX_BYTES \<or> pending > len \<or> reported > len - pending
      then Err EINVAL
      else Inr (reported, len - pending - reported))"

section \<open>The divisor\<close>

lemma unat_u32_less_64: "unat (x :: u32) < 2 ^ 64"
  by (rule less_trans [OF unat_u32_bound]) simp

lemma unat_ucast_32_64 [simp]: "unat (ucast (x :: u32) :: 64 word) = unat x"
  using unat_u32_less_64 [of x] by (simp add: unsigned_ucast_eq take_bit_nat_eq_self_iff)

lemma brr_divisor_unat:
  "unat (((ucast (clock_hz :: u32) :: 64 word) + ucast (baud div 2)) div ucast baud)
     = (unat clock_hz + unat baud div 2) div unat baud" for baud :: u32
proof -
  have "unat (ucast clock_hz :: 64 word) + unat (ucast (baud div 2) :: 64 word) < 2 ^ 64"
    using unat_u32_bound [of clock_hz] unat_u32_bound [of "baud div 2"] by simp
  then show ?thesis
    by (simp add: unat_div unat_word_ariths)
qed

lemma brr_baud16_unat: "unat ((ucast (baud :: u32) :: 64 word) * 16) = unat baud * 16"
  using unat_u32_bound [of baud] by (simp add: unat_word_ariths)

lemma brr_guard_iff:
  "((ucast (baud :: u32) :: 64 word) * 16 > ucast clock_hz) = (unat clock_hz < unat baud * 16)"
  for clock_hz :: u32
  by (simp add: word_less_nat_alt brr_baud16_unat)

lemma brr_range_iff: "(d > (65535 :: 64 word)) = (unat d > 65535)"
  by (simp add: word_less_nat_alt)

lemma brr_ucast_small: "unat (d :: 64 word) \<le> 65535 \<Longrightarrow> (ucast d :: u32) = of_nat (unat d)"
  by simp

text \<open>
  (C37) The divisor computed with 64-bit intermediates is the mathematical one on every
  branch: no step of the computation overflows.
\<close>

theorem wch_uart_brr_exact:
  "wch_uart_brr brr_nonnull clock_hz baud =
     (let d = (unat clock_hz + unat baud div 2) div unat baud
      in if brr_nonnull \<and> 0 < unat baud \<and> 0 < unat clock_hz
         then if unat clock_hz < 16 * unat baud \<or> 65535 < d then Err ERANGE else Inr (of_nat d)
         else Err EINVAL)"
  unfolding wch_uart_brr_def Let_def brr_guard_iff brr_range_iff
  by (auto simp: brr_divisor_unat brr_ucast_small unat_gt_0 mult.commute)

text \<open>
  (C38) A successful divisor fits the 16-bit BRR register, keeps the oversampling factor
  of 16, and is the nearest integer to \<open>clock / baud\<close>: off by at most half a baud.
\<close>

theorem wch_uart_brr_nearest:
  assumes ok: "wch_uart_brr True clock_hz baud = Inr d"
  shows "16 \<le> unat d \<and> unat d \<le> 65535 \<and>
         2 * unat clock_hz \<le> 2 * unat d * unat baud + unat baud \<and>
         2 * unat d * unat baud \<le> 2 * unat clock_hz + unat baud"
proof -
  let ?c = "unat clock_hz" and ?b = "unat baud"
  let ?q = "(?c + ?b div 2) div ?b"
  from ok have b: "0 < ?b" and c: "16 * ?b \<le> ?c" and q: "?q \<le> 65535" and d: "d = of_nat ?q"
    unfolding wch_uart_brr_exact by (auto simp: Let_def split: if_splits)
  from q d have dq: "unat d = ?q" by (simp add: unat_of_nat)
  have "16 \<le> ?q"
  proof -
    have "16 * ?b div ?b \<le> (?c + ?b div 2) div ?b" using c by (intro div_le_mono) simp
    with b show ?thesis by simp
  qed
  moreover have "2 * ?c \<le> 2 * (?q * ?b) + ?b" and "2 * (?q * ?b) \<le> 2 * ?c + ?b"
    using div_mult_mod_eq [of "?c + ?b div 2" ?b] mod_less_divisor [OF b, of "?c + ?b div 2"]
    by linarith+
  ultimately show ?thesis using q unfolding dq by (simp add: mult.assoc)
qed

theorem wch_uart_brr_nearest_witness:
  "wch_uart_brr True 144000000 115200 = Inr 1250 \<and> (16 :: nat) \<le> unat (1250 :: u32) \<and>
   2 * unat (1250 :: u32) * unat (115200 :: u32)
     \<le> 2 * unat (144000000 :: u32) + unat (115200 :: u32)"
proof -
  have h: "wch_uart_brr True 144000000 115200 = Inr 1250" by (simp add: wch_uart_brr_def)
  show ?thesis using h wch_uart_brr_nearest [OF h] by blast
qed

section \<open>Buffer check and receive delta\<close>

lemma dma_buffer_check_Ok_iff:
  "wch_uart_dma_buffer_check buffer len = Ok \<longleftrightarrow>
     buffer \<noteq> 0 \<and> 1 \<le> unat len \<and> unat len \<le> 65535"
proof -
  have "1 \<le> unat len \<longleftrightarrow> len \<noteq> 0" by (simp add: Suc_le_eq unat_gt_0)
  then show ?thesis
    by (auto simp: wch_uart_dma_buffer_check_def WCH_UART_DMA_MAX_BYTES_def)
qed

lemma dma_buffer_check_Err:
  "wch_uart_dma_buffer_check buffer len = Err e \<Longrightarrow> e = EINVAL \<or> e = EMSGSIZE"
  by (auto simp: wch_uart_dma_buffer_check_def split: if_splits)

text \<open>
  (C39) Successive receive deltas tile the buffer: a delta starts where the bytes already
  reported end, and reporting from its end at any later (smaller) DMA remainder succeeds
  and ends exactly at the bytes that remainder stands for.
\<close>

theorem wch_uart_dma_rx_delta_chain:
  assumes d1: "wch_uart_dma_rx_delta len pending reported op cp = Inr (offs, cnt)"
    and later: "pending' \<le> pending"
  shows "offs = reported \<and> unat offs + unat cnt + unat pending = unat len \<and>
    wch_uart_dma_rx_delta len pending' (offs + cnt) op cp
      = Inr (offs + cnt, pending - pending') \<and>
    unat (offs + cnt) + unat (pending - pending') + unat pending' = unat len"
proof -
  from d1 have g: "\<not> (op = 0 \<or> cp = 0 \<or> op = cp \<or> len = 0 \<or> unat len > WCH_UART_DMA_MAX_BYTES)"
    and pl: "pending \<le> len" and rl: "reported \<le> len - pending"
    and oc: "offs = reported" "cnt = len - pending - reported"
    by (auto simp: wch_uart_dma_rx_delta_def not_less split: if_splits)
  from later pl have p'l: "pending' \<le> len" by (rule order_trans)
  have sum: "offs + cnt = len - pending" using oc by simp
  have le: "len - pending \<le> len - pending'"
    using later pl p'l by (simp add: word_le_nat_alt unat_sub_le)
  have "wch_uart_dma_rx_delta len pending' (len - pending) op cp
      = Inr (len - pending, len - pending' - (len - pending))"
    using g p'l le by (simp add: wch_uart_dma_rx_delta_def not_less)
  moreover have "len - pending' - (len - pending) = pending - pending'" by simp
  moreover have "unat offs + unat cnt + unat pending = unat len"
    using oc pl rl by (simp add: word_le_nat_alt unat_sub_le)
  moreover have "unat (len - pending) + unat (pending - pending') + unat pending' = unat len"
    using later pl by (simp add: word_le_nat_alt unat_sub_le)
  ultimately show ?thesis using oc(1) unfolding sum by auto
qed

theorem wch_uart_dma_rx_delta_chain_witness:
  "wch_uart_dma_rx_delta 32 20 4 1 2 = Inr (4, 8) \<and>
   wch_uart_dma_rx_delta 32 5 (4 + 8) 1 2 = Inr (4 + 8, 20 - 5)"
proof -
  have h: "wch_uart_dma_rx_delta 32 20 4 1 2 = Inr (4, 8)"
    by (simp add: wch_uart_dma_rx_delta_def WCH_UART_DMA_MAX_BYTES_def)
  have l: "(5 :: u32) \<le> 20" by simp
  show ?thesis using h wch_uart_dma_rx_delta_chain [OF h l] by blast
qed

end
