(* ===== verification/Uart_Regs.thy ===== *)
theory Uart_Regs
  imports Wch_Prelude
begin

text \<open>The USART register block and its flags, with the values the repository's register header
  for the native tests gives them, and each flag as the bit it is.\<close>

unbundle bit_operations_syntax

section \<open>Registers\<close>

record usart_regs =
  STATR :: u16
  DATAR :: u16
  BRR :: u16
  CTLR1 :: u16
  CTLR2 :: u16
  CTLR3 :: u16

definition USART_STATR_PE :: u16 where "USART_STATR_PE = 0x001"
definition USART_STATR_FE :: u16 where "USART_STATR_FE = 0x002"
definition USART_STATR_NE :: u16 where "USART_STATR_NE = 0x004"
definition USART_STATR_ORE :: u16 where "USART_STATR_ORE = 0x008"
definition USART_STATR_RXNE :: u16 where "USART_STATR_RXNE = 0x020"
definition USART_STATR_TC :: u16 where "USART_STATR_TC = 0x040"
definition USART_STATR_TXE :: u16 where "USART_STATR_TXE = 0x080"
definition USART_STATR_LBD :: u16 where "USART_STATR_LBD = 0x100"
definition USART_CTLR1_RE :: u16 where "USART_CTLR1_RE = 0x004"
definition USART_CTLR1_TE :: u16 where "USART_CTLR1_TE = 0x008"
definition USART_CTLR1_TCIE :: u16 where "USART_CTLR1_TCIE = 0x040"
definition USART_CTLR1_PEIE :: u16 where "USART_CTLR1_PEIE = 0x100"
definition USART_CTLR1_UE :: u16 where "USART_CTLR1_UE = 0x2000"
definition USART_CTLR3_DMAT :: u16 where "USART_CTLR3_DMAT = 0x080"
definition USART_CTLR3_DMAR :: u16 where "USART_CTLR3_DMAR = 0x040"
definition USART_CTLR3_EIE :: u16 where "USART_CTLR3_EIE = 0x001"

section \<open>Flags as bits\<close>

lemmas usart_flag_defs =
  USART_STATR_PE_def USART_STATR_FE_def USART_STATR_NE_def USART_STATR_ORE_def
  USART_STATR_RXNE_def USART_STATR_TC_def USART_STATR_TXE_def USART_STATR_LBD_def
  USART_CTLR1_RE_def USART_CTLR1_TE_def USART_CTLR1_TCIE_def USART_CTLR1_PEIE_def
  USART_CTLR1_UE_def USART_CTLR3_DMAT_def USART_CTLR3_DMAR_def USART_CTLR3_EIE_def

lemma usart_flag_values:
  "USART_STATR_PE = 2 ^ 0" "USART_STATR_FE = 2 ^ 1" "USART_STATR_NE = 2 ^ 2"
  "USART_STATR_ORE = 2 ^ 3" "USART_STATR_RXNE = 2 ^ 5" "USART_STATR_TC = 2 ^ 6"
  "USART_STATR_TXE = 2 ^ 7" "USART_STATR_LBD = 2 ^ 8" "USART_CTLR1_RE = 2 ^ 2"
  "USART_CTLR1_TE = 2 ^ 3" "USART_CTLR1_TCIE = 2 ^ 6" "USART_CTLR1_PEIE = 2 ^ 8"
  "USART_CTLR1_UE = 2 ^ 13" "USART_CTLR3_DMAT = 2 ^ 7" "USART_CTLR3_DMAR = 2 ^ 6"
  "USART_CTLR3_EIE = 2 ^ 0"
  by (simp_all add: usart_flag_defs)

lemmas usart_flag_rules [wch_bits] =
  usart_flag_values [THEN flag_test] usart_flag_values [THEN flag_bit]
  usart_flag_values [THEN flag_zero]

end
