(* ===== verification/Uart_Irq_Trace.thy ===== *)
theory Uart_Irq_Trace
  imports Uart_Regs
begin

text \<open>
  \<^verbatim>\<open>drivers/serial/uart_wch_irq_trace.h\<close>: the per-port interrupt trace of the
  interrupt-driven build.  A read of the SysTick counter (\<^verbatim>\<open>wch_trace_tick\<close>) is an argument
  \<open>tick\<close> of the function that reads it; every such function reads it at most once.
\<close>

unbundle bit_operations_syntax

definition WCH_TRACE_EVENTS :: nat where "WCH_TRACE_EVENTS = 32"

definition WCH_TRACE_ERROR_MASK :: u32 where
  "WCH_TRACE_ERROR_MASK = ucast (USART_STATR_PE OR USART_STATR_FE OR USART_STATR_NE OR
     USART_STATR_ORE OR USART_STATR_LBD)"

definition UINT32_MAX :: u32 where "UINT32_MAX = 0xFFFFFFFF"

record wch_irq_event =
  ev_tick :: u32
  ev_kind :: u32
  ev_status :: u32
  ev_irq :: u32
  ev_rx :: u32
  ev_tx :: u32
  ev_duration :: u32
  ev_detail :: u32

record wch_irq_port_trace =
  t_regs :: u32
  t_baud :: u32
  irq_count :: u32
  rx_bytes :: u32
  tx_bytes :: u32
  api_error_or :: u32
  fifo_error_or :: u32
  api_error_reads :: u32
  fifo_error_reads :: u32
  max_isr_ticks :: u32
  slow_isrs :: u32
  max_rx_service_ticks :: u32
  rx_service_over_char :: u32
  entry_tick :: u32
  last_status :: u32
  events_written :: u32
  frozen :: u32
  first_error_site :: u32
  first_error_status :: u32
  first_error_tick :: u32
  first_error_rx :: u32
  first_error_tx :: u32
  char_ticks :: u32
  timing_samples :: u32
  sample_countdown :: u32
  events :: "wch_irq_event list" \<comment> \<open>\<^verbatim>\<open>events[WCH_TRACE_EVENTS]\<close>\<close>

text \<open>The build options behind the constant header fields, and those fields.\<close>

record wch_trace_kconfig =
  HW_CYCLES_PER_SEC :: u32
  TICKS_PER_SEC :: u32
  SLOW_US :: u32
  SAMPLE_INTERVAL :: u32

definition period_ticks :: "wch_trace_kconfig \<Rightarrow> u32" where
  "period_ticks K = HW_CYCLES_PER_SEC K div TICKS_PER_SEC K + 1"

definition slow_ticks :: "wch_trace_kconfig \<Rightarrow> u32" where
  "slow_ticks K = SLOW_US K * (HW_CYCLES_PER_SEC K div 1000000)"

section \<open>Operations\<close>

definition wch_trace_delta :: "wch_trace_kconfig \<Rightarrow> u32 \<Rightarrow> u32 \<Rightarrow> u32" where
  "wch_trace_delta K now before =
     (if now \<ge> before then now - before else period_ticks K - before + now)"

definition wch_trace_event ::
  "u32 \<Rightarrow> u32 \<Rightarrow> u32 \<Rightarrow> u32 \<Rightarrow> wch_irq_port_trace \<Rightarrow> wch_irq_port_trace" where
  "wch_trace_event kind status tick duration t =
     (if frozen t \<noteq> 0 then t
      else t\<lparr>events := (events t)[unat (events_written t) mod WCH_TRACE_EVENTS :=
               \<lparr>ev_tick = tick, ev_kind = kind, ev_status = status, ev_irq = irq_count t,
                ev_rx = rx_bytes t, ev_tx = tx_bytes t, ev_duration = duration,
                ev_detail = max_rx_service_ticks t\<rparr>],
             events_written := events_written t + 1\<rparr>)"

text \<open>Freezing at the first error: the snapshot, a last event, then no more events.\<close>

definition trace_first_error ::
  "wch_trace_kconfig \<Rightarrow> u32 \<Rightarrow> u32 \<Rightarrow> u32 \<Rightarrow> wch_irq_port_trace \<Rightarrow> wch_irq_port_trace" where
  "trace_first_error K tick status site t =
     (let t1 = t\<lparr>first_error_site := site, first_error_status := status, first_error_tick := tick,
                 first_error_rx := rx_bytes t, first_error_tx := tx_bytes t\<rparr>;
          dur = (if entry_tick t1 = UINT32_MAX then UINT32_MAX
                 else wch_trace_delta K tick (entry_tick t1))
      in (wch_trace_event site status tick dur t1)\<lparr>frozen := 1\<rparr>)"

definition wch_trace_status ::
  "wch_trace_kconfig \<Rightarrow> u32 \<Rightarrow> u32 \<Rightarrow> u32 \<Rightarrow> wch_irq_port_trace \<Rightarrow> wch_irq_port_trace" where
  "wch_trace_status K tick status site t =
     (let errors = status AND WCH_TRACE_ERROR_MASK;
          t1 = (if entry_tick t \<noteq> UINT32_MAX then t\<lparr>last_status := status\<rparr> else t)
      in if errors = 0 then t1
         else let t2 = (if site = 3
                        then t1\<lparr>api_error_or := api_error_or t1 OR errors,
                                api_error_reads := api_error_reads t1 + 1\<rparr>
                        else t1\<lparr>fifo_error_or := fifo_error_or t1 OR errors,
                                fifo_error_reads := fifo_error_reads t1 + 1\<rparr>)
              in if frozen t2 = 0 then trace_first_error K tick status site t2 else t2)"

definition wch_trace_enter ::
  "wch_trace_kconfig \<Rightarrow> u32 \<Rightarrow> wch_irq_port_trace \<Rightarrow> wch_irq_port_trace" where
  "wch_trace_enter K tick t =
     (let t1 = t\<lparr>irq_count := irq_count t + 1\<rparr>
      in if sample_countdown t1 = 0
         then t1\<lparr>sample_countdown := SAMPLE_INTERVAL K - 1, entry_tick := tick,
                 timing_samples := timing_samples t1 + 1\<rparr>
         else t1\<lparr>sample_countdown := sample_countdown t1 - 1, entry_tick := UINT32_MAX\<rparr>)"

definition wch_trace_exit ::
  "wch_trace_kconfig \<Rightarrow> u32 \<Rightarrow> wch_irq_port_trace \<Rightarrow> wch_irq_port_trace" where
  "wch_trace_exit K tick t =
     (if entry_tick t = UINT32_MAX then t
      else let duration = wch_trace_delta K tick (entry_tick t);
               t1 = (if duration > max_isr_ticks t then t\<lparr>max_isr_ticks := duration\<rparr> else t)
           in if duration \<ge> slow_ticks K
              then wch_trace_event 2 (last_status t1) tick duration (t1\<lparr>slow_isrs := slow_isrs t1 + 1\<rparr>)
              else if SAMPLE_INTERVAL K > 1 \<or> irq_count t1 AND 127 = 0
              then wch_trace_event 1 (last_status t1) tick duration t1
              else t1)"

end
