(* ===== verification/Dma_Wch.thy ===== *)
theory Dma_Wch
  imports Wch_Prelude
begin

text \<open>
  \<^verbatim>\<open>drivers/dma/dma_wch.c\<close>: the general DMA driver.  The controller's state
  \<open>dma_dev\<close> is the register block \<^verbatim>\<open>struct dma_wch_regs\<close> (flag banks \<open>base_bank\<close> and
  \<open>ext_bank\<close>, per-channel registers \<open>chan_regs\<close>) together with the driver's own
  \<^verbatim>\<open>struct dma_wch_data\<close> (\<open>channels\<close>).  \<^verbatim>\<open>dev->config\<close> is the record \<open>dma_wch_cfg\<close>.
  Every driver operation runs under \<^verbatim>\<open>irq_lock\<close> and is one function on \<open>dma_dev\<close>.
  A write to INTFCR clears flags of INTFR as the register model of
  \<^verbatim>\<open>tests/unit/dma_native\<close> spells it out: write-one-to-clear, and the global flag
  of a channel clears all four of its flags.  Addresses are 32 bits wide
  (\<^verbatim>\<open>CONFIG_DMA_64BIT\<close> is off on this 32-bit part).
\<close>

unbundle bit_operations_syntax

section \<open>Registers and constants\<close>

definition DMA_GIF1 :: u32 where "DMA_GIF1 = 0x0001"
definition DMA_TCIF1 :: u32 where "DMA_TCIF1 = 0x0002"
definition DMA_HTIF1 :: u32 where "DMA_HTIF1 = 0x0004"
definition DMA_TEIF1 :: u32 where "DMA_TEIF1 = 0x0008"
definition DMA_CFGR1_EN :: u32 where "DMA_CFGR1_EN = 0x0001"
definition DMA_CFGR1_TCIE :: u32 where "DMA_CFGR1_TCIE = 0x0002"
definition DMA_CFGR1_HTIE :: u32 where "DMA_CFGR1_HTIE = 0x0004"
definition DMA_CFGR1_TEIE :: u32 where "DMA_CFGR1_TEIE = 0x0008"
definition DMA_CFGR1_DIR :: u32 where "DMA_CFGR1_DIR = 0x0010"
definition DMA_CFGR1_CIRC :: u32 where "DMA_CFGR1_CIRC = 0x0020"
definition DMA_CFGR1_PINC :: u32 where "DMA_CFGR1_PINC = 0x0040"
definition DMA_CFGR1_MINC :: u32 where "DMA_CFGR1_MINC = 0x0080"
definition DMA_CFGR1_PSIZE_0 :: u32 where "DMA_CFGR1_PSIZE_0 = 0x0100"
definition DMA_CFGR1_MSIZE_0 :: u32 where "DMA_CFGR1_MSIZE_0 = 0x0400"
definition DMA_CFGR1_PL_0 :: u32 where "DMA_CFGR1_PL_0 = 0x1000"
definition DMA_CFGR1_MEM2MEM :: u32 where "DMA_CFGR1_MEM2MEM = 0x4000"

definition DMA_WCH_MAX_CHAN :: nat where "DMA_WCH_MAX_CHAN = 11"
definition DMA_WCH_MAX_CHAN_BASE :: nat where "DMA_WCH_MAX_CHAN_BASE = 8"
definition DMA_WCH_MAX_BLOCK :: u32 where "DMA_WCH_MAX_BLOCK = 65535"

definition DMA_WCH_AIF :: u32 where
  "DMA_WCH_AIF = DMA_GIF1 OR DMA_TCIF1 OR DMA_HTIF1 OR DMA_TEIF1"

definition DMA_WCH_IF_OFF :: "nat \<Rightarrow> nat" where
  "DMA_WCH_IF_OFF ch = 4 * ch"

record DMA_TypeDef =
  INTFR :: u32
  INTFCR :: u32

record dma_wch_chan_regs =
  CFGR :: u32
  CNTR :: u32
  PADDR :: u32
  MADDR :: u32

text \<open>\<open>apply_clear\<close> is the effect on INTFR of the value last written to INTFCR.\<close>

definition apply_clear :: "DMA_TypeDef \<Rightarrow> DMA_TypeDef" where
  "apply_clear bank =
     (let flags = fold (\<lambda>ch fl. if has fl (push_bit (DMA_WCH_IF_OFF ch) DMA_GIF1)
                               then fl OR push_bit (DMA_WCH_IF_OFF ch) DMA_WCH_AIF else fl)
                    [0..<DMA_WCH_MAX_CHAN_BASE] (INTFCR bank)
      in bank\<lparr>INTFR := INTFR bank AND NOT flags, INTFCR := 0\<rparr>)"

definition write_INTFCR :: "u32 \<Rightarrow> DMA_TypeDef \<Rightarrow> DMA_TypeDef" where
  "write_INTFCR v bank = apply_clear (bank\<lparr>INTFCR := v\<rparr>)"

section \<open>Driver data\<close>

datatype dma_wch_state =
  DMA_WCH_UNCONFIGURED | DMA_WCH_CONFIGURED | DMA_WCH_RUNNING | DMA_WCH_SUSPENDED

text \<open>Completion callbacks are function pointers; the two the UART driver installs have
  constructors of their own, any other one is named by its address.\<close>

datatype dma_callback =
  Usart_wch_tx_dma_callback | Usart_wch_rx_dma_callback | Dma_callback_at u32

datatype dma_cb_status =
  DMA_STATUS_COMPLETE | DMA_STATUS_BLOCK | DMA_STATUS_HALF_COMPLETE | DMA_STATUS_ERR errno

record dma_wch_channel =
  user_data :: u32
  dma_cb :: "dma_callback option"
  ch_state :: dma_wch_state
  ch_length :: u32
  width :: u8
  error_callback_dis :: bool

record dma_wch_cfg =
  num_channels :: nat

record dma_dev =
  base_bank :: DMA_TypeDef
  ext_bank :: DMA_TypeDef
  chan_regs :: "dma_wch_chan_regs list"
  channels :: "dma_wch_channel list"
  irqs_enabled :: "nat list"

abbreviation reg :: "dma_dev \<Rightarrow> nat \<Rightarrow> dma_wch_chan_regs" where
  "reg d ch \<equiv> chan_regs d ! ch"

abbreviation chan :: "dma_dev \<Rightarrow> nat \<Rightarrow> dma_wch_channel" where
  "chan d ch \<equiv> channels d ! ch"

text \<open>Assignment to fields of \<^verbatim>\<open>regs->channels[ch]\<close> and of \<^verbatim>\<open>data->channels[ch]\<close>.\<close>

definition upd_reg :: "nat \<Rightarrow> (dma_wch_chan_regs \<Rightarrow> dma_wch_chan_regs) \<Rightarrow> dma_dev \<Rightarrow> dma_dev" where
  "upd_reg ch f d = d\<lparr>chan_regs := (chan_regs d)[ch := f (reg d ch)]\<rparr>"

definition upd_chan :: "nat \<Rightarrow> (dma_wch_channel \<Rightarrow> dma_wch_channel) \<Rightarrow> dma_dev \<Rightarrow> dma_dev" where
  "upd_chan ch f d = d\<lparr>channels := (channels d)[ch := f (chan d ch)]\<rparr>"

section \<open>The Zephyr request structures\<close>

datatype dma_channel_direction =
  MEMORY_TO_MEMORY | MEMORY_TO_PERIPHERAL | PERIPHERAL_TO_MEMORY | OTHER_DIRECTION nat

datatype dma_addr_adj =
  DMA_ADDR_ADJ_INCREMENT | DMA_ADDR_ADJ_NO_CHANGE | OTHER_ADDR_ADJ nat

record dma_block_config =
  source_address :: u32
  dest_address :: u32
  block_size :: u32
  next_block :: bool \<comment> \<open>\<^verbatim>\<open>next_block != NULL\<close>\<close>
  source_gather_en :: bool
  dest_scatter_en :: bool
  source_addr_adj :: dma_addr_adj
  dest_addr_adj :: dma_addr_adj
  source_reload_en :: bool
  dest_reload_en :: bool
  fifo_mode_control :: nat
  flow_control_mode :: bool

record dma_config =
  dma_slot :: u32
  channel_direction :: dma_channel_direction
  half_complete_callback_en :: bool
  cfg_error_callback_dis :: bool
  source_handshake :: bool
  dest_handshake :: bool
  channel_priority :: u32
  source_chaining_en :: bool
  dest_chaining_en :: bool
  cyclic :: bool
  source_data_size :: u32
  dest_data_size :: u32
  source_burst_length :: u32
  dest_burst_length :: u32
  block_count :: u32
  head_block :: "dma_block_config option"
  cfg_user_data :: u32
  dma_callback :: "dma_callback option"

record dma_status =
  busy :: bool
  dir :: dma_channel_direction
  pending_length :: u32
  read_position :: u32
  write_position :: u32

section \<open>Flags\<close>

definition dma_wch_get_ip :: "dma_dev \<Rightarrow> nat \<Rightarrow> u8" where
  "dma_wch_get_ip d ch =
     (if ch \<ge> DMA_WCH_MAX_CHAN_BASE
      then ucast (drop_bit (DMA_WCH_IF_OFF (ch - DMA_WCH_MAX_CHAN_BASE)) (INTFR (ext_bank d)) AND DMA_WCH_AIF)
      else ucast (drop_bit (DMA_WCH_IF_OFF ch) (INTFR (base_bank d)) AND DMA_WCH_AIF))"

definition dma_wch_busy :: "dma_dev \<Rightarrow> nat \<Rightarrow> bool" where
  "dma_wch_busy d ch \<longleftrightarrow>
     ch_state (chan d ch) = DMA_WCH_RUNNING \<or> ch_state (chan d ch) = DMA_WCH_SUSPENDED"

definition dma_wch_clear_flags :: "nat \<Rightarrow> dma_dev \<Rightarrow> dma_dev" where
  "dma_wch_clear_flags ch d =
     (if ch < DMA_WCH_MAX_CHAN_BASE
      then d\<lparr>base_bank := write_INTFCR (push_bit (DMA_WCH_IF_OFF ch) DMA_WCH_AIF) (base_bank d)\<rparr>
      else d\<lparr>ext_bank := write_INTFCR
                (push_bit (DMA_WCH_IF_OFF (ch - DMA_WCH_MAX_CHAN_BASE)) DMA_WCH_AIF) (ext_bank d)\<rparr>)"

section \<open>Initialisation\<close>

text \<open>\<open>ready\<close> is \<^verbatim>\<open>device_is_ready(config->clock_dev)\<close> and \<open>clk\<close> the value
  \<^verbatim>\<open>clock_control_on\<close> returns.  \<^verbatim>\<open>irq_config_func\<close>, which the
  \<^verbatim>\<open>WCH_DMA_INIT\<close> macro generates, connects and enables one interrupt per channel.\<close>

definition dma_wch_irq_config :: "dma_wch_cfg \<Rightarrow> dma_dev \<Rightarrow> dma_dev" where
  "dma_wch_irq_config C d = d\<lparr>irqs_enabled := [0..<num_channels C]\<rparr>"

definition dma_wch_init :: "dma_wch_cfg \<Rightarrow> bool \<Rightarrow> int \<Rightarrow> dma_dev \<Rightarrow> unit res \<times> dma_dev" where
  "dma_wch_init C ready clk d =
     (if num_channels C = 0 \<or> num_channels C > DMA_WCH_MAX_CHAN then (Err ENOTSUP, d)
      else if \<not> ready then (Err ENODEV, d)
      else if clk < 0 then (Err (ERet clk), d)
      else let d1 = fold (\<lambda>ch e. dma_wch_clear_flags ch (upd_reg ch (\<lambda>r. r\<lparr>CFGR := 0\<rparr>) e))
                      [0..<num_channels C] d
           in (Ok, dma_wch_irq_config C d1))"

section \<open>Configuration\<close>

definition dma_wch_width_index :: "u32 \<Rightarrow> u16" where
  "dma_wch_width_index bytes =
     (if bytes = 1 then 0 else if bytes = 2 then 1 else if bytes = 4 then 2 else 0)"

text \<open>The four groups of checks of \<^verbatim>\<open>dma_wch_config\<close>, in its order.\<close>

definition dma_cfg_unsupported :: "dma_config \<Rightarrow> dma_block_config \<Rightarrow> bool" where
  "dma_cfg_unsupported c b \<longleftrightarrow>
     block_count c \<noteq> 1 \<or> next_block b \<or> dma_slot c \<noteq> 0 \<or> source_chaining_en c \<or>
     dest_chaining_en c \<or> source_handshake c \<or> dest_handshake c \<or>
     fifo_mode_control b \<noteq> 0 \<or> flow_control_mode b"

definition dma_cfg_bad_width :: "dma_config \<Rightarrow> bool" where
  "dma_cfg_bad_width c \<longleftrightarrow>
     (let w = source_data_size c
      in (w \<noteq> 1 \<and> w \<noteq> 2 \<and> w \<noteq> 4) \<or> w \<noteq> dest_data_size c \<or>
         (source_burst_length c \<noteq> 0 \<and> source_burst_length c \<noteq> w) \<or>
         (dest_burst_length c \<noteq> 0 \<and> dest_burst_length c \<noteq> w))"

definition dma_cfg_bad_block :: "u32 \<Rightarrow> dma_block_config \<Rightarrow> bool" where
  "dma_cfg_bad_block w b \<longleftrightarrow>
     block_size b = 0 \<or> block_size b mod w \<noteq> 0 \<or> block_size b div w > DMA_WCH_MAX_BLOCK \<or>
     source_address b mod w \<noteq> 0 \<or> dest_address b mod w \<noteq> 0"

definition dma_cfg_bad_mode :: "dma_config \<Rightarrow> dma_block_config \<Rightarrow> bool" where
  "dma_cfg_bad_mode c b \<longleftrightarrow>
     source_gather_en b \<or> dest_scatter_en b \<or> source_reload_en b \<or> channel_priority c > 3 \<or>
     (source_addr_adj b \<noteq> DMA_ADDR_ADJ_INCREMENT \<and> source_addr_adj b \<noteq> DMA_ADDR_ADJ_NO_CHANGE) \<or>
     (dest_addr_adj b \<noteq> DMA_ADDR_ADJ_INCREMENT \<and> dest_addr_adj b \<noteq> DMA_ADDR_ADJ_NO_CHANGE) \<or>
     dest_reload_en b"

text \<open>The switch on the direction: the CFGR bits, PADDR and MADDR it selects.\<close>

definition dma_cfg_direction ::
  "dma_config \<Rightarrow> dma_block_config \<Rightarrow> (u32 \<times> u32 \<times> u32) res" where
  "dma_cfg_direction c b =
     (case channel_direction c of
        MEMORY_TO_MEMORY \<Rightarrow>
          if cyclic c then Err ENOTSUP
          else Inr (DMA_CFGR1_MEM2MEM, source_address b, dest_address b)
      | MEMORY_TO_PERIPHERAL \<Rightarrow> Inr (DMA_CFGR1_DIR, dest_address b, source_address b)
      | PERIPHERAL_TO_MEMORY \<Rightarrow> Inr (0, source_address b, dest_address b)
      | OTHER_DIRECTION _ \<Rightarrow> Err ENOTSUP)"

text \<open>Priority, sizes, increments, circular mode and interrupt enables.\<close>

definition dma_cfg_sizes :: "dma_config \<Rightarrow> dma_block_config \<Rightarrow> u32" where
  "dma_cfg_sizes c b =
     (if channel_direction c = MEMORY_TO_PERIPHERAL
      then ucast (dma_wch_width_index (source_data_size c)) * DMA_CFGR1_MSIZE_0 OR
           ucast (dma_wch_width_index (dest_data_size c)) * DMA_CFGR1_PSIZE_0 OR
           (if dest_addr_adj b = DMA_ADDR_ADJ_INCREMENT then DMA_CFGR1_PINC else 0) OR
           (if source_addr_adj b = DMA_ADDR_ADJ_INCREMENT then DMA_CFGR1_MINC else 0)
      else ucast (dma_wch_width_index (source_data_size c)) * DMA_CFGR1_PSIZE_0 OR
           ucast (dma_wch_width_index (dest_data_size c)) * DMA_CFGR1_MSIZE_0 OR
           (if dest_addr_adj b = DMA_ADDR_ADJ_INCREMENT then DMA_CFGR1_MINC else 0) OR
           (if source_addr_adj b = DMA_ADDR_ADJ_INCREMENT then DMA_CFGR1_PINC else 0))"

definition dma_cfg_cfgr :: "u32 \<Rightarrow> dma_config \<Rightarrow> dma_block_config \<Rightarrow> u32" where
  "dma_cfg_cfgr dirbits c b =
     dirbits OR channel_priority c * DMA_CFGR1_PL_0 OR dma_cfg_sizes c b OR
     (if cyclic c then DMA_CFGR1_CIRC else 0) OR
     (DMA_CFGR1_TEIE OR DMA_CFGR1_TCIE) OR
     (if dma_callback c \<noteq> None \<and> half_complete_callback_en c then DMA_CFGR1_HTIE else 0)"

definition dma_wch_config ::
  "dma_wch_cfg \<Rightarrow> nat \<Rightarrow> dma_config option \<Rightarrow> dma_dev \<Rightarrow> unit res \<times> dma_dev" where
  "dma_wch_config C ch dma_cfg d =
     (case dma_cfg of None \<Rightarrow> (Err EINVAL, d)
      | Some c \<Rightarrow>
        (case head_block c of None \<Rightarrow> (Err EINVAL, d)
         | Some b \<Rightarrow>
           if num_channels C \<le> ch then (Err EINVAL, d)
           else if dma_cfg_unsupported c b then (Err ENOTSUP, d)
           else if dma_cfg_bad_width c then (Err ENOTSUP, d)
           else if dma_cfg_bad_block (source_data_size c) b then (Err EINVAL, d)
           else if dma_cfg_bad_mode c b then (Err ENOTSUP, d)
           else case dma_cfg_direction c b of Inl e \<Rightarrow> (Err e, d)
             | Inr (dirbits, paddr, maddr) \<Rightarrow>
               let cntr = block_size b div source_data_size c;
                   cfgr = dma_cfg_cfgr dirbits c b
               in if dma_wch_busy d ch then (Err EBUSY, d)
                  else (Ok,
                    upd_reg ch (\<lambda>r. r\<lparr>PADDR := paddr, MADDR := maddr, CNTR := cntr, CFGR := cfgr\<rparr>)
                    (dma_wch_clear_flags ch
                    (upd_reg ch (\<lambda>r. r\<lparr>CFGR := 0\<rparr>)
                    (upd_chan ch (\<lambda>k. k\<lparr>user_data := cfg_user_data c, dma_cb := dma_callback c,
                        ch_state := DMA_WCH_CONFIGURED, width := ucast (source_data_size c),
                        ch_length := block_size b,
                        error_callback_dis := cfg_error_callback_dis c\<rparr>) d))))))"

definition dma_wch_reload ::
  "dma_wch_cfg \<Rightarrow> nat \<Rightarrow> u32 \<Rightarrow> u32 \<Rightarrow> u32 \<Rightarrow> dma_dev \<Rightarrow> unit res \<times> dma_dev" where
  "dma_wch_reload C ch src dst sz d =
     (if num_channels C \<le> ch then (Err EINVAL, d)
      else let w = ucast (width (chan d ch)) :: u32
           in if ch_state (chan d ch) = DMA_WCH_UNCONFIGURED \<or> sz = 0 \<or> sz mod w \<noteq> 0 \<or>
                 sz div w > DMA_WCH_MAX_BLOCK \<or> src mod w \<noteq> 0 \<or> dst mod w \<noteq> 0
              then (Err EINVAL, d)
              else if dma_wch_busy d ch then (Err EBUSY, d)
              else let (maddr, paddr) =
                         (if has (CFGR (reg d ch)) DMA_CFGR1_DIR then (src, dst) else (dst, src))
                   in (Ok,
                       dma_wch_clear_flags ch
                      (upd_chan ch (\<lambda>k. k\<lparr>ch_length := sz\<rparr>)
                      (upd_reg ch (\<lambda>r. r\<lparr>MADDR := maddr, PADDR := paddr, CNTR := sz div w\<rparr>) d))))"

section \<open>Channel control\<close>

definition dma_wch_start :: "dma_wch_cfg \<Rightarrow> nat \<Rightarrow> dma_dev \<Rightarrow> unit res \<times> dma_dev" where
  "dma_wch_start C ch d =
     (if num_channels C \<le> ch then (Err EINVAL, d)
      else if ch_state (chan d ch) = DMA_WCH_RUNNING then (Ok, d)
      else if ch_state (chan d ch) \<noteq> DMA_WCH_CONFIGURED \<or> CNTR (reg d ch) = 0 then (Err EINVAL, d)
      else (Ok,
            upd_reg ch (\<lambda>r. r\<lparr>CFGR := CFGR r OR DMA_CFGR1_EN\<rparr>)
           (upd_chan ch (\<lambda>k. k\<lparr>ch_state := DMA_WCH_RUNNING\<rparr>)
           (dma_wch_clear_flags ch d))))"

definition dma_wch_stop :: "dma_wch_cfg \<Rightarrow> nat \<Rightarrow> dma_dev \<Rightarrow> unit res \<times> dma_dev" where
  "dma_wch_stop C ch d =
     (if num_channels C \<le> ch then (Err EINVAL, d)
      else let d1 = dma_wch_clear_flags ch (upd_reg ch (\<lambda>r. r\<lparr>CFGR := CFGR r AND NOT DMA_CFGR1_EN\<rparr>) d)
           in (Ok, if ch_state (chan d ch) \<noteq> DMA_WCH_UNCONFIGURED
                   then upd_chan ch (\<lambda>k. k\<lparr>ch_state := DMA_WCH_CONFIGURED\<rparr>) d1 else d1))"

definition dma_wch_resume :: "dma_wch_cfg \<Rightarrow> nat \<Rightarrow> dma_dev \<Rightarrow> unit res \<times> dma_dev" where
  "dma_wch_resume C ch d =
     (if num_channels C \<le> ch then (Err EINVAL, d)
      else if ch_state (chan d ch) = DMA_WCH_RUNNING then (Ok, d)
      else if ch_state (chan d ch) \<noteq> DMA_WCH_SUSPENDED then (Err EINVAL, d)
      else (Ok, upd_chan ch (\<lambda>k. k\<lparr>ch_state := DMA_WCH_RUNNING\<rparr>)
               (upd_reg ch (\<lambda>r. r\<lparr>CFGR := CFGR r OR DMA_CFGR1_EN\<rparr>) d)))"

definition dma_wch_suspend :: "dma_wch_cfg \<Rightarrow> nat \<Rightarrow> dma_dev \<Rightarrow> unit res \<times> dma_dev" where
  "dma_wch_suspend C ch d =
     (if num_channels C \<le> ch then (Err EINVAL, d)
      else if ch_state (chan d ch) = DMA_WCH_SUSPENDED then (Ok, d)
      else if ch_state (chan d ch) \<noteq> DMA_WCH_RUNNING then (Err EINVAL, d)
      else (Ok, upd_chan ch (\<lambda>k. k\<lparr>ch_state := DMA_WCH_SUSPENDED\<rparr>)
               (upd_reg ch (\<lambda>r. r\<lparr>CFGR := CFGR r AND NOT DMA_CFGR1_EN\<rparr>) d)))"

section \<open>Queries, filter, release\<close>

text \<open>\<open>status_nonnull\<close>: the out-pointer is not \<^verbatim>\<open>NULL\<close>.\<close>

definition dma_wch_get_status ::
  "dma_wch_cfg \<Rightarrow> nat \<Rightarrow> bool \<Rightarrow> dma_dev \<Rightarrow> dma_status res" where
  "dma_wch_get_status C ch status_nonnull d =
     (if num_channels C \<le> ch \<or> \<not> status_nonnull then Err EINVAL
      else let cfgr = CFGR (reg d ch);
               direction = (if has cfgr DMA_CFGR1_MEM2MEM then MEMORY_TO_MEMORY
                            else if has cfgr DMA_CFGR1_DIR then MEMORY_TO_PERIPHERAL
                            else PERIPHERAL_TO_MEMORY);
               pending = CNTR (reg d ch) * ucast (width (chan d ch));
               len = ch_length (chan d ch);
               position = (len - pending) mod len;
               (rd, wr) = (if has cfgr DMA_CFGR1_CIRC \<and> len \<noteq> 0
                 then if has cfgr DMA_CFGR1_DIR
                   then (if has cfgr DMA_CFGR1_MINC then position else 0,
                         if has cfgr DMA_CFGR1_PINC then position else 0)
                   else (if has cfgr DMA_CFGR1_PINC then position else 0,
                         if has cfgr DMA_CFGR1_MINC then position else 0)
                 else (0, 0))
           in Inr \<lparr>busy = dma_wch_busy d ch, dir = direction, pending_length = pending,
                   read_position = rd, write_position = wr\<rparr>)"

datatype dma_attribute =
    DMA_ATTR_BUFFER_ADDRESS_ALIGNMENT | DMA_ATTR_BUFFER_SIZE_ALIGNMENT
  | DMA_ATTR_COPY_ALIGNMENT | DMA_ATTR_MAX_BLOCK_COUNT | DMA_ATTR_OTHER u32

definition dma_wch_get_attribute :: "dma_attribute \<Rightarrow> bool \<Rightarrow> u32 res" where
  "dma_wch_get_attribute type value_nonnull =
     (if \<not> value_nonnull then Err EINVAL
      else case type of
        DMA_ATTR_BUFFER_ADDRESS_ALIGNMENT \<Rightarrow> Inr 1
      | DMA_ATTR_BUFFER_SIZE_ALIGNMENT \<Rightarrow> Inr 1
      | DMA_ATTR_COPY_ALIGNMENT \<Rightarrow> Inr 1
      | DMA_ATTR_MAX_BLOCK_COUNT \<Rightarrow> Inr 1
      | DMA_ATTR_OTHER _ \<Rightarrow> Err EINVAL)"

text \<open>\<open>param\<close> is the value behind the filter pointer, \<open>None\<close> for \<^verbatim>\<open>NULL\<close>.\<close>

definition dma_wch_chan_filter :: "dma_wch_cfg \<Rightarrow> int \<Rightarrow> u32 option \<Rightarrow> bool" where
  "dma_wch_chan_filter C ch param \<longleftrightarrow>
     ch \<ge> 0 \<and> unat (of_int ch :: u32) < num_channels C \<and>
     (case param of None \<Rightarrow> True | Some p \<Rightarrow> p = of_int ch)"

definition zero_channel :: dma_wch_channel where
  "zero_channel = \<lparr>user_data = 0, dma_cb = None, ch_state = DMA_WCH_UNCONFIGURED,
     ch_length = 0, width = 0, error_callback_dis = False\<rparr>"

definition dma_wch_chan_release :: "dma_wch_cfg \<Rightarrow> nat \<Rightarrow> dma_dev \<Rightarrow> dma_dev" where
  "dma_wch_chan_release C ch d =
     (if ch \<ge> num_channels C then d
      else upd_chan ch (\<lambda>_. zero_channel)
          (dma_wch_clear_flags ch (upd_reg ch (\<lambda>r. r\<lparr>CFGR := 0\<rparr>) d)))"

section \<open>Interrupt service\<close>

text \<open>The call \<^verbatim>\<open>cb(dev, user_data, ch, status)\<close>.  It is the last action of the interrupt
  handler, so the handler returns it with the state it is made in.\<close>

record dma_cb_call =
  call_cb :: dma_callback
  call_user :: u32
  call_ch :: nat
  call_status :: dma_cb_status

text \<open>Clearing only the snapshot \<open>ip\<close>, and the cleanup after a terminal event.\<close>

definition dma_isr_ack :: "nat \<Rightarrow> u8 \<Rightarrow> dma_dev \<Rightarrow> dma_dev" where
  "dma_isr_ack ch ip d =
     (if ch < DMA_WCH_MAX_CHAN_BASE
      then d\<lparr>base_bank := write_INTFCR (push_bit (DMA_WCH_IF_OFF ch) (ucast ip)) (base_bank d)\<rparr>
      else d\<lparr>ext_bank := write_INTFCR
              (push_bit (DMA_WCH_IF_OFF (ch - DMA_WCH_MAX_CHAN_BASE)) (ucast ip)) (ext_bank d)\<rparr>)"

definition dma_isr_disable :: "nat \<Rightarrow> dma_dev \<Rightarrow> dma_dev" where
  "dma_isr_disable ch d =
     upd_chan ch (\<lambda>k. k\<lparr>ch_state := DMA_WCH_CONFIGURED\<rparr>)
       (upd_reg ch (\<lambda>r. r\<lparr>CFGR := CFGR r AND NOT DMA_CFGR1_EN\<rparr>) d)"

definition dma_wch_isr :: "nat \<Rightarrow> dma_dev \<Rightarrow> dma_dev \<times> dma_cb_call option" where
  "dma_wch_isr ch d =
     (let ip = dma_wch_get_ip d ch AND NOT (ucast DMA_GIF1);
          cfgr = CFGR (reg d ch);
          k = chan d ch;
          call = (\<lambda>st. map_option (\<lambda>f. \<lparr>call_cb = f, call_user = user_data k, call_ch = ch,
                                        call_status = st\<rparr>) (dma_cb k));
          d1 = dma_isr_ack ch ip d
      in if ch_state k \<noteq> DMA_WCH_RUNNING \<and> ch_state k \<noteq> DMA_WCH_SUSPENDED then (d1, None)
         else if has ip (ucast DMA_TEIF1)
         then (dma_isr_disable ch d1,
               if error_callback_dis k then None else call (DMA_STATUS_ERR EIO))
         else if has ip (ucast DMA_TCIF1)
         then (if has cfgr DMA_CFGR1_CIRC then d1 else dma_isr_disable ch d1,
               if has cfgr DMA_CFGR1_TCIE then call DMA_STATUS_COMPLETE else None)
         else if has ip (ucast DMA_HTIF1) \<and> has cfgr DMA_CFGR1_HTIE
         then (d1, call DMA_STATUS_HALF_COMPLETE)
         else (d1, None))"

section \<open>Flags as bits\<close>

lemmas dma_flag_defs =
  DMA_GIF1_def DMA_TCIF1_def DMA_HTIF1_def
  DMA_TEIF1_def DMA_CFGR1_EN_def DMA_CFGR1_TCIE_def
  DMA_CFGR1_HTIE_def DMA_CFGR1_TEIE_def DMA_CFGR1_DIR_def
  DMA_CFGR1_CIRC_def DMA_CFGR1_PINC_def DMA_CFGR1_MINC_def
  DMA_CFGR1_PSIZE_0_def DMA_CFGR1_MSIZE_0_def DMA_CFGR1_PL_0_def
  DMA_CFGR1_MEM2MEM_def

lemma dma_flag_values:
  "DMA_GIF1 = 2 ^ 0" "DMA_TCIF1 = 2 ^ 1" "DMA_HTIF1 = 2 ^ 2"
  "DMA_TEIF1 = 2 ^ 3" "DMA_CFGR1_EN = 2 ^ 0" "DMA_CFGR1_TCIE = 2 ^ 1"
  "DMA_CFGR1_HTIE = 2 ^ 2" "DMA_CFGR1_TEIE = 2 ^ 3" "DMA_CFGR1_DIR = 2 ^ 4"
  "DMA_CFGR1_CIRC = 2 ^ 5" "DMA_CFGR1_PINC = 2 ^ 6" "DMA_CFGR1_MINC = 2 ^ 7"
  "DMA_CFGR1_PSIZE_0 = 2 ^ 8" "DMA_CFGR1_MSIZE_0 = 2 ^ 10" "DMA_CFGR1_PL_0 = 2 ^ 12"
  "DMA_CFGR1_MEM2MEM = 2 ^ 14"
  by (simp_all add: dma_flag_defs)

lemma dma_flag_values8:
  "(ucast DMA_GIF1 :: u8) = 2 ^ 0" "(ucast DMA_TCIF1 :: u8) = 2 ^ 1"
  "(ucast DMA_HTIF1 :: u8) = 2 ^ 2" "(ucast DMA_TEIF1 :: u8) = 2 ^ 3"
  by (simp_all add: dma_flag_defs)

lemmas dma_flag_tests [wch_bits] =
  dma_flag_values [THEN flag_test] dma_flag_values8 [THEN flag_test]

lemmas dma_flag_bits [wch_bits] =
  dma_flag_values [THEN flag_bit] dma_flag_values8 [THEN flag_bit]

lemmas dma_flag_zero [wch_bits] =
  dma_flag_values [THEN flag_zero] dma_flag_values8 [THEN flag_zero]

lemma DMA_WCH_AIF_bit [wch_bits]: "bit DMA_WCH_AIF n \<longleftrightarrow> n < 4"
  by (auto simp: DMA_WCH_AIF_def wch_bits)

lemma push_AIF_bit: "n < 32 \<Longrightarrow> bit (push_bit (4 * m) DMA_WCH_AIF) n \<longleftrightarrow> n div 4 = m"
  by (auto simp: bit_push_bit_iff wch_bits)

lemma push_GIF_test: "(x AND push_bit m DMA_GIF1 = 0) \<longleftrightarrow> \<not> bit x m" for x :: u32
  by (simp add: dma_flag_values push_bit_eq_mult and_pow2_eq_0)

text \<open>Bit \<open>n\<close> of the cleared set: written directly, or covered by its channel's global flag.\<close>

lemma clear_set_bit:
  "n < 32 \<Longrightarrow>
   bit (fold (\<lambda>ch fl. if has fl (push_bit (DMA_WCH_IF_OFF ch) DMA_GIF1)
                     then fl OR push_bit (DMA_WCH_IF_OFF ch) DMA_WCH_AIF else fl) [0..<m] v) n
   \<longleftrightarrow> bit v n \<or> n div 4 < m \<and> bit v (4 * (n div 4))"
proof (induction m arbitrary: n)
  case 0
  then show ?case by simp
next
  case (Suc m)
  let ?F = "fold (\<lambda>ch fl. if has fl (push_bit (DMA_WCH_IF_OFF ch) DMA_GIF1)
                     then fl OR push_bit (DMA_WCH_IF_OFF ch) DMA_WCH_AIF else fl) [0..<m] v"
  have gif: "bit ?F (4 * m) \<longleftrightarrow> bit v (4 * m)" if "n div 4 = m"
    using Suc.IH [of "4 * m"] Suc.prems that by auto
  show ?case
    using Suc.IH [OF Suc.prems] gif push_AIF_bit [OF Suc.prems, of m]
    by (auto simp: DMA_WCH_IF_OFF_def push_GIF_test bit_or_iff less_Suc_eq)
qed

lemma apply_clear_bit:
  "n < 32 \<Longrightarrow> bit (INTFR (apply_clear b)) n \<longleftrightarrow>
     bit (INTFR b) n \<and> \<not> bit (INTFCR b) n \<and> \<not> bit (INTFCR b) (4 * (n div 4))"
  by (auto simp: apply_clear_def Let_def bit_and_iff bit_not_iff clear_set_bit
        DMA_WCH_MAX_CHAN_BASE_def)

lemma write_INTFCR_bit:
  "n < 32 \<Longrightarrow> bit (INTFR (write_INTFCR v b)) n \<longleftrightarrow>
     bit (INTFR b) n \<and> \<not> bit v n \<and> \<not> bit v (4 * (n div 4))"
  by (simp add: write_INTFCR_def apply_clear_bit)

section \<open>Channel flags\<close>

definition chan_bank :: "dma_dev \<Rightarrow> nat \<Rightarrow> DMA_TypeDef" where
  "chan_bank d ch = (if ch < 8 then base_bank d else ext_bank d)"

lemma get_ip_bit:
  "bit (dma_wch_get_ip d ch) k \<longleftrightarrow> k < 4 \<and> bit (INTFR (chan_bank d ch)) (4 * (ch mod 8) + k)"
  if "ch < 16"
proof -
  have "ch \<ge> 8 \<Longrightarrow> ch mod 8 = ch - 8" using that by (simp add: mod_if)
  then show ?thesis
    by (auto simp: dma_wch_get_ip_def chan_bank_def DMA_WCH_MAX_CHAN_BASE_def DMA_WCH_IF_OFF_def
        bit_simps wch_bits dest: bit_word_less)
qed

lemma mod8_less16: "c < 16 \<Longrightarrow> (if c < 8 then c else c - 8) = c mod 8" for c :: nat
  by (simp add: mod_if)

lemma chan_eq_iff: "c < 16 \<Longrightarrow> c' < 16 \<Longrightarrow> c = c' \<longleftrightarrow> c mod 8 = c' mod 8 \<and> (c < 8) = (c' < 8)"
  for c c' :: nat
  by (auto simp: mod_if split: if_splits)

lemma clear_flags_bank:
  "ch < 16 \<Longrightarrow> chan_bank (dma_wch_clear_flags ch d) ch' =
     (if (ch < 8) = (ch' < 8)
      then write_INTFCR (push_bit (4 * (ch mod 8)) DMA_WCH_AIF) (chan_bank d ch')
      else chan_bank d ch')"
  by (simp add: dma_wch_clear_flags_def chan_bank_def DMA_WCH_MAX_CHAN_BASE_def DMA_WCH_IF_OFF_def
      flip: mod8_less16)

lemma write_AIF_bit:
  "c < 8 \<Longrightarrow> c' < 8 \<Longrightarrow> k < 4 \<Longrightarrow>
   bit (INTFR (write_INTFCR (push_bit (4 * c) DMA_WCH_AIF) b)) (4 * c' + k) \<longleftrightarrow>
     bit (INTFR b) (4 * c' + k) \<and> c' \<noteq> c"
  by (auto simp: write_INTFCR_bit push_AIF_bit)

text \<open>Clearing a channel's flags clears that channel's four flags and no other channel's.\<close>

lemma get_ip_clear_flags:
  assumes "ch < 16" "ch' < 16"
  shows "dma_wch_get_ip (dma_wch_clear_flags ch d) ch' =
           (if ch' = ch then 0 else dma_wch_get_ip d ch')"
proof (rule bit_word_eqI)
  fix n
  show "bit (dma_wch_get_ip (dma_wch_clear_flags ch d) ch') n
      = bit (if ch' = ch then 0 else dma_wch_get_ip d ch') n"
    unfolding chan_eq_iff [OF assms(2,1)]
    by (cases "n < 4") (simp_all add: assms get_ip_bit clear_flags_bank write_AIF_bit)
qed

lemma push_ip_bit:
  assumes "\<And>j. bit (ip :: u8) j \<Longrightarrow> j < 4" "c < 8" "c' < 8" "k < 4"
  shows "bit (push_bit (4 * c) (ucast ip :: u32)) (4 * c' + k) \<longleftrightarrow> c' = c \<and> bit ip k"
proof -
  have "c' = c" if "4 * c \<le> 4 * c' + k" "4 * c' + k - 4 * c < 4"
    using that assms(4) by linarith
  with assms show ?thesis
    by (auto simp: bit_push_bit_iff bit_ucast_iff dest: bit_word_less)
qed

lemma ack_bank:
  "ch < 16 \<Longrightarrow> chan_bank (dma_isr_ack ch ip d) ch' =
     (if (ch < 8) = (ch' < 8)
      then write_INTFCR (push_bit (4 * (ch mod 8)) (ucast ip)) (chan_bank d ch')
      else chan_bank d ch')"
  by (simp add: dma_isr_ack_def chan_bank_def DMA_WCH_MAX_CHAN_BASE_def DMA_WCH_IF_OFF_def
      flip: mod8_less16)

text \<open>Acknowledging a snapshot without the global flag clears exactly its flags.\<close>

lemma get_ip_ack:
  assumes "ch < 16" "ch' < 16" "\<And>j. bit ip j \<Longrightarrow> 0 < j \<and> j < 4"
  shows "dma_wch_get_ip (dma_isr_ack ch ip d) ch' =
           (if ch' = ch then dma_wch_get_ip d ch' AND NOT ip else dma_wch_get_ip d ch')"
proof (rule bit_word_eqI)
  fix n
  have ip: "\<And>j. bit ip j \<Longrightarrow> j < 4" and ip0: "\<not> bit ip 0" using assms(3) by auto
  have w: "bit (INTFR (write_INTFCR (push_bit (4 * c) (ucast ip)) b)) (4 * c' + n) \<longleftrightarrow>
      bit (INTFR b) (4 * c' + n) \<and> \<not> (c' = c \<and> bit ip n)" if "c < 8" "c' < 8" "n < 4" for c c' b
    using that ip0 push_ip_bit [of ip, OF ip that] push_ip_bit [of ip, OF ip that(1,2), of 0]
    by (auto simp: write_INTFCR_bit)
  show "bit (dma_wch_get_ip (dma_isr_ack ch ip d) ch') n
      = bit (if ch' = ch then dma_wch_get_ip d ch' AND NOT ip else dma_wch_get_ip d ch') n"
    unfolding chan_eq_iff [OF assms(2,1)]
    by (cases "n < 4") (auto simp: assms(1,2) get_ip_bit ack_bank w bit_and_iff bit_not_iff
        dest: bit_word_less ip)
qed

section \<open>Frames of the state updates\<close>

named_theorems dma_frames \<open>what an update of the controller state leaves unchanged\<close>

lemma upd_reg_frame [dma_frames, simp]:
  "channels (upd_reg ch f d) = channels d" "base_bank (upd_reg ch f d) = base_bank d"
  "ext_bank (upd_reg ch f d) = ext_bank d" "irqs_enabled (upd_reg ch f d) = irqs_enabled d"
  "length (chan_regs (upd_reg ch f d)) = length (chan_regs d)"
  "dma_wch_get_ip (upd_reg ch f d) c = dma_wch_get_ip d c"
  "dma_wch_busy (upd_reg ch f d) c = dma_wch_busy d c"
  by (simp_all add: upd_reg_def dma_wch_get_ip_def dma_wch_busy_def)

lemma upd_chan_frame [dma_frames, simp]:
  "chan_regs (upd_chan ch f d) = chan_regs d" "base_bank (upd_chan ch f d) = base_bank d"
  "ext_bank (upd_chan ch f d) = ext_bank d" "irqs_enabled (upd_chan ch f d) = irqs_enabled d"
  "length (channels (upd_chan ch f d)) = length (channels d)"
  "dma_wch_get_ip (upd_chan ch f d) c = dma_wch_get_ip d c"
  by (simp_all add: upd_chan_def dma_wch_get_ip_def)

lemma clear_flags_frame [dma_frames, simp]:
  "channels (dma_wch_clear_flags ch d) = channels d"
  "chan_regs (dma_wch_clear_flags ch d) = chan_regs d"
  "irqs_enabled (dma_wch_clear_flags ch d) = irqs_enabled d"
  by (simp_all add: dma_wch_clear_flags_def)

lemma isr_ack_frame [dma_frames, simp]:
  "channels (dma_isr_ack ch ip d) = channels d" "chan_regs (dma_isr_ack ch ip d) = chan_regs d"
  "irqs_enabled (dma_isr_ack ch ip d) = irqs_enabled d"
  by (simp_all add: dma_isr_ack_def)

lemma reg_upd_reg [simp]:
  "ch < length (chan_regs d) \<Longrightarrow>
   reg (upd_reg ch f d) c = (if c = ch then f (reg d ch) else reg d c)"
  by (simp add: upd_reg_def)

lemma chan_upd_chan [simp]:
  "ch < length (channels d) \<Longrightarrow>
   chan (upd_chan ch f d) c = (if c = ch then f (chan d ch) else chan d c)"
  by (simp add: upd_chan_def)

lemma upd_other [simp]:
  "c \<noteq> ch \<Longrightarrow> reg (upd_reg ch f d) c = reg d c"
  "c \<noteq> ch \<Longrightarrow> chan (upd_chan ch g d) c = chan d c"
  by (simp_all add: upd_reg_def upd_chan_def)

section \<open>Well-formedness, channel invariant, frame relation\<close>

text \<open>The register block has its eleven channels and the driver's array one entry per
  configured channel, so that every index the operations use after their range check is
  inside both arrays.\<close>

definition dma_wf :: "dma_wch_cfg \<Rightarrow> dma_dev \<Rightarrow> bool" where
  "dma_wf C d \<longleftrightarrow> 0 < num_channels C \<and> num_channels C \<le> DMA_WCH_MAX_CHAN \<and>
     length (chan_regs d) = DMA_WCH_MAX_CHAN \<and> length (channels d) = num_channels C"

text \<open>A channel is enabled in hardware exactly when the driver says it is running; a
  configured channel has a legal element width, a length that is a nonzero multiple of it
  with at most 65535 elements, and a counter that stands for at most that length.\<close>

definition chan_ok :: "dma_wch_chan_regs \<Rightarrow> dma_wch_channel \<Rightarrow> bool" where
  "chan_ok r k \<longleftrightarrow>
     (ch_state k = DMA_WCH_RUNNING \<longleftrightarrow> has (CFGR r) DMA_CFGR1_EN) \<and>
     (ch_state k \<noteq> DMA_WCH_UNCONFIGURED \<longrightarrow>
        (width k = 1 \<or> width k = 2 \<or> width k = 4) \<and> ch_length k \<noteq> 0 \<and>
        unat (width k) dvd unat (ch_length k) \<and>
        unat (ch_length k) div unat (width k) \<le> 65535 \<and>
        unat (CNTR r) * unat (width k) \<le> unat (ch_length k) \<and>
        has (CFGR r) DMA_CFGR1_TCIE \<and> has (CFGR r) DMA_CFGR1_TEIE \<and>
        \<not> (has (CFGR r) DMA_CFGR1_MEM2MEM \<and> has (CFGR r) DMA_CFGR1_CIRC))"

definition dma_inv :: "dma_wch_cfg \<Rightarrow> dma_dev \<Rightarrow> bool" where
  "dma_inv C d \<longleftrightarrow> dma_wf C d \<and> (\<forall>ch < num_channels C. chan_ok (reg d ch) (chan d ch))"

text \<open>\<open>d'\<close> differs from \<open>d\<close> at most in channel \<open>ch\<close>: its registers, its data, its flags.\<close>

definition only_chan :: "nat \<Rightarrow> dma_dev \<Rightarrow> dma_dev \<Rightarrow> bool" where
  "only_chan ch d d' \<longleftrightarrow>
     length (chan_regs d') = length (chan_regs d) \<and> length (channels d') = length (channels d) \<and>
     irqs_enabled d' = irqs_enabled d \<and>
     (\<forall>c. c \<noteq> ch \<longrightarrow> reg d' c = reg d c \<and> chan d' c = chan d c \<and>
        (c < 16 \<longrightarrow> dma_wch_get_ip d' c = dma_wch_get_ip d c))"

lemma only_chan_refl [simp, intro]: "only_chan ch d d"
  by (simp add: only_chan_def)

lemma only_chan_trans: "only_chan ch d e \<Longrightarrow> only_chan ch e f \<Longrightarrow> only_chan ch d f"
  by (simp add: only_chan_def)

lemma only_chan_upd_reg: "only_chan ch d e \<Longrightarrow> only_chan ch d (upd_reg ch f e)"
  by (simp add: only_chan_def)

lemma only_chan_upd_chan: "only_chan ch d e \<Longrightarrow> only_chan ch d (upd_chan ch f e)"
  by (simp add: only_chan_def)

lemma only_chan_clear: "ch < 16 \<Longrightarrow> only_chan ch d e \<Longrightarrow> only_chan ch d (dma_wch_clear_flags ch e)"
  by (simp add: only_chan_def get_ip_clear_flags)

lemmas only_chan_intros = only_chan_upd_reg only_chan_upd_chan only_chan_clear only_chan_refl

lemma dma_wf_only_chan: "dma_wf C d \<Longrightarrow> only_chan ch d d' \<Longrightarrow> dma_wf C d'"
  by (simp add: dma_wf_def only_chan_def)

lemma dma_inv_only_chan:
  assumes "dma_inv C d" "only_chan ch d d'" "ch < num_channels C \<Longrightarrow> chan_ok (reg d' ch) (chan d' ch)"
  shows "dma_inv C d'"
  using assms dma_wf_only_chan [of C d ch d'] unfolding dma_inv_def only_chan_def by metis

lemma dma_wf_bounds:
  assumes "dma_wf C d" "ch < num_channels C"
  shows "ch < 16" "ch < length (chan_regs d)" "ch < length (channels d)"
  using assms by (simp_all add: dma_wf_def DMA_WCH_MAX_CHAN_def)

lemma dma_inv_wf: "dma_inv C d \<Longrightarrow> dma_wf C d"
  by (simp add: dma_inv_def)

lemma dma_inv_chan: "dma_inv C d \<Longrightarrow> ch < num_channels C \<Longrightarrow> chan_ok (reg d ch) (chan d ch)"
  by (simp add: dma_inv_def)

end
