(* ===== verification/Dma_Iface.thy ===== *)
theory Dma_Iface
  imports Dma_Wch
begin

text \<open>
  The interface between the DMA driver and its clients: the driver's function table
  (\<^verbatim>\<open>DEVICE_API(dma, ...)\<close>), an abstract DMA channel, and the locale
  \<open>dma_provider\<close> with the laws the UART driver relies on.  Theory \<open>Dma_Props\<close> shows that the
  WCH driver satisfies them.
\<close>

section \<open>The function table\<close>

record 'd dma_driver_api =
  api_config :: "nat \<Rightarrow> dma_config option \<Rightarrow> 'd \<Rightarrow> unit res \<times> 'd"
  api_reload :: "nat \<Rightarrow> u32 \<Rightarrow> u32 \<Rightarrow> u32 \<Rightarrow> 'd \<Rightarrow> unit res \<times> 'd"
  api_start :: "nat \<Rightarrow> 'd \<Rightarrow> unit res \<times> 'd"
  api_stop :: "nat \<Rightarrow> 'd \<Rightarrow> unit res \<times> 'd"
  api_resume :: "nat \<Rightarrow> 'd \<Rightarrow> unit res \<times> 'd"
  api_suspend :: "nat \<Rightarrow> 'd \<Rightarrow> unit res \<times> 'd"
  api_get_status :: "nat \<Rightarrow> bool \<Rightarrow> 'd \<Rightarrow> dma_status res"
  api_get_attribute :: "dma_attribute \<Rightarrow> bool \<Rightarrow> u32 res"
  api_chan_filter :: "int \<Rightarrow> u32 option \<Rightarrow> bool"
  api_chan_release :: "nat \<Rightarrow> 'd \<Rightarrow> 'd"

section \<open>An abstract channel\<close>

text \<open>A channel is free, or holds a transfer of \<open>tot\<close> bytes with \<open>left\<close> bytes to go that is
  ready, running or paused.\<close>

datatype achan = AFree | AReady nat nat | ARunning nat nat | APaused nat nat

fun achan_busy :: "achan \<Rightarrow> bool" where
  "achan_busy (ARunning _ _) = True"
| "achan_busy (APaused _ _) = True"
| "achan_busy _ = False"

fun achan_running :: "achan \<Rightarrow> bool" where
  "achan_running (ARunning _ _) = True"
| "achan_running _ = False"

fun achan_start_ok :: "achan \<Rightarrow> bool" where
  "achan_start_ok (AReady _ left) = (left \<noteq> 0)"
| "achan_start_ok (ARunning _ _) = True"
| "achan_start_ok _ = False"

fun achan_start :: "achan \<Rightarrow> achan" where
  "achan_start (AReady tot left) = (if left = 0 then AReady tot left else ARunning tot left)"
| "achan_start a = a"

fun achan_stop :: "achan \<Rightarrow> achan" where
  "achan_stop AFree = AFree"
| "achan_stop (AReady tot left) = AReady tot left"
| "achan_stop (ARunning tot left) = AReady tot left"
| "achan_stop (APaused tot left) = AReady tot left"

fun achan_suspend :: "achan \<Rightarrow> achan" where
  "achan_suspend (ARunning tot left) = APaused tot left"
| "achan_suspend a = a"

fun achan_resume :: "achan \<Rightarrow> achan" where
  "achan_resume (APaused tot left) = ARunning tot left"
| "achan_resume a = a"

fun achan_left :: "achan \<Rightarrow> nat" where
  "achan_left AFree = 0"
| "achan_left (AReady _ left) = left"
| "achan_left (ARunning _ left) = left"
| "achan_left (APaused _ left) = left"

text \<open>What the hardware may do to a channel: nothing unless it runs, and then only move within
  the block.\<close>

definition achan_progress :: "achan \<Rightarrow> achan \<Rightarrow> bool" where
  "achan_progress a a' \<longleftrightarrow> a' = a \<or>
     (\<exists>tot left left'. a = ARunning tot left \<and> a' = ARunning tot left' \<and> left' \<le> tot)"

text \<open>What a request that passes the checks satisfies.\<close>

definition dma_request_ok :: "dma_config \<Rightarrow> dma_block_config \<Rightarrow> bool" where
  "dma_request_ok c b \<longleftrightarrow>
     \<not> dma_cfg_unsupported c b \<and> \<not> dma_cfg_bad_width c \<and>
     \<not> dma_cfg_bad_block (source_data_size c) b \<and> \<not> dma_cfg_bad_mode c b \<and>
     (\<exists>x. dma_cfg_direction c b = Inr x)"

section \<open>The contract\<close>

locale dma_provider =
  fixes api :: "'d dma_driver_api"
    and dok :: "'d \<Rightarrow> bool"
    and nch :: nat
    and view :: "'d \<Rightarrow> nat \<Rightarrow> achan"
    and hw :: "'d \<Rightarrow> 'd \<Rightarrow> bool"
  assumes config_dok: "dok d \<Longrightarrow> api_config api ch oc d = (r, d') \<Longrightarrow> dok d'"
    and config_view: "dok d \<Longrightarrow> head_block c = Some b \<Longrightarrow> api_config api ch (Some c) d = (r, d') \<Longrightarrow>
      view d' ch = (if r = Ok then AReady (unat (block_size b)) (unat (block_size b)) else view d ch)"
    and config_accepts: "dok d \<Longrightarrow> ch < nch \<Longrightarrow> head_block c = Some b \<Longrightarrow> dma_request_ok c b \<Longrightarrow>
      \<not> achan_busy (view d ch) \<Longrightarrow> fst (api_config api ch (Some c) d) = Ok"
    and config_other: "dok d \<Longrightarrow> api_config api ch oc d = (r, d') \<Longrightarrow> c' \<noteq> ch \<Longrightarrow> view d' c' = view d c'"
    and start_dok: "dok d \<Longrightarrow> api_start api ch d = (r, d') \<Longrightarrow> dok d'"
    and start_view: "dok d \<Longrightarrow> ch < nch \<Longrightarrow> api_start api ch d = (r, d') \<Longrightarrow>
      view d' ch = achan_start (view d ch) \<and> (r = Ok \<longleftrightarrow> achan_start_ok (view d ch))"
    and start_other: "dok d \<Longrightarrow> api_start api ch d = (r, d') \<Longrightarrow> c' \<noteq> ch \<Longrightarrow> view d' c' = view d c'"
    and stop_dok: "dok d \<Longrightarrow> api_stop api ch d = (r, d') \<Longrightarrow> dok d'"
    and stop_view: "dok d \<Longrightarrow> ch < nch \<Longrightarrow> api_stop api ch d = (r, d') \<Longrightarrow>
      view d' ch = achan_stop (view d ch) \<and> r = Ok"
    and stop_other: "dok d \<Longrightarrow> api_stop api ch d = (r, d') \<Longrightarrow> c' \<noteq> ch \<Longrightarrow> view d' c' = view d c'"
    and status_view: "dok d \<Longrightarrow> ch < nch \<Longrightarrow> view d ch \<noteq> AFree \<Longrightarrow>
      \<exists>st. api_get_status api ch True d = Inr st \<and> unat (pending_length st) = achan_left (view d ch) \<and>
        (busy st \<longleftrightarrow> achan_busy (view d ch))"
    and hw_dok: "dok d \<Longrightarrow> hw d d' \<Longrightarrow> dok d'"
    and hw_view: "dok d \<Longrightarrow> hw d d' \<Longrightarrow> ch < nch \<Longrightarrow> achan_progress (view d ch) (view d' ch)"
begin

text \<open>Facts about the call sequences the UART driver makes.\<close>

lemma config_start:
  assumes "dok d" "ch < nch" "head_block c = Some b" "block_size b \<noteq> 0"
    and "api_config api ch (Some c) d = (Ok, d1)" "api_start api ch d1 = (r, d2)"
  shows "r = Ok \<and> dok d2 \<and> view d2 ch = ARunning (unat (block_size b)) (unat (block_size b))"
proof -
  have v1: "view d1 ch = AReady (unat (block_size b)) (unat (block_size b))"
    using config_view [OF assms(1,3,5)] by simp
  have d1: "dok d1" using config_dok [OF assms(1,5)] .
  have "unat (block_size b) \<noteq> 0" using assms(4) by (simp add: unat_eq_zero)
  then show ?thesis
    using start_view [OF d1 assms(2,6)] start_dok [OF d1 assms(6)] v1 by simp
qed

lemma stop_not_running:
  "dok d \<Longrightarrow> ch < nch \<Longrightarrow> api_stop api ch d = (r, d') \<Longrightarrow> \<not> achan_busy (view d' ch)"
  using stop_view by (cases "view d ch") auto

lemma stop_status:
  assumes "dok d" "ch < nch" "view d ch \<noteq> AFree" "api_stop api ch d = (r, d')"
  shows "\<exists>st. api_get_status api ch True d' = Inr st \<and>
    unat (pending_length st) = achan_left (view d ch)"
proof -
  have "view d' ch \<noteq> AFree" "achan_left (view d' ch) = achan_left (view d ch)"
    using stop_view [OF assms(1,2,4)] assms(3) by (cases "view d ch"; simp)+
  then show ?thesis
    using status_view [OF stop_dok [OF assms(1,4)] assms(2)] by metis
qed

end

section \<open>Interrupts\<close>

text \<open>The status argument of a callback is negative.\<close>

fun status_neg :: "dma_cb_status \<Rightarrow> bool" where
  "status_neg (DMA_STATUS_ERR _) = True"
| "status_neg _ = False"

text \<open>What a channel keeps of its last request: mode, callback and the memory address (the source
  of a memory-to-peripheral request, the destination of any other).\<close>

record dma_meta =
  m_cyclic :: bool
  m_error_dis :: bool
  m_cb :: "dma_callback option"
  m_user :: u32
  m_mem :: u32

definition request_meta :: "dma_config \<Rightarrow> dma_meta" where
  "request_meta c = \<lparr>m_cyclic = cyclic c, m_error_dis = cfg_error_callback_dis c,
     m_cb = dma_callback c, m_user = cfg_user_data c,
     m_mem = (case head_block c of None \<Rightarrow> 0
              | Some b \<Rightarrow> if channel_direction c = MEMORY_TO_PERIPHERAL then source_address b
                          else dest_address b)\<rparr>"

text \<open>The contract of a channel interrupt: it reports to the installed callback, only for a busy
  channel, and a terminal report comes with the channel already stopped.  \<open>irq\<close> returns the
  callback invocation that ends the handler.\<close>

locale dma_irq_provider = dma_provider api dok nch view hw
  for api :: "'d dma_driver_api" and dok and nch and view and hw +
  fixes meta :: "'d \<Rightarrow> nat \<Rightarrow> dma_meta"
    and irq :: "nat \<Rightarrow> 'd \<Rightarrow> 'd \<times> dma_cb_call option"
  assumes config_meta: "dok d \<Longrightarrow> api_config api ch (Some c) d = (Ok, d') \<Longrightarrow> meta d' ch = request_meta c"
    and config_meta_other: "dok d \<Longrightarrow> api_config api ch oc d = (r, d') \<Longrightarrow> c' \<noteq> ch \<Longrightarrow>
      meta d' c' = meta d c'"
    and start_meta: "dok d \<Longrightarrow> api_start api ch d = (r, d') \<Longrightarrow> c' < nch \<Longrightarrow> meta d' c' = meta d c'"
    and stop_meta: "dok d \<Longrightarrow> api_stop api ch d = (r, d') \<Longrightarrow> c' < nch \<Longrightarrow> meta d' c' = meta d c'"
    and hw_meta: "dok d \<Longrightarrow> hw d d' \<Longrightarrow> c' < nch \<Longrightarrow> meta d' c' = meta d c'"
    and irq_dok: "dok d \<Longrightarrow> ch < nch \<Longrightarrow> irq ch d = (d', ok) \<Longrightarrow> dok d'"
    and irq_meta: "dok d \<Longrightarrow> ch < nch \<Longrightarrow> irq ch d = (d', ok) \<Longrightarrow> c' < nch \<Longrightarrow> meta d' c' = meta d c'"
    and irq_other: "dok d \<Longrightarrow> ch < nch \<Longrightarrow> irq ch d = (d', ok) \<Longrightarrow> c' \<noteq> ch \<Longrightarrow> view d' c' = view d c'"
    and irq_idle: "dok d \<Longrightarrow> ch < nch \<Longrightarrow> irq ch d = (d', ok) \<Longrightarrow> \<not> achan_busy (view d ch) \<Longrightarrow>
      view d' ch = view d ch \<and> ok = None"
    and irq_quiet: "dok d \<Longrightarrow> ch < nch \<Longrightarrow> irq ch d = (d', None) \<Longrightarrow> \<not> m_error_dis (meta d ch) \<Longrightarrow>
      m_cb (meta d ch) \<noteq> None \<Longrightarrow> view d' ch = view d ch"
    and irq_call: "dok d \<Longrightarrow> ch < nch \<Longrightarrow> irq ch d = (d', Some k) \<Longrightarrow>
      m_cb (meta d ch) = Some (call_cb k) \<and> call_user k = m_user (meta d ch) \<and> call_ch k = ch \<and>
      view d' ch = (if status_neg (call_status k) \<or>
                       call_status k = DMA_STATUS_COMPLETE \<and> \<not> m_cyclic (meta d ch)
                    then achan_stop (view d ch) else view d ch)"

end
