(* ===== verification/Uart_Dev.thy ===== *)
theory Uart_Dev
  imports Uart_Contract Uart_Irq_Trace Dma_Iface
begin

text \<open>
  The state of one UART port with its asynchronous extension: the USART register block, the
  driver data of \<^verbatim>\<open>uart_wch_tx_state.h\<close> and \<^verbatim>\<open>uart_wch_rx_state.h\<close>, the DMA
  controller's state (of any type \<open>'d\<close>, driven through its function table) and the kernel's
  time.  What the driver calls outside the repository is collected in the record
  \<open>uart_ext\<close>, a parameter of every operation that needs it.
\<close>

unbundle bit_operations_syntax

section \<open>Outside the repository\<close>

text \<open>
  \<^item> \<open>ERROR_OVERRUN\<close> ... : the values of Zephyr's \<^verbatim>\<open>enum uart_rx_stop_reason\<close>
    (\<open>ERROR_BREAK\<close> is \<^verbatim>\<open>UART_BREAK\<close>), and two of its line-format enums;
  \<^item> \<open>datar_read\<close>: what reading DATAR (after STATR) does to the status register;
  \<^item> \<open>us_to_ticks\<close>: \<^verbatim>\<open>k_us_to_ticks_ceil64\<close>;
  \<^item> \<open>work_reschedule\<close>: the value \<^verbatim>\<open>k_work_reschedule\<close> returns for a delay in ticks.
\<close>

record uart_ext =
  ERROR_OVERRUN :: u32
  ERROR_PARITY :: u32
  ERROR_FRAMING :: u32
  ERROR_NOISE :: u32
  ERROR_BREAK :: u32
  UART_CFG_PARITY_NONE :: u8
  UART_CFG_STOP_BITS_1 :: u8
  datar_read :: "u16 \<Rightarrow> u16"
  us_to_ticks :: "int \<Rightarrow> int"
  work_reschedule :: "int \<Rightarrow> int"

text \<open>Documented of the error masks: each is a bit of its own, so none is zero.\<close>

definition error_masks_ok :: "uart_ext \<Rightarrow> bool" where
  "error_masks_ok X \<longleftrightarrow> ERROR_OVERRUN X \<noteq> 0 \<and> ERROR_PARITY X \<noteq> 0 \<and> ERROR_FRAMING X \<noteq> 0 \<and>
     ERROR_NOISE X \<noteq> 0 \<and> ERROR_BREAK X \<noteq> 0"

abbreviation SYS_FOREVER_US :: int where "SYS_FOREVER_US \<equiv> -1"

section \<open>Events and driver data\<close>

datatype uart_event =
    UART_TX_DONE u32 u32 \<comment> \<open>buf, len\<close>
  | UART_TX_ABORTED u32 u32
  | UART_RX_RDY u32 u32 u32 \<comment> \<open>buf, offset, len\<close>
  | UART_RX_BUF_REQUEST
  | UART_RX_BUF_RELEASED u32
  | UART_RX_DISABLED
  | UART_RX_STOPPED u32 u32 u32 u32 \<comment> \<open>reason, buf, offset, len\<close>

datatype wch_uart_tx_phase = WCH_TX_IDLE | WCH_TX_DMA | WCH_TX_WAIT_TC

text \<open>A callback pointer is \<open>None\<close> for \<^verbatim>\<open>NULL\<close>.  \<open>timeout_work\<close> holds the delay of the last
  successful \<^verbatim>\<open>k_work_reschedule\<close>.\<close>

record wch_uart_tx =
  tx_phase :: wch_uart_tx_phase
  tx_callback :: "u32 option"
  tx_user_data :: u32
  tx_uart :: u32
  tx_buffer :: u32
  tx_length :: u32
  tx_block :: dma_block_config
  tx_dma :: dma_config
  timeout_work :: "int option"
  deadline :: int
  reserved :: bool
  needs_tc :: bool

record wch_uart_tx_notification =
  note_callback :: "u32 option"
  note_user_data :: u32
  note_event :: uart_event

datatype wch_uart_rx_phase = WCH_RX_IDLE | WCH_RX_ACTIVE | WCH_RX_STOPPING

record wch_uart_rx_note =
  rx_event :: uart_event
  note_generation :: u32

record wch_uart_rx =
  rx_phase :: wch_uart_rx_phase
  rx_buffer :: u32
  rx_length :: u32
  rx_next :: u32
  rx_next_length :: u32
  rx_block :: dma_block_config
  rx_dma :: dma_config
  request_open :: bool
  dispatching :: bool
  generation :: u32
  rx_notes :: "wch_uart_rx_note list" \<comment> \<open>\<^verbatim>\<open>rx_notes[12]\<close>\<close>
  rx_head :: u8
  rx_count :: u8

text \<open>\<^verbatim>\<open>struct usart_wch_config\<close>.  \<open>regs_addr\<close> is the address of the register block, \<open>dev_ptr\<close> the
  device pointer itself; the last five fields are the build options
  \<^verbatim>\<open>CONFIG_WCH_UART_DMA_PREPARE\<close>, \<^verbatim>\<open>CONFIG_WCH_UART_ASYNC_TX\<close>,
  \<^verbatim>\<open>CONFIG_WCH_UART_ASYNC_RX\<close>, \<^verbatim>\<open>CONFIG_UART_INTERRUPT_DRIVEN\<close> and
  \<^verbatim>\<open>CONFIG_WCH_UART_IRQ_TRACE\<close>.\<close>

record usart_wch_config =
  regs_addr :: u32
  dev_ptr :: u32
  current_speed :: u32
  parity :: u8
  stop_bits :: u8
  data_bits :: u8
  hw_flow_control :: bool
  dma_tx_dev :: u32
  dma_rx_dev :: u32
  dma_tx_channel :: nat
  dma_rx_channel :: nat
  dma_prepare :: bool
  async_tx :: bool
  async_rx :: bool
  interrupt_driven :: bool
  irq_trace :: bool

record 'd uart_dev =
  regs :: usart_regs
  trace :: wch_irq_port_trace \<comment> \<open>the port's record in \<^verbatim>\<open>wch_uart_irq_trace\<close>\<close>
  irq_cb :: "u32 option"
  irq_user_data :: u32
  tx :: wch_uart_tx
  rx :: wch_uart_rx
  dma :: 'd
  uptime_ticks :: int
  irq_connected :: bool \<comment> \<open>\<^verbatim>\<open>irq_config_func\<close> has run\<close>

text \<open>What calling the application's callback does: any state transformer, since the callback may
  call back into the driver and interrupts may be served while it runs.\<close>

type_synonym 'd uart_app = "u32 \<Rightarrow> uart_event \<Rightarrow> u32 \<Rightarrow> 'd uart_dev \<Rightarrow> 'd uart_dev"

section \<open>Register and field access\<close>

definition upd_regs :: "(usart_regs \<Rightarrow> usart_regs) \<Rightarrow> 'd uart_dev \<Rightarrow> 'd uart_dev" where
  "upd_regs f s = s\<lparr>regs := f (regs s)\<rparr>"

definition upd_tx :: "(wch_uart_tx \<Rightarrow> wch_uart_tx) \<Rightarrow> 'd uart_dev \<Rightarrow> 'd uart_dev" where
  "upd_tx f s = s\<lparr>tx := f (tx s)\<rparr>"

definition upd_rx :: "(wch_uart_rx \<Rightarrow> wch_uart_rx) \<Rightarrow> 'd uart_dev \<Rightarrow> 'd uart_dev" where
  "upd_rx f s = s\<lparr>rx := f (rx s)\<rparr>"

text \<open>A write to STATR clears the bits written as zero and cannot set any (W0C).\<close>

definition write_STATR :: "u16 \<Rightarrow> 'd uart_dev \<Rightarrow> 'd uart_dev" where
  "write_STATR v = upd_regs (\<lambda>r. r\<lparr>STATR := STATR r AND v\<rparr>)"

text \<open>\<^verbatim>\<open>&config->regs->DATAR\<close>: DATAR is at offset 4 of the register block.\<close>

definition DATAR_addr :: "usart_wch_config \<Rightarrow> u32" where
  "DATAR_addr C = regs_addr C + 4"

text \<open>Designated initialisers zero the fields they do not name.\<close>

definition zero_block :: dma_block_config where
  "zero_block = \<lparr>source_address = 0, dest_address = 0, block_size = 0, next_block = False,
     source_gather_en = False, dest_scatter_en = False, source_addr_adj = DMA_ADDR_ADJ_INCREMENT,
     dest_addr_adj = DMA_ADDR_ADJ_INCREMENT, source_reload_en = False, dest_reload_en = False,
     fifo_mode_control = 0, flow_control_mode = False\<rparr>"

definition zero_dma_config :: dma_config where
  "zero_dma_config = \<lparr>dma_slot = 0, channel_direction = MEMORY_TO_MEMORY,
     half_complete_callback_en = False, cfg_error_callback_dis = False, source_handshake = False,
     dest_handshake = False, channel_priority = 0, source_chaining_en = False,
     dest_chaining_en = False, cyclic = False, source_data_size = 0, dest_data_size = 0,
     source_burst_length = 0, dest_burst_length = 0, block_count = 0, head_block = None,
     cfg_user_data = 0, dma_callback = None\<rparr>"

definition zero_note :: wch_uart_tx_notification where
  "zero_note = \<lparr>note_callback = None, note_user_data = 0, note_event = UART_TX_DONE 0 0\<rparr>"

section \<open>Lemmas\<close>

lemma upd_regs_sel [simp]:
  "regs (upd_regs f s) = f (regs s)" "tx (upd_regs f s) = tx s" "rx (upd_regs f s) = rx s"
  "dma (upd_regs f s) = dma s" "uptime_ticks (upd_regs f s) = uptime_ticks s"
  "irq_cb (upd_regs f s) = irq_cb s" "irq_user_data (upd_regs f s) = irq_user_data s"
  by (simp_all add: upd_regs_def)

lemma upd_tx_sel [simp]:
  "regs (upd_tx f s) = regs s" "tx (upd_tx f s) = f (tx s)" "rx (upd_tx f s) = rx s"
  "dma (upd_tx f s) = dma s" "uptime_ticks (upd_tx f s) = uptime_ticks s"
  "irq_cb (upd_tx f s) = irq_cb s" "irq_user_data (upd_tx f s) = irq_user_data s"
  by (simp_all add: upd_tx_def)

lemma upd_rx_sel [simp]:
  "regs (upd_rx f s) = regs s" "tx (upd_rx f s) = tx s" "rx (upd_rx f s) = f (rx s)"
  "dma (upd_rx f s) = dma s" "uptime_ticks (upd_rx f s) = uptime_ticks s"
  "irq_cb (upd_rx f s) = irq_cb s" "irq_user_data (upd_rx f s) = irq_user_data s"
  by (simp_all add: upd_rx_def)

lemma write_STATR_sel [simp]:
  "regs (write_STATR v s) = (regs s)\<lparr>STATR := STATR (regs s) AND v\<rparr>"
  "tx (write_STATR v s) = tx s" "rx (write_STATR v s) = rx s" "dma (write_STATR v s) = dma s"
  "uptime_ticks (write_STATR v s) = uptime_ticks s"
  by (simp_all add: write_STATR_def)

end
