(* ===== verification/Uart_Rx.thy ===== *)
theory Uart_Rx
  imports Uart_Dev
begin

text \<open>
  \<^verbatim>\<open>drivers/serial/uart_wch_rx_impl.h\<close>: asynchronous reception.  A function that holds the
  port lock from start to end is one definition.  A function that ends with
  \<^verbatim>\<open>usart_wch_rx_dispatch\<close> is split at the unlock: the \<open>..._locked\<close> definition is the critical
  section, the definition with the source's name composes it with the dispatch loop.
\<close>

unbundle bit_operations_syntax

section \<open>The event ring\<close>

definition RX_NOTES :: nat where "RX_NOTES = 12"

definition usart_wch_rx_queue :: "uart_event \<Rightarrow> wch_uart_rx \<Rightarrow> wch_uart_rx" where
  "usart_wch_rx_queue event r =
     r\<lparr>rx_notes := (rx_notes r)[(unat (rx_head r) + unat (rx_count r)) mod RX_NOTES :=
                \<lparr>rx_event = event, note_generation = generation r\<rparr>],
       rx_count := rx_count r + 1\<rparr>"

text \<open>Taking the head off the ring.\<close>

definition rx_ring_pop :: "wch_uart_rx \<Rightarrow> wch_uart_rx" where
  "rx_ring_pop r =
     r\<lparr>rx_head := of_nat ((unat (rx_head r) + 1) mod RX_NOTES), rx_count := rx_count r - 1\<rparr>"

text \<open>One round of the dispatch loop under the lock, for a nonempty ring: pop the head; a
  suppressed request (\<^verbatim>\<open>continue\<close>) delivers nothing.\<close>

definition rx_dispatch_pop :: "'d uart_dev \<Rightarrow> uart_event option \<times> 'd uart_dev" where
  "rx_dispatch_pop s =
     (let r = rx s;
          note = rx_notes r ! unat (rx_head r);
          r1 = rx_ring_pop r
      in if rx_event note = UART_RX_BUF_REQUEST
         then if rx_phase r1 \<noteq> WCH_RX_ACTIVE \<or> note_generation note \<noteq> generation r1
              then (None, s\<lparr>rx := r1\<rparr>)
              else (Some (rx_event note), s\<lparr>rx := r1\<lparr>request_open := True\<rparr>\<rparr>)
         else if rx_event note = UART_RX_DISABLED
         then (Some (rx_event note), s\<lparr>rx := r1\<lparr>rx_phase := WCH_RX_IDLE\<rparr>\<rparr>)
         else (Some (rx_event note), s\<lparr>rx := r1\<rparr>))"

text \<open>The loop runs until the ring is empty when it looks; the callback may queue more, so it takes
  fuel and returns \<open>None\<close> when the fuel is used up.\<close>

fun rx_dispatch_loop :: "nat \<Rightarrow> 'd uart_app \<Rightarrow> 'd uart_dev \<Rightarrow> 'd uart_dev option" where
  "rx_dispatch_loop 0 app s = None"
| "rx_dispatch_loop (Suc fuel) app s =
     (if rx_count (rx s) = 0 then Some s
      else case rx_dispatch_pop s of
        (None, s1) \<Rightarrow> rx_dispatch_loop fuel app s1
      | (Some ev, s1) \<Rightarrow>
          rx_dispatch_loop fuel app
            (case tx_callback (tx s) of None \<Rightarrow> s1
             | Some cb \<Rightarrow> app cb ev (tx_user_data (tx s)) s1))"

definition usart_wch_rx_dispatch :: "nat \<Rightarrow> 'd uart_app \<Rightarrow> 'd uart_dev \<Rightarrow> 'd uart_dev option" where
  "usart_wch_rx_dispatch fuel app s =
     (if dispatching (rx s) then Some s
      else map_option (upd_rx (\<lambda>r. r\<lparr>dispatching := False\<rparr>))
             (rx_dispatch_loop fuel app (upd_rx (\<lambda>r. r\<lparr>dispatching := True\<rparr>) s)))"

section \<open>Helpers under the lock\<close>

definition usart_wch_rx_errors :: "uart_ext \<Rightarrow> u16 \<Rightarrow> u32" where
  "usart_wch_rx_errors X flags =
     (if has flags USART_STATR_PE then ERROR_PARITY X else 0) OR
     (if has flags USART_STATR_FE then ERROR_FRAMING X else 0) OR
     (if has flags USART_STATR_NE then ERROR_NOISE X else 0) OR
     (if has flags USART_STATR_ORE then ERROR_OVERRUN X else 0)"

definition usart_wch_rx_clear :: "uart_ext \<Rightarrow> 'd uart_dev \<Rightarrow> 'd uart_dev" where
  "usart_wch_rx_clear X s =
     upd_regs (\<lambda>r. r\<lparr>CTLR1 := CTLR1 r OR USART_CTLR1_RE\<rparr>)
    (upd_regs (\<lambda>r. r\<lparr>STATR := datar_read X (STATR r)\<rparr>)
    (upd_regs (\<lambda>r. r\<lparr>CTLR1 := CTLR1 r AND NOT USART_CTLR1_RE\<rparr>) s))"

definition usart_wch_rx_gate ::
  "'d dma_driver_api \<Rightarrow> usart_wch_config \<Rightarrow> 'd uart_dev \<Rightarrow> 'd uart_dev" where
  "usart_wch_rx_gate A C s =
     (let s1 = upd_regs (\<lambda>r. r\<lparr>CTLR3 := CTLR3 r AND NOT (USART_CTLR3_DMAR OR USART_CTLR3_EIE),
                              CTLR1 := CTLR1 r AND NOT USART_CTLR1_PEIE\<rparr>) s
      in s1\<lparr>dma := snd (api_stop A (dma_rx_channel C) (dma s1))\<rparr>)"

text \<open>The byte count and the updated stop reason.\<close>

definition usart_wch_rx_count ::
  "uart_ext \<Rightarrow> 'd dma_driver_api \<Rightarrow> usart_wch_config \<Rightarrow> 'd uart_dev \<Rightarrow> u32 \<Rightarrow> u32 \<times> u32" where
  "usart_wch_rx_count X A C s reason =
     (case api_get_status A (dma_rx_channel C) True (dma s) of
        Inl e \<Rightarrow> (0, reason OR ERROR_OVERRUN X)
      | Inr st \<Rightarrow> if pending_length st > rx_length (rx s) then (0, reason OR ERROR_OVERRUN X)
                  else (rx_length (rx s) - pending_length st, reason))"

definition usart_wch_rx_ready :: "u32 \<Rightarrow> wch_uart_rx \<Rightarrow> wch_uart_rx" where
  "usart_wch_rx_ready cnt r =
     (if cnt \<noteq> 0 then usart_wch_rx_queue (UART_RX_RDY (rx_buffer r) 0 cnt) r else r)"

definition usart_wch_rx_release :: "u32 \<Rightarrow> wch_uart_rx \<Rightarrow> wch_uart_rx" where
  "usart_wch_rx_release buffer r = usart_wch_rx_queue (UART_RX_BUF_RELEASED buffer) r"

text \<open>\<open>rx_finish_data\<close> is the part of \<^verbatim>\<open>usart_wch_rx_finish\<close> before the flags are cleared.\<close>

definition rx_finish_data :: "u32 \<Rightarrow> u32 \<Rightarrow> wch_uart_rx \<Rightarrow> wch_uart_rx" where
  "rx_finish_data cnt reason r =
     (let r1 = (if reason \<noteq> 0
                then usart_wch_rx_queue (UART_RX_STOPPED reason (rx_buffer r) 0 cnt) r else r);
          r2 = usart_wch_rx_ready cnt r1;
          r3 = usart_wch_rx_release (rx_buffer r2) r2;
          r4 = (if rx_next r3 \<noteq> 0 then usart_wch_rx_release (rx_next r3) r3 else r3)
      in r4\<lparr>rx_buffer := 0, rx_next := 0, rx_length := 0, rx_next_length := 0,
            request_open := False, rx_phase := WCH_RX_STOPPING\<rparr>)"

definition usart_wch_rx_finish ::
  "uart_ext \<Rightarrow> u32 \<Rightarrow> u32 \<Rightarrow> 'd uart_dev \<Rightarrow> 'd uart_dev" where
  "usart_wch_rx_finish X cnt reason s =
     upd_rx (usart_wch_rx_queue UART_RX_DISABLED)
       (usart_wch_rx_clear X (upd_rx (rx_finish_data cnt reason) s))"

text \<open>The DMA descriptor for the current buffer, and starting reception into it.\<close>

definition rx_dma_block :: "usart_wch_config \<Rightarrow> wch_uart_rx \<Rightarrow> dma_block_config" where
  "rx_dma_block C r = zero_block\<lparr>source_address := DATAR_addr C, dest_address := rx_buffer r,
     block_size := rx_length r, source_addr_adj := DMA_ADDR_ADJ_NO_CHANGE,
     dest_addr_adj := DMA_ADDR_ADJ_INCREMENT\<rparr>"

definition rx_dma_request :: "usart_wch_config \<Rightarrow> wch_uart_rx \<Rightarrow> dma_config" where
  "rx_dma_request C r = zero_dma_config\<lparr>channel_direction := PERIPHERAL_TO_MEMORY,
     source_data_size := 1, dest_data_size := 1, block_count := 1,
     head_block := Some (rx_dma_block C r), cfg_user_data := dev_ptr C,
     dma_callback := Some Usart_wch_rx_dma_callback\<rparr>"

definition usart_wch_rx_start ::
  "'d dma_driver_api \<Rightarrow> usart_wch_config \<Rightarrow> 'd uart_dev \<Rightarrow> unit res \<times> 'd uart_dev" where
  "usart_wch_rx_start A C s =
     (let blk = rx_dma_block C (rx s);
          cfg = rx_dma_request C (rx s);
          s1 = upd_rx (\<lambda>r. r\<lparr>rx_block := blk, rx_dma := cfg\<rparr>) s;
          (r1, d1) = api_config A (dma_rx_channel C) (Some cfg) (dma s1);
          (r2, d2) = (if r1 = Ok then api_start A (dma_rx_channel C) d1 else (r1, d1));
          s2 = s1\<lparr>dma := d2\<rparr>
      in if r2 \<noteq> Ok then (r2, usart_wch_rx_gate A C s2)
         else (Ok,
           upd_rx (usart_wch_rx_queue UART_RX_BUF_REQUEST)
          (upd_regs (\<lambda>r. r\<lparr>CTLR1 := CTLR1 r OR USART_CTLR1_PEIE,
                           CTLR3 := CTLR3 r OR (USART_CTLR3_EIE OR USART_CTLR3_DMAR)\<rparr>)
          (upd_rx (\<lambda>r. r\<lparr>generation := generation r + 1, request_open := False,
                         rx_phase := WCH_RX_ACTIVE\<rparr>) s2))))"

section \<open>DMA callback and interrupt\<close>

text \<open>The handoff to the next buffer at completion.\<close>

definition rx_handoff :: "wch_uart_rx \<Rightarrow> wch_uart_rx" where
  "rx_handoff r =
     (let r1 = usart_wch_rx_release (rx_buffer r) (usart_wch_rx_ready (rx_length r) r)
      in r1\<lparr>rx_buffer := rx_next r1, rx_length := rx_next_length r1, rx_next := 0,
            rx_next_length := 0\<rparr>)"

definition usart_wch_rx_dma_callback_locked ::
  "uart_ext \<Rightarrow> 'd dma_driver_api \<Rightarrow> usart_wch_config \<Rightarrow> u32 \<Rightarrow> nat \<Rightarrow> dma_cb_status \<Rightarrow>
   'd uart_dev \<Rightarrow> 'd uart_dev" where
  "usart_wch_rx_dma_callback_locked X A C dma_ptr channel status s =
     (if dma_ptr \<noteq> dma_rx_dev C \<or> channel \<noteq> dma_rx_channel C \<or> rx_phase (rx s) \<noteq> WCH_RX_ACTIVE \<or>
         (\<not> status_neg status \<and> status \<noteq> DMA_STATUS_COMPLETE) then s
      else let s1 = usart_wch_rx_gate A C s;
               reason0 = usart_wch_rx_errors X (STATR (regs s1));
               reason = (if status_neg status then reason0 OR ERROR_OVERRUN X else reason0)
           in if reason \<noteq> 0
              then let (cnt, reason') = usart_wch_rx_count X A C s1 reason
                   in usart_wch_rx_finish X cnt reason' s1
              else if rx_next (rx s1) = 0 then usart_wch_rx_finish X (rx_length (rx s1)) 0 s1
              else case usart_wch_rx_start A C (upd_rx rx_handoff s1) of
                     (Inr _, s2) \<Rightarrow> s2
                   | (Inl _, s2) \<Rightarrow> usart_wch_rx_finish X 0 (ERROR_OVERRUN X) s2)"

definition usart_wch_rx_dma_callback ::
  "uart_ext \<Rightarrow> 'd dma_driver_api \<Rightarrow> usart_wch_config \<Rightarrow> nat \<Rightarrow> 'd uart_app \<Rightarrow> u32 \<Rightarrow> nat \<Rightarrow>
   dma_cb_status \<Rightarrow> 'd uart_dev \<Rightarrow> 'd uart_dev option" where
  "usart_wch_rx_dma_callback X A C fuel app dma_ptr channel status s =
     usart_wch_rx_dispatch fuel app (usart_wch_rx_dma_callback_locked X A C dma_ptr channel status s)"

definition usart_wch_rx_isr_locked ::
  "uart_ext \<Rightarrow> 'd dma_driver_api \<Rightarrow> usart_wch_config \<Rightarrow> 'd uart_dev \<Rightarrow> 'd uart_dev" where
  "usart_wch_rx_isr_locked X A C s =
     (let reason = usart_wch_rx_errors X (STATR (regs s))
      in if rx_phase (rx s) = WCH_RX_ACTIVE \<and> reason \<noteq> 0
         then let s1 = usart_wch_rx_gate A C s;
                  (cnt, reason') = usart_wch_rx_count X A C s1 reason
              in usart_wch_rx_finish X cnt reason' s1
         else s)"

section \<open>API calls\<close>

definition usart_wch_rx_enable_locked ::
  "uart_ext \<Rightarrow> 'd dma_driver_api \<Rightarrow> usart_wch_config \<Rightarrow> u32 \<Rightarrow> u32 \<Rightarrow> 'd uart_dev \<Rightarrow>
   unit res \<times> 'd uart_dev" where
  "usart_wch_rx_enable_locked X A C buffer len s =
     (if rx_phase (rx s) \<noteq> WCH_RX_IDLE then (Err EBUSY, s)
      else if \<not> reserved (tx s) \<or> tx_callback (tx s) = None then (Err EACCES, s)
      else let s1 = upd_rx (\<lambda>r. r\<lparr>rx_buffer := buffer, rx_length := len\<rparr>)
                      (usart_wch_rx_clear X (usart_wch_rx_gate A C s));
               (ret, s2) = usart_wch_rx_start A C s1
           in if ret \<noteq> Ok then (ret, upd_rx (\<lambda>r. r\<lparr>rx_buffer := 0, rx_length := 0\<rparr>) s2)
              else (ret, s2))"

definition usart_wch_rx_enable ::
  "uart_ext \<Rightarrow> 'd dma_driver_api \<Rightarrow> usart_wch_config \<Rightarrow> nat \<Rightarrow> 'd uart_app \<Rightarrow> u32 \<Rightarrow> u32 \<Rightarrow> int \<Rightarrow>
   'd uart_dev \<Rightarrow> unit res \<times> 'd uart_dev option" where
  "usart_wch_rx_enable X A C fuel app buffer len timeout s =
     (case wch_uart_dma_buffer_check buffer len of
        Inl e \<Rightarrow> (Err e, Some s)
      | Inr _ \<Rightarrow>
        if timeout < SYS_FOREVER_US then (Err EINVAL, Some s)
        else if timeout \<noteq> SYS_FOREVER_US then (Err ENOTSUP, Some s)
        else let (ret, s1) = usart_wch_rx_enable_locked X A C buffer len s
             in (ret, usart_wch_rx_dispatch fuel app s1))"

definition usart_wch_rx_buf_rsp :: "u32 \<Rightarrow> u32 \<Rightarrow> 'd uart_dev \<Rightarrow> unit res \<times> 'd uart_dev" where
  "usart_wch_rx_buf_rsp buffer len s =
     (case wch_uart_dma_buffer_check buffer len of
        Inl e \<Rightarrow> (Err e, s)
      | Inr _ \<Rightarrow>
        if rx_phase (rx s) \<noteq> WCH_RX_ACTIVE then (Err EACCES, s)
        else if rx_next (rx s) \<noteq> 0 \<or> \<not> request_open (rx s) then (Err EBUSY, s)
        else if (if buffer \<le> rx_buffer (rx s) then rx_buffer (rx s) - buffer < len
                 else buffer - rx_buffer (rx s) < rx_length (rx s)) then (Err EINVAL, s)
        else (Ok, upd_rx (\<lambda>r. r\<lparr>rx_next := buffer, rx_next_length := len, request_open := False\<rparr>) s))"

definition usart_wch_rx_disable_locked ::
  "uart_ext \<Rightarrow> 'd dma_driver_api \<Rightarrow> usart_wch_config \<Rightarrow> 'd uart_dev \<Rightarrow> unit res \<times> 'd uart_dev" where
  "usart_wch_rx_disable_locked X A C s =
     (if rx_phase (rx s) \<noteq> WCH_RX_ACTIVE then (Err EFAULT, s)
      else let s1 = usart_wch_rx_gate A C s;
               reason = usart_wch_rx_errors X (STATR (regs s1));
               (cnt, reason') = usart_wch_rx_count X A C s1 reason
           in (Ok, usart_wch_rx_finish X cnt reason' s1))"

definition usart_wch_rx_disable ::
  "uart_ext \<Rightarrow> 'd dma_driver_api \<Rightarrow> usart_wch_config \<Rightarrow> nat \<Rightarrow> 'd uart_app \<Rightarrow> 'd uart_dev \<Rightarrow>
   unit res \<times> 'd uart_dev option" where
  "usart_wch_rx_disable X A C fuel app s =
     (case usart_wch_rx_disable_locked X A C s of
        (Inl e, s1) \<Rightarrow> (Err e, Some s1)
      | (Inr _, s1) \<Rightarrow> (Ok, usart_wch_rx_dispatch fuel app s1))"

end
