(* ===== verification/Uart_Tx.thy ===== *)
theory Uart_Tx
  imports Uart_Rx
begin

text \<open>
  \<^verbatim>\<open>drivers/serial/uart_wch_tx_impl.h\<close>: asynchronous transmission, and the interrupt
  handler shared with reception.  As in \<open>Uart_Rx\<close>, \<open>..._locked\<close> is the critical section
  of a function and the definition with the source's name adds what follows the unlock: the
  application's callback.
\<close>

unbundle bit_operations_syntax

datatype tx_event_type = TYPE_TX_DONE | TYPE_TX_ABORTED

section \<open>Finishing a transfer\<close>

definition usart_wch_tx_notify ::
  "'d uart_app \<Rightarrow> wch_uart_tx_notification \<Rightarrow> 'd uart_dev \<Rightarrow> 'd uart_dev" where
  "usart_wch_tx_notify app note s =
     (case note_callback note of None \<Rightarrow> s
      | Some cb \<Rightarrow> app cb (note_event note) (note_user_data note) s)"

text \<open>\<^verbatim>\<open>CTLR3 &= ~DMAT; CTLR1 &= ~TCIE\<close>, at two places of the source.\<close>

definition tx_gate_regs :: "'d uart_dev \<Rightarrow> 'd uart_dev" where
  "tx_gate_regs = upd_regs (\<lambda>r. r\<lparr>CTLR3 := CTLR3 r AND NOT USART_CTLR3_DMAT,
                                CTLR1 := CTLR1 r AND NOT USART_CTLR1_TCIE\<rparr>)"

definition tx_stop_dma ::
  "'d dma_driver_api \<Rightarrow> usart_wch_config \<Rightarrow> 'd uart_dev \<Rightarrow> 'd uart_dev" where
  "tx_stop_dma A C s = s\<lparr>dma := snd (api_stop A (dma_tx_channel C) (dma s))\<rparr>"

text \<open>The byte count of the event and the flag \<^verbatim>\<open>no_progress\<close>, once DMA is stopped.\<close>

definition tx_finish_count ::
  "'d dma_driver_api \<Rightarrow> usart_wch_config \<Rightarrow> tx_event_type \<Rightarrow> 'd uart_dev \<Rightarrow> u32 \<times> bool" where
  "tx_finish_count A C type s =
     (let cnt = (if tx_phase (tx s) = WCH_TX_WAIT_TC then tx_length (tx s) else 0)
      in if type = TYPE_TX_DONE then (tx_length (tx s), False)
         else case api_get_status A (dma_tx_channel C) True (dma s) of
             Inl e \<Rightarrow> (cnt, False)
           | Inr st \<Rightarrow>
               if pending_length st \<le> tx_length (tx s)
               then (tx_length (tx s) - pending_length st,
                     tx_length (tx s) - pending_length st = 0)
               else (cnt, False))"

definition usart_wch_tx_finish_locked ::
  "'d dma_driver_api \<Rightarrow> usart_wch_config \<Rightarrow> tx_event_type \<Rightarrow> 'd uart_dev \<Rightarrow>
   wch_uart_tx_notification \<times> 'd uart_dev" where
  "usart_wch_tx_finish_locked A C type s =
     (let s1 = tx_stop_dma A C (tx_gate_regs s);
          (cnt, no_progress) = tx_finish_count A C type s1;
          t = tx s1
      in (\<lparr>note_callback = tx_callback t, note_user_data = tx_user_data t,
           note_event = (case type of TYPE_TX_DONE \<Rightarrow> UART_TX_DONE (tx_buffer t) cnt
                         | TYPE_TX_ABORTED \<Rightarrow> UART_TX_ABORTED (tx_buffer t) cnt)\<rparr>,
          upd_tx (\<lambda>t. t\<lparr>deadline := 0,
                        needs_tc := (type \<noteq> TYPE_TX_DONE \<and> \<not> no_progress \<and>
                                     \<not> has (STATR (regs s1)) USART_STATR_TC),
                        tx_buffer := 0, tx_length := 0, tx_phase := WCH_TX_IDLE\<rparr>) s1))"

section \<open>Completion, interrupt, timeout\<close>

text \<open>\<open>zero_note\<close> is \<^verbatim>\<open>note = {0}\<close>: no callback, nothing to deliver.\<close>

definition usart_wch_tx_dma_callback_locked ::
  "'d dma_driver_api \<Rightarrow> usart_wch_config \<Rightarrow> u32 \<Rightarrow> nat \<Rightarrow> dma_cb_status \<Rightarrow> 'd uart_dev \<Rightarrow>
   wch_uart_tx_notification \<times> 'd uart_dev" where
  "usart_wch_tx_dma_callback_locked A C dma_ptr channel status s =
     (if dma_ptr \<noteq> dma_tx_dev C \<or> channel \<noteq> dma_tx_channel C \<or> tx_phase (tx s) \<noteq> WCH_TX_DMA
      then (zero_note, s)
      else if status_neg status then usart_wch_tx_finish_locked A C TYPE_TX_ABORTED s
      else if status = DMA_STATUS_COMPLETE
      then let s1 = upd_tx (\<lambda>t. t\<lparr>tx_phase := WCH_TX_WAIT_TC\<rparr>)
                      (upd_regs (\<lambda>r. r\<lparr>CTLR3 := CTLR3 r AND NOT USART_CTLR3_DMAT\<rparr>) s)
           in if has (STATR (regs s1)) USART_STATR_TC
              then usart_wch_tx_finish_locked A C TYPE_TX_DONE s1
              else (zero_note, upd_regs (\<lambda>r. r\<lparr>CTLR1 := CTLR1 r OR USART_CTLR1_TCIE\<rparr>) s1)
      else (zero_note, s))"

definition usart_wch_tx_dma_callback ::
  "'d dma_driver_api \<Rightarrow> usart_wch_config \<Rightarrow> 'd uart_app \<Rightarrow> u32 \<Rightarrow> nat \<Rightarrow> dma_cb_status \<Rightarrow>
   'd uart_dev \<Rightarrow> 'd uart_dev" where
  "usart_wch_tx_dma_callback A C app dma_ptr channel status s =
     (let (note, s1) = usart_wch_tx_dma_callback_locked A C dma_ptr channel status s
      in usart_wch_tx_notify app note s1)"

definition usart_wch_isr_locked ::
  "uart_ext \<Rightarrow> 'd dma_driver_api \<Rightarrow> usart_wch_config \<Rightarrow> 'd uart_dev \<Rightarrow>
   wch_uart_tx_notification \<times> 'd uart_dev" where
  "usart_wch_isr_locked X A C s =
     (let s1 = (if async_rx C then usart_wch_rx_isr_locked X A C s else s)
      in if tx_phase (tx s1) = WCH_TX_WAIT_TC \<and> has (CTLR1 (regs s1)) USART_CTLR1_TCIE \<and>
            has (STATR (regs s1)) USART_STATR_TC
         then usart_wch_tx_finish_locked A C TYPE_TX_DONE s1 else (zero_note, s1))"

definition usart_wch_isr ::
  "uart_ext \<Rightarrow> 'd dma_driver_api \<Rightarrow> usart_wch_config \<Rightarrow> nat \<Rightarrow> 'd uart_app \<Rightarrow> 'd uart_dev \<Rightarrow>
   'd uart_dev option" where
  "usart_wch_isr X A C fuel app s =
     (let (note, s1) = usart_wch_isr_locked X A C s;
          s2 = usart_wch_tx_notify app note s1
      in if async_rx C then usart_wch_rx_dispatch fuel app s2 else Some s2)"

text \<open>\<open>arm\<close> is \<^verbatim>\<open>k_work_reschedule(&tx->timeout_work, K_TICKS(delay))\<close>: its return value, and
  the work item armed unless that is negative.\<close>

definition arm_timeout :: "uart_ext \<Rightarrow> int \<Rightarrow> 'd uart_dev \<Rightarrow> int \<times> 'd uart_dev" where
  "arm_timeout X delay s =
     (let ret = work_reschedule X delay
      in (ret, if ret < 0 then s else upd_tx (\<lambda>t. t\<lparr>timeout_work := Some delay\<rparr>) s))"

definition usart_wch_tx_timeout_locked ::
  "uart_ext \<Rightarrow> 'd dma_driver_api \<Rightarrow> usart_wch_config \<Rightarrow> 'd uart_dev \<Rightarrow>
   wch_uart_tx_notification \<times> 'd uart_dev" where
  "usart_wch_tx_timeout_locked X A C s =
     (if tx_phase (tx s) \<noteq> WCH_TX_IDLE \<and> deadline (tx s) \<noteq> 0
      then let remaining = deadline (tx s) - uptime_ticks s
           in if remaining > 0 then (zero_note, snd (arm_timeout X remaining s))
              else usart_wch_tx_finish_locked A C TYPE_TX_ABORTED s
      else (zero_note, s))"

definition usart_wch_tx_timeout ::
  "uart_ext \<Rightarrow> 'd dma_driver_api \<Rightarrow> usart_wch_config \<Rightarrow> 'd uart_app \<Rightarrow> 'd uart_dev \<Rightarrow> 'd uart_dev" where
  "usart_wch_tx_timeout X A C app s =
     (let (note, s1) = usart_wch_tx_timeout_locked X A C s in usart_wch_tx_notify app note s1)"

section \<open>Initialisation\<close>

text \<open>Zephyr's channel allocator is a parameter: \<open>request d ch\<close> is
  \<^verbatim>\<open>dma_request_channel(d, &ch)\<close> with the index it returns, \<open>release d ch\<close> is
  \<^verbatim>\<open>dma_release_channel(d, ch)\<close>; both take the device pointer.\<close>

record 'd dma_alloc =
  request :: "u32 \<Rightarrow> nat \<Rightarrow> 'd \<Rightarrow> int \<times> 'd"
  release :: "u32 \<Rightarrow> int \<Rightarrow> 'd \<Rightarrow> 'd"

definition usart_wch_tx_init ::
  "'d dma_alloc \<Rightarrow> usart_wch_config \<Rightarrow> 'd uart_dev \<Rightarrow> unit res \<times> 'd uart_dev" where
  "usart_wch_tx_init R C s =
     (let (c1, d1) = request R (dma_tx_dev C) (dma_tx_channel C) (dma s)
      in if c1 \<noteq> int (dma_tx_channel C)
         then (Err EBUSY, s\<lparr>dma := (if c1 \<ge> 0 then release R (dma_tx_dev C) c1 d1 else d1)\<rparr>)
         else let (c2, d2) = request R (dma_rx_dev C) (dma_rx_channel C) d1
              in if c2 \<noteq> int (dma_rx_channel C)
                 then let d3 = (if c2 \<ge> 0 then release R (dma_rx_dev C) c2 d2 else d2)
                      in (Err EBUSY,
                          s\<lparr>dma := release R (dma_tx_dev C) (int (dma_tx_channel C)) d3\<rparr>)
                 else (Ok, upd_tx (\<lambda>t. t\<lparr>tx_uart := dev_ptr C, reserved := True,
                                        timeout_work := None\<rparr>) (s\<lparr>dma := d2\<rparr>)))"

section \<open>API calls\<close>

definition usart_wch_async_callback_set ::
  "usart_wch_config \<Rightarrow> u32 option \<Rightarrow> u32 \<Rightarrow> 'd uart_dev \<Rightarrow> unit res \<times> 'd uart_dev" where
  "usart_wch_async_callback_set C callback user s =
     (if tx_phase (tx s) \<noteq> WCH_TX_IDLE \<or> (async_rx C \<and> rx_phase (rx s) \<noteq> WCH_RX_IDLE)
      then (Err EBUSY, s)
      else (Ok, upd_tx (\<lambda>t. t\<lparr>tx_callback := callback, tx_user_data := user\<rparr>) s))"

definition tx_dma_block :: "usart_wch_config \<Rightarrow> u32 \<Rightarrow> u32 \<Rightarrow> dma_block_config" where
  "tx_dma_block C buffer len = zero_block\<lparr>source_address := buffer, dest_address := DATAR_addr C,
     block_size := len, source_addr_adj := DMA_ADDR_ADJ_INCREMENT,
     dest_addr_adj := DMA_ADDR_ADJ_NO_CHANGE\<rparr>"

definition tx_dma_request :: "usart_wch_config \<Rightarrow> u32 \<Rightarrow> u32 \<Rightarrow> dma_config" where
  "tx_dma_request C buffer len = zero_dma_config\<lparr>channel_direction := MEMORY_TO_PERIPHERAL,
     source_data_size := 1, dest_data_size := 1, block_count := 1,
     head_block := Some (tx_dma_block C buffer len), cfg_user_data := dev_ptr C,
     dma_callback := Some Usart_wch_tx_dma_callback\<rparr>"

text \<open>The end of a successful \<^verbatim>\<open>usart_wch_tx\<close>: TC cleared, DMA requests enabled.\<close>

definition tx_go :: "'d uart_dev \<Rightarrow> 'd uart_dev" where
  "tx_go s = upd_regs (\<lambda>r. r\<lparr>CTLR3 := CTLR3 r OR USART_CTLR3_DMAT\<rparr>)
              (write_STATR (NOT USART_STATR_TC) (upd_tx (\<lambda>t. t\<lparr>needs_tc := False\<rparr>) s))"

text \<open>After DMA has started: borrow the buffer, arm the deadline, open the gate.\<close>

definition tx_launch ::
  "uart_ext \<Rightarrow> 'd dma_driver_api \<Rightarrow> usart_wch_config \<Rightarrow> u32 \<Rightarrow> u32 \<Rightarrow> int \<Rightarrow> 'd uart_dev \<Rightarrow>
   unit res \<times> 'd uart_dev" where
  "tx_launch X A C buffer len timeout s =
     (let s1 = upd_tx (\<lambda>t. t\<lparr>tx_buffer := buffer, tx_length := len, tx_phase := WCH_TX_DMA,
                             deadline := 0\<rparr>) s
      in if timeout \<noteq> SYS_FOREVER_US
         then let ticks = max 1 (us_to_ticks X timeout);
                  s2 = upd_tx (\<lambda>t. t\<lparr>deadline := uptime_ticks s1 + ticks\<rparr>) s1;
                  (ret, s3) = arm_timeout X ticks s2
              in if ret < 0
                 then (Err (ERet ret),
                       upd_tx (\<lambda>t. t\<lparr>tx_phase := WCH_TX_IDLE, tx_buffer := 0, tx_length := 0,
                                     deadline := 0\<rparr>) (tx_stop_dma A C s3))
                 else (Ok, tx_go s3)
         else (Ok, tx_go s1))"

definition usart_wch_tx ::
  "uart_ext \<Rightarrow> 'd dma_driver_api \<Rightarrow> usart_wch_config \<Rightarrow> u32 \<Rightarrow> u32 \<Rightarrow> int \<Rightarrow> 'd uart_dev \<Rightarrow>
   unit res \<times> 'd uart_dev" where
  "usart_wch_tx X A C buffer len timeout s =
     (case wch_uart_dma_buffer_check buffer len of
        Inl e \<Rightarrow> (Err e, s)
      | Inr _ \<Rightarrow>
        if timeout < SYS_FOREVER_US then (Err EINVAL, s)
        else if tx_phase (tx s) \<noteq> WCH_TX_IDLE \<or>
                (needs_tc (tx s) \<and> \<not> has (STATR (regs s)) USART_STATR_TC) then (Err EBUSY, s)
        else if \<not> reserved (tx s) \<or> tx_callback (tx s) = None then (Err EACCES, s)
        else let s1 = tx_gate_regs
                        (upd_tx (\<lambda>t. t\<lparr>tx_block := tx_dma_block C buffer len,
                                       tx_dma := tx_dma_request C buffer len\<rparr>) s)
             in case api_config A (dma_tx_channel C) (Some (tx_dma_request C buffer len)) (dma s1) of
                  (Inl e, d) \<Rightarrow> (Err e, s1\<lparr>dma := d\<rparr>)
                | (Inr _, d) \<Rightarrow>
                  (case api_start A (dma_tx_channel C) d of
                     (Inl e, d') \<Rightarrow> (Err e, tx_stop_dma A C (s1\<lparr>dma := d'\<rparr>))
                   | (Inr _, d') \<Rightarrow> tx_launch X A C buffer len timeout (s1\<lparr>dma := d'\<rparr>)))"

definition usart_wch_tx_abort_locked ::
  "'d dma_driver_api \<Rightarrow> usart_wch_config \<Rightarrow> 'd uart_dev \<Rightarrow>
   unit res \<times> wch_uart_tx_notification \<times> 'd uart_dev" where
  "usart_wch_tx_abort_locked A C s =
     (if tx_phase (tx s) = WCH_TX_IDLE then (Err EFAULT, zero_note, s)
      else (Ok, usart_wch_tx_finish_locked A C TYPE_TX_ABORTED s))"

definition usart_wch_tx_abort ::
  "'d dma_driver_api \<Rightarrow> usart_wch_config \<Rightarrow> 'd uart_app \<Rightarrow> 'd uart_dev \<Rightarrow> unit res \<times> 'd uart_dev" where
  "usart_wch_tx_abort A C app s =
     (case usart_wch_tx_abort_locked A C s of
        (Inl e, _, s1) \<Rightarrow> (Err e, s1)
      | (Inr _, note, s1) \<Rightarrow> (Ok, usart_wch_tx_notify app note s1))"

text \<open>One round of the polling loop, and the loop: \<open>env i\<close> is what interrupts and the hardware do
  between the rounds, \<open>None\<close> is a loop still spinning when the fuel is used up.\<close>

definition tx_poll_out_try :: "u8 \<Rightarrow> 'd uart_dev \<Rightarrow> bool \<times> 'd uart_dev" where
  "tx_poll_out_try ch s =
     (if tx_phase (tx s) = WCH_TX_IDLE \<and> has (STATR (regs s)) USART_STATR_TXE
      then (True, upd_tx (\<lambda>t. t\<lparr>needs_tc := True\<rparr>) (upd_regs (\<lambda>r. r\<lparr>DATAR := ucast ch\<rparr>) s))
      else (False, s))"

fun usart_wch_tx_poll_out ::
  "nat \<Rightarrow> (nat \<Rightarrow> 'd uart_dev \<Rightarrow> 'd uart_dev) \<Rightarrow> u8 \<Rightarrow> 'd uart_dev \<Rightarrow> 'd uart_dev option" where
  "usart_wch_tx_poll_out 0 env ch s = None"
| "usart_wch_tx_poll_out (Suc fuel) env ch s =
     (case tx_poll_out_try ch s of (True, s1) \<Rightarrow> Some s1
      | (False, s1) \<Rightarrow> usart_wch_tx_poll_out fuel env ch (env fuel s1))"

text \<open>The receive slots of a build without asynchronous reception.\<close>

definition usart_wch_rx_unsupported :: "u32 \<Rightarrow> u32 \<Rightarrow> int \<Rightarrow> 'd uart_dev \<Rightarrow> unit res \<times> 'd uart_dev" where
  "usart_wch_rx_unsupported buf len timeout s = (Err ENOTSUP, s)"

definition usart_wch_rx_buf_unsupported :: "u32 \<Rightarrow> u32 \<Rightarrow> 'd uart_dev \<Rightarrow> unit res \<times> 'd uart_dev" where
  "usart_wch_rx_buf_unsupported buf len s = (Err ENOTSUP, s)"

definition usart_wch_rx_disable_unsupported :: "'d uart_dev \<Rightarrow> unit res \<times> 'd uart_dev" where
  "usart_wch_rx_disable_unsupported s = (Err ENOTSUP, s)"

end
