(* ===== verification/Uart_Usart.thy ===== *)
theory Uart_Usart
  imports Uart_Tx
begin

text \<open>
  \<^verbatim>\<open>drivers/serial/uart_wch_usart.c\<close>: initialisation, polling, error check and the
  interrupt-driven API.  The build options are fields of the configuration record; where the
  source has \<^verbatim>\<open>#ifdef\<close>, the definition tests the option.
\<close>

unbundle bit_operations_syntax

section \<open>Initialisation\<close>

text \<open>What initialisation gets from the kernel, the clock driver and the pin driver: readiness of
  the devices, the return values of \<^verbatim>\<open>clock_control_on\<close>, \<^verbatim>\<open>clock_control_get_rate\<close> (with
  the rate it stores) and \<^verbatim>\<open>pinctrl_apply_state\<close>.\<close>

record uart_init_env =
  clock_ready :: bool
  dma_tx_ready :: bool
  dma_rx_ready :: bool
  clock_on :: int
  clock_get_rate :: int
  clock_rate :: u32
  pinctrl_apply :: int

definition usart_init_trace :: "wch_trace_kconfig \<Rightarrow> usart_wch_config \<Rightarrow> wch_irq_port_trace \<Rightarrow> wch_irq_port_trace" where
  "usart_init_trace K C t =
     t\<lparr>t_regs := regs_addr C, t_baud := current_speed C,
       char_ticks := (HW_CYCLES_PER_SEC K div current_speed C) * 10\<rparr>"

definition usart_init_regs :: "u32 \<Rightarrow> usart_regs \<Rightarrow> usart_regs" where
  "usart_init_regs divn r =
     (r\<lparr>CTLR1 := 0, CTLR2 := 0, CTLR3 := 0, BRR := ucast divn\<rparr>)
       \<lparr>CTLR1 := USART_CTLR1_TE OR USART_CTLR1_RE OR USART_CTLR1_UE\<rparr>"

definition usart_wch_init ::
  "uart_ext \<Rightarrow> wch_trace_kconfig \<Rightarrow> uart_init_env \<Rightarrow> 'd dma_alloc \<Rightarrow> usart_wch_config \<Rightarrow>
   'd uart_dev \<Rightarrow> unit res \<times> 'd uart_dev" where
  "usart_wch_init X K E R C s =
     (if parity C \<noteq> UART_CFG_PARITY_NONE X \<or> stop_bits C \<noteq> UART_CFG_STOP_BITS_1 X \<or>
         data_bits C \<noteq> 8 \<or> hw_flow_control C then (Err ENOTSUP, s)
      else if \<not> clock_ready E then (Err ENODEV, s)
      else if dma_prepare C \<and> (\<not> dma_tx_ready E \<or> \<not> dma_rx_ready E) then (Err ENODEV, s)
      else if clock_on E \<noteq> 0 then (Err (ERet (clock_on E)), s)
      else if clock_get_rate E \<noteq> 0 then (Err (ERet (clock_get_rate E)), s)
      else case wch_uart_brr True (clock_rate E) (current_speed C) of
        Inl e \<Rightarrow> (Err e, s)
      | Inr divn \<Rightarrow>
        if pinctrl_apply E \<noteq> 0 then (Err (ERet (pinctrl_apply E)), s)
        else case (if async_tx C then usart_wch_tx_init R C s else (Ok, s)) of
          (Inl e, s1) \<Rightarrow> (Err e, s1)
        | (Inr _, s1) \<Rightarrow>
          let s2 = upd_regs (usart_init_regs divn) s1;
              s3 = (if irq_trace C then s2\<lparr>trace := usart_init_trace K C (trace s2)\<rparr> else s2)
          in (Ok, if interrupt_driven C \<or> async_tx C then s3\<lparr>irq_connected := True\<rparr> else s3))"

section \<open>Polling and errors\<close>

text \<open>Reading DATAR: the byte, and the effect of the read on the status register.\<close>

definition read_DATAR :: "uart_ext \<Rightarrow> 'd uart_dev \<Rightarrow> u8 \<times> 'd uart_dev" where
  "read_DATAR X s =
     (ucast (DATAR (regs s)), upd_regs (\<lambda>r. r\<lparr>STATR := datar_read X (STATR r)\<rparr>) s)"

definition usart_wch_poll_in ::
  "uart_ext \<Rightarrow> usart_wch_config \<Rightarrow> 'd uart_dev \<Rightarrow> u8 res \<times> 'd uart_dev" where
  "usart_wch_poll_in X C s =
     (if async_rx C \<and> rx_phase (rx s) \<noteq> WCH_RX_IDLE then (Err EBUSY, s)
      else if has (STATR (regs s)) USART_STATR_RXNE
      then let (b, s1) = read_DATAR X s in (Inr b, s1)
      else (Err (ERet (-1)), s))"

text \<open>The loop of the build without asynchronous transmission, with fuel and \<open>env\<close> as in
  \<open>usart_wch_tx_poll_out\<close>.\<close>

fun poll_out_wait ::
  "nat \<Rightarrow> (nat \<Rightarrow> 'd uart_dev \<Rightarrow> 'd uart_dev) \<Rightarrow> u8 \<Rightarrow> 'd uart_dev \<Rightarrow> 'd uart_dev option" where
  "poll_out_wait 0 env ch s = None"
| "poll_out_wait (Suc fuel) env ch s =
     (if has (STATR (regs s)) USART_STATR_TXE
      then Some (upd_regs (\<lambda>r. r\<lparr>DATAR := ucast ch\<rparr>) s)
      else poll_out_wait fuel env ch (env fuel s))"

definition usart_wch_poll_out ::
  "usart_wch_config \<Rightarrow> nat \<Rightarrow> (nat \<Rightarrow> 'd uart_dev \<Rightarrow> 'd uart_dev) \<Rightarrow> u8 \<Rightarrow> 'd uart_dev \<Rightarrow>
   'd uart_dev option" where
  "usart_wch_poll_out C fuel env ch s =
     (if async_tx C then usart_wch_tx_poll_out fuel env ch s else poll_out_wait fuel env ch s)"

definition usart_wch_err_check ::
  "uart_ext \<Rightarrow> wch_trace_kconfig \<Rightarrow> u32 \<Rightarrow> usart_wch_config \<Rightarrow> 'd uart_dev \<Rightarrow> u32 \<times> 'd uart_dev" where
  "usart_wch_err_check X K tick C s =
     (let statr = STATR (regs s);
          s1 = (if irq_trace C then s\<lparr>trace := wch_trace_status K tick (ucast statr) 3 (trace s)\<rparr> else s)
      in ((if has statr USART_STATR_PE then ERROR_PARITY X else 0) OR
          (if has statr USART_STATR_LBD then ERROR_BREAK X else 0) OR
          (if has statr USART_STATR_FE then ERROR_FRAMING X else 0) OR
          (if has statr USART_STATR_NE then ERROR_NOISE X else 0) OR
          (if has statr USART_STATR_ORE then ERROR_OVERRUN X else 0), s1))"

section \<open>The interrupt-driven API\<close>

text \<open>Register masks of the HAL that the repository does not spell out.\<close>

record usart_hal =
  CTLR1_TXEIE :: u16
  CTLR1_RXNEIE :: u16
  CTLR1_IDLEIE :: u16
  CTLR2_LBDIE :: u16
  CTLR3_CTSIE :: u16
  STATR_IDLE :: u16
  STATR_CTS :: u16

text \<open>The interrupt handler of this build; \<open>app cb user\<close> is the effect of the installed callback,
  and the two ticks are the counter at entry and exit.\<close>

definition usart_wch_isr_irq ::
  "wch_trace_kconfig \<Rightarrow> usart_wch_config \<Rightarrow> u32 \<Rightarrow> u32 \<Rightarrow> (u32 \<Rightarrow> u32 \<Rightarrow> 'd uart_dev \<Rightarrow> 'd uart_dev) \<Rightarrow>
   'd uart_dev \<Rightarrow> 'd uart_dev" where
  "usart_wch_isr_irq K C tick tick' app s =
     (let s1 = (if irq_trace C then s\<lparr>trace := wch_trace_enter K tick (trace s)\<rparr> else s);
          s2 = (case irq_cb s1 of None \<Rightarrow> s1 | Some cb \<Rightarrow> app cb (irq_user_data s1) s1)
      in if irq_trace C then s2\<lparr>trace := wch_trace_exit K tick' (trace s2)\<rparr> else s2)"

text \<open>\<open>first\<close> is \<^verbatim>\<open>tx_data[0]\<close>.\<close>

definition usart_wch_fifo_fill ::
  "usart_wch_config \<Rightarrow> u8 \<Rightarrow> int \<Rightarrow> 'd uart_dev \<Rightarrow> int \<times> 'd uart_dev" where
  "usart_wch_fifo_fill C first len s =
     (if len = 0 \<or> \<not> has (STATR (regs s)) USART_STATR_TXE then (0, s)
      else let s1 = upd_regs (\<lambda>r. r\<lparr>DATAR := ucast first\<rparr>) s
           in (1, if irq_trace C
                  then s1\<lparr>trace := (trace s1)\<lparr>tx_bytes := tx_bytes (trace s1) + 1\<rparr>\<rparr> else s1))"

text \<open>The trace update after a byte was read.\<close>

definition fifo_read_trace ::
  "wch_trace_kconfig \<Rightarrow> u32 \<Rightarrow> u32 \<Rightarrow> u32 \<Rightarrow> wch_irq_port_trace \<Rightarrow> wch_irq_port_trace" where
  "fifo_read_trace K tick tick' status t =
     (let t1 = t\<lparr>rx_bytes := rx_bytes t + 1\<rparr>;
          t2 = (if entry_tick t1 \<noteq> UINT32_MAX
                then let service = wch_trace_delta K tick (entry_tick t1);
                         u = (if service > max_rx_service_ticks t1
                              then t1\<lparr>max_rx_service_ticks := service\<rparr> else t1)
                     in if service \<ge> char_ticks u
                        then u\<lparr>rx_service_over_char := rx_service_over_char u + 1\<rparr> else u
                else t1)
      in wch_trace_status K tick' status 4 t2)"

text \<open>The result is the list of bytes stored in \<^verbatim>\<open>rx_data\<close>; its length is the return value.\<close>

definition usart_wch_fifo_read ::
  "uart_ext \<Rightarrow> wch_trace_kconfig \<Rightarrow> usart_wch_config \<Rightarrow> u32 \<Rightarrow> u32 \<Rightarrow> int \<Rightarrow> 'd uart_dev \<Rightarrow>
   u8 list \<times> 'd uart_dev" where
  "usart_wch_fifo_read X K C tick tick' sz s =
     (if sz = 0 then ([], s)
      else let status = STATR (regs s)
           in if \<not> has status USART_STATR_RXNE
              then ([], if irq_trace C
                        then s\<lparr>trace := wch_trace_status K tick' (ucast status) 4 (trace s)\<rparr> else s)
              else let (b, s1) = read_DATAR X s
                   in ([b], if irq_trace C
                            then s1\<lparr>trace := fifo_read_trace K tick tick' (ucast status) (trace s1)\<rparr>
                            else s1))"

definition usart_wch_irq_tx_enable :: "usart_hal \<Rightarrow> 'd uart_dev \<Rightarrow> 'd uart_dev" where
  "usart_wch_irq_tx_enable H = upd_regs (\<lambda>r. r\<lparr>CTLR1 := CTLR1 r OR (CTLR1_TXEIE H OR USART_CTLR1_TCIE)\<rparr>)"

definition usart_wch_irq_tx_disable :: "usart_hal \<Rightarrow> 'd uart_dev \<Rightarrow> 'd uart_dev" where
  "usart_wch_irq_tx_disable H =
     upd_regs (\<lambda>r. r\<lparr>CTLR1 := CTLR1 r AND NOT (CTLR1_TXEIE H OR USART_CTLR1_TCIE)\<rparr>)"

definition usart_wch_irq_tx_ready :: "usart_hal \<Rightarrow> 'd uart_dev \<Rightarrow> bool" where
  "usart_wch_irq_tx_ready H s \<longleftrightarrow>
     has (STATR (regs s)) USART_STATR_TXE \<and> has (CTLR1 (regs s)) (CTLR1_TXEIE H)"

definition usart_wch_irq_rx_enable :: "usart_hal \<Rightarrow> 'd uart_dev \<Rightarrow> 'd uart_dev" where
  "usart_wch_irq_rx_enable H = upd_regs (\<lambda>r. r\<lparr>CTLR1 := CTLR1 r OR CTLR1_RXNEIE H\<rparr>)"

definition usart_wch_irq_rx_disable :: "usart_hal \<Rightarrow> 'd uart_dev \<Rightarrow> 'd uart_dev" where
  "usart_wch_irq_rx_disable H = upd_regs (\<lambda>r. r\<lparr>CTLR1 := CTLR1 r AND NOT (CTLR1_RXNEIE H)\<rparr>)"

definition usart_wch_irq_tx_complete :: "'d uart_dev \<Rightarrow> bool" where
  "usart_wch_irq_tx_complete s \<longleftrightarrow> STATR (regs s) AND USART_STATR_TC > 0"

definition usart_wch_irq_rx_ready :: "'d uart_dev \<Rightarrow> bool" where
  "usart_wch_irq_rx_ready s \<longleftrightarrow> STATR (regs s) AND USART_STATR_RXNE > 0"

definition usart_wch_irq_err_enable :: "usart_hal \<Rightarrow> 'd uart_dev \<Rightarrow> 'd uart_dev" where
  "usart_wch_irq_err_enable H =
     upd_regs (\<lambda>r. r\<lparr>CTLR1 := CTLR1 r OR USART_CTLR1_PEIE, CTLR2 := CTLR2 r OR CTLR2_LBDIE H,
                     CTLR3 := CTLR3 r OR USART_CTLR3_EIE\<rparr>)"

definition usart_wch_irq_err_disable :: "usart_hal \<Rightarrow> 'd uart_dev \<Rightarrow> 'd uart_dev" where
  "usart_wch_irq_err_disable H =
     upd_regs (\<lambda>r. r\<lparr>CTLR1 := CTLR1 r AND NOT USART_CTLR1_PEIE,
                     CTLR2 := CTLR2 r AND NOT (CTLR2_LBDIE H),
                     CTLR3 := CTLR3 r AND NOT USART_CTLR3_EIE\<rparr>)"

definition usart_wch_irq_is_pending :: "usart_hal \<Rightarrow> 'd uart_dev \<Rightarrow> bool" where
  "usart_wch_irq_is_pending H s \<longleftrightarrow>
     (let r = regs s;
          stat_mask =
            (if has (CTLR1 r) (CTLR1_TXEIE H) then USART_STATR_TXE else 0) OR
            (if has (CTLR1 r) USART_CTLR1_TCIE then USART_STATR_TC else 0) OR
            (if has (CTLR1 r) (CTLR1_RXNEIE H) then USART_STATR_RXNE OR USART_STATR_ORE else 0) OR
            (if has (CTLR1 r) (CTLR1_IDLEIE H) then STATR_IDLE H else 0) OR
            (if has (CTLR1 r) USART_CTLR1_PEIE then USART_STATR_PE else 0) OR
            (if has (CTLR2 r) (CTLR2_LBDIE H) then USART_STATR_LBD else 0) OR
            (if has (CTLR3 r) USART_CTLR3_EIE
             then USART_STATR_NE OR USART_STATR_ORE OR USART_STATR_FE else 0) OR
            (if has (CTLR3 r) (CTLR3_CTSIE H) then STATR_CTS H else 0)
      in STATR r AND stat_mask > 0)"

definition usart_wch_irq_callback_set :: "u32 option \<Rightarrow> u32 \<Rightarrow> 'd uart_dev \<Rightarrow> 'd uart_dev" where
  "usart_wch_irq_callback_set cb user s = s\<lparr>irq_cb := cb, irq_user_data := user\<rparr>"

section \<open>Device-tree checks\<close>

text \<open>\<^verbatim>\<open>uart_wch_dma_dt.h\<close>: the build-time assertions on one instance's device-tree node.\<close>

record dma_dt_node =
  dt_has_tx_rx :: bool
  dt_dmas_len :: nat
  dt_reg_addr :: u32
  dt_ctlr_tx :: u32 \<comment> \<open>register address of the controller node\<close>
  dt_ctlr_rx :: u32
  dt_ctlr_okay :: bool
  dt_ctlr_wch :: bool
  dt_dma_channels :: nat
  dt_ch_tx :: nat
  dt_ch_rx :: nat

definition WCH_UART1_ADDR :: u32 where "WCH_UART1_ADDR = 0x40013800"
definition WCH_UART2_ADDR :: u32 where "WCH_UART2_ADDR = 0x40004400"

definition WCH_UART_DMA_DT_CHECK :: "dma_dt_node \<Rightarrow> bool" where
  "WCH_UART_DMA_DT_CHECK n \<longleftrightarrow>
     dt_has_tx_rx n \<and> dt_dmas_len n = 2 \<and>
     (dt_reg_addr n = WCH_UART1_ADDR \<or> dt_reg_addr n = WCH_UART2_ADDR) \<and>
     dt_ctlr_okay n \<and> dt_ctlr_wch n \<and> dt_ctlr_tx n = dt_ctlr_rx n \<and> dt_ctlr_tx n = 0x40020000 \<and>
     dt_ch_tx n < dt_dma_channels n \<and> dt_ch_rx n < dt_dma_channels n \<and>
     dt_ch_tx n = (if dt_reg_addr n = WCH_UART1_ADDR then 3 else 6) \<and>
     dt_ch_rx n = (if dt_reg_addr n = WCH_UART1_ADDR then 4 else 5)"

text \<open>The fields \<^verbatim>\<open>USART_WCH_INIT\<close> fills from the checked node.\<close>

definition dt_dma_config :: "dma_dt_node \<Rightarrow> usart_wch_config \<Rightarrow> usart_wch_config" where
  "dt_dma_config n C = C\<lparr>regs_addr := dt_reg_addr n, dma_tx_dev := dt_ctlr_tx n,
     dma_rx_dev := dt_ctlr_rx n, dma_tx_channel := dt_ch_tx n, dma_rx_channel := dt_ch_rx n\<rparr>"

end
