(* ===== verification/Uart_Inv.thy ===== *)
theory Uart_Inv
  imports Uart_Usart
begin

text \<open>
  The invariant of a port, stated over any DMA provider: the transmit half, the receive half,
  and the frame relations that say which operations leave which half alone.  \<open>view\<close> and
  \<open>meta\<close> are the observers of the provider's contract.
\<close>

unbundle bit_operations_syntax

section \<open>Transmit half\<close>

text \<open>In each phase: what the channel does, which gates are open, what is borrowed.\<close>

definition tx_ok :: "usart_wch_config \<Rightarrow> achan \<Rightarrow> dma_meta \<Rightarrow> usart_regs \<Rightarrow> wch_uart_tx \<Rightarrow> bool" where
  "tx_ok C a m r t \<longleftrightarrow>
     (case tx_phase t of
        WCH_TX_IDLE \<Rightarrow>
          \<not> achan_busy a \<and> \<not> has (CTLR3 r) USART_CTLR3_DMAT \<and> \<not> has (CTLR1 r) USART_CTLR1_TCIE \<and>
          tx_buffer t = 0 \<and> tx_length t = 0 \<and> deadline t = 0
      | WCH_TX_DMA \<Rightarrow>
          (\<exists>left. a = ARunning (unat (tx_length t)) left \<and> left \<le> unat (tx_length t)) \<and>
          \<not> m_cyclic m \<and> \<not> m_error_dis m \<and> m_cb m = Some Usart_wch_tx_dma_callback \<and>
          m_user m = dev_ptr C \<and> m_mem m = tx_buffer t \<and>
          has (CTLR3 r) USART_CTLR3_DMAT \<and> \<not> has (CTLR1 r) USART_CTLR1_TCIE \<and>
          tx_buffer t \<noteq> 0 \<and> tx_length t \<noteq> 0 \<and> tx_callback t \<noteq> None
      | WCH_TX_WAIT_TC \<Rightarrow>
          (\<exists>left. a = AReady (unat (tx_length t)) left \<and> left \<le> unat (tx_length t)) \<and>
          \<not> has (CTLR3 r) USART_CTLR3_DMAT \<and> has (CTLR1 r) USART_CTLR1_TCIE \<and>
          tx_buffer t \<noteq> 0 \<and> tx_length t \<noteq> 0 \<and> tx_callback t \<noteq> None)"

section \<open>The event ring as a queue\<close>

definition rx_ring :: "wch_uart_rx \<Rightarrow> wch_uart_rx_note list" where
  "rx_ring r = map (\<lambda>i. rx_notes r ! ((unat (rx_head r) + i) mod RX_NOTES)) [0..<unat (rx_count r)]"

definition ring_wf :: "wch_uart_rx \<Rightarrow> bool" where
  "ring_wf r \<longleftrightarrow> length (rx_notes r) = RX_NOTES \<and> unat (rx_head r) < RX_NOTES \<and>
     unat (rx_count r) \<le> RX_NOTES"

section \<open>Receive half\<close>

text \<open>Events the driver queues while data flows: everything but a request and the final event.\<close>

fun data_event :: "uart_event \<Rightarrow> bool" where
  "data_event UART_RX_BUF_REQUEST = False"
| "data_event UART_RX_DISABLED = False"
| "data_event _ = True"

text \<open>An active session: the ring is empty once the request was delivered, and holds at most two
  events and the request of the current generation before.\<close>

definition rx_active_ring :: "wch_uart_rx \<Rightarrow> bool" where
  "rx_active_ring r \<longleftrightarrow>
     (if rx_next r \<noteq> 0
      then rx_ring r = [] \<and> \<not> request_open r \<and> rx_next_length r \<noteq> 0 \<and>
           unat (rx_next_length r) \<le> 65535
      else if request_open r then rx_ring r = []
      else \<exists>pre. rx_ring r = pre @ [\<lparr>rx_event = UART_RX_BUF_REQUEST, note_generation = generation r\<rparr>] \<and>
             length pre \<le> 2 \<and> (\<forall>n \<in> set pre. data_event (rx_event n)))"

text \<open>A session that ended: the final event is queued last, behind at most six others.\<close>

definition rx_stopping_ring :: "wch_uart_rx \<Rightarrow> bool" where
  "rx_stopping_ring r \<longleftrightarrow>
     (\<exists>pre g. rx_ring r = pre @ [\<lparr>rx_event = UART_RX_DISABLED, note_generation = g\<rparr>] \<and> length pre \<le> 6 \<and>
        (\<forall>n \<in> set pre. rx_event n \<noteq> UART_RX_DISABLED))"

definition rx_gated :: "usart_regs \<Rightarrow> bool" where
  "rx_gated r \<longleftrightarrow> \<not> has (CTLR3 r) USART_CTLR3_DMAR \<and> \<not> has (CTLR3 r) USART_CTLR3_EIE \<and>
     \<not> has (CTLR1 r) USART_CTLR1_PEIE"

definition rx_ok ::
  "usart_wch_config \<Rightarrow> achan \<Rightarrow> dma_meta \<Rightarrow> usart_regs \<Rightarrow> u32 option \<Rightarrow> wch_uart_rx \<Rightarrow> bool" where
  "rx_ok C a m r cb x \<longleftrightarrow> ring_wf x \<and>
     (case rx_phase x of
        WCH_RX_IDLE \<Rightarrow>
          \<not> achan_busy a \<and> rx_gated r \<and> rx_ring x = [] \<and> rx_buffer x = 0 \<and> rx_next x = 0 \<and>
          \<not> request_open x
      | WCH_RX_ACTIVE \<Rightarrow>
          (\<exists>left. a = ARunning (unat (rx_length x)) left \<and> left \<le> unat (rx_length x)) \<and>
          \<not> m_cyclic m \<and> \<not> m_error_dis m \<and> m_cb m = Some Usart_wch_rx_dma_callback \<and>
          m_user m = dev_ptr C \<and> m_mem m = rx_buffer x \<and>
          has (CTLR3 r) USART_CTLR3_DMAR \<and> rx_buffer x \<noteq> 0 \<and> rx_length x \<noteq> 0 \<and> cb \<noteq> None \<and>
          rx_active_ring x
      | WCH_RX_STOPPING \<Rightarrow>
          \<not> achan_busy a \<and> rx_gated r \<and> rx_buffer x = 0 \<and> rx_next x = 0 \<and> \<not> request_open x \<and>
          cb \<noteq> None \<and> rx_stopping_ring x)"

section \<open>The port\<close>

definition chans_ok :: "nat \<Rightarrow> usart_wch_config \<Rightarrow> bool" where
  "chans_ok nch C \<longleftrightarrow> dma_tx_channel C < nch \<and> dma_rx_channel C < nch \<and>
     dma_tx_channel C \<noteq> dma_rx_channel C \<and> dma_tx_dev C = dma_rx_dev C"

definition uart_inv ::
  "('d \<Rightarrow> bool) \<Rightarrow> ('d \<Rightarrow> nat \<Rightarrow> achan) \<Rightarrow> ('d \<Rightarrow> nat \<Rightarrow> dma_meta) \<Rightarrow> usart_wch_config \<Rightarrow>
   'd uart_dev \<Rightarrow> bool" where
  "uart_inv dok view meta C s \<longleftrightarrow>
     dok (dma s) \<and>
     tx_ok C (view (dma s) (dma_tx_channel C)) (meta (dma s) (dma_tx_channel C)) (regs s) (tx s) \<and>
     rx_ok C (view (dma s) (dma_rx_channel C)) (meta (dma s) (dma_rx_channel C)) (regs s)
       (tx_callback (tx s)) (rx s)"

text \<open>\<open>s'\<close> has the receive half of \<open>s\<close>, respectively its transmit half.\<close>

definition same_rx ::
  "('d \<Rightarrow> nat \<Rightarrow> achan) \<Rightarrow> ('d \<Rightarrow> nat \<Rightarrow> dma_meta) \<Rightarrow> usart_wch_config \<Rightarrow>
   'd uart_dev \<Rightarrow> 'd uart_dev \<Rightarrow> bool" where
  "same_rx view meta C s s' \<longleftrightarrow>
     rx s' = rx s \<and> tx_callback (tx s') = tx_callback (tx s) \<and>
     view (dma s') (dma_rx_channel C) = view (dma s) (dma_rx_channel C) \<and>
     meta (dma s') (dma_rx_channel C) = meta (dma s) (dma_rx_channel C) \<and>
     (\<forall>n. n \<noteq> 7 \<longrightarrow> bit (CTLR3 (regs s')) n = bit (CTLR3 (regs s)) n) \<and>
     (\<forall>n. n \<noteq> 6 \<longrightarrow> bit (CTLR1 (regs s')) n = bit (CTLR1 (regs s)) n)"

definition same_tx ::
  "('d \<Rightarrow> nat \<Rightarrow> achan) \<Rightarrow> ('d \<Rightarrow> nat \<Rightarrow> dma_meta) \<Rightarrow> usart_wch_config \<Rightarrow>
   'd uart_dev \<Rightarrow> 'd uart_dev \<Rightarrow> bool" where
  "same_tx view meta C s s' \<longleftrightarrow>
     tx s' = tx s \<and>
     view (dma s') (dma_tx_channel C) = view (dma s) (dma_tx_channel C) \<and>
     meta (dma s') (dma_tx_channel C) = meta (dma s) (dma_tx_channel C) \<and>
     bit (CTLR3 (regs s')) 7 = bit (CTLR3 (regs s)) 7 \<and>
     bit (CTLR1 (regs s')) 6 = bit (CTLR1 (regs s)) 6"

lemma same_rx_refl [simp, intro]: "same_rx view meta C s s"
  by (simp add: same_rx_def)

lemma same_tx_refl [simp, intro]: "same_tx view meta C s s"
  by (simp add: same_tx_def)

lemma same_rx_trans: "same_rx view meta C s t \<Longrightarrow> same_rx view meta C t u \<Longrightarrow> same_rx view meta C s u"
  by (simp add: same_rx_def)

lemma same_tx_trans: "same_tx view meta C s t \<Longrightarrow> same_tx view meta C t u \<Longrightarrow> same_tx view meta C s u"
  by (simp add: same_tx_def)

lemma rx_ok_same_rx:
  assumes "same_rx view meta C s s'"
  shows "rx_ok C (view (dma s') (dma_rx_channel C)) (meta (dma s') (dma_rx_channel C)) (regs s')
           (tx_callback (tx s')) (rx s') =
         rx_ok C (view (dma s) (dma_rx_channel C)) (meta (dma s) (dma_rx_channel C)) (regs s)
           (tx_callback (tx s)) (rx s)"
  using assms
  by (simp add: same_rx_def rx_ok_def rx_gated_def wch_bits split: wch_uart_rx_phase.splits)

lemma tx_ok_same_tx:
  assumes "same_tx view meta C s s'"
  shows "tx_ok C (view (dma s') (dma_tx_channel C)) (meta (dma s') (dma_tx_channel C)) (regs s') (tx s') =
         tx_ok C (view (dma s) (dma_tx_channel C)) (meta (dma s) (dma_tx_channel C)) (regs s) (tx s)"
  using assms by (simp add: same_tx_def tx_ok_def wch_bits split: wch_uart_tx_phase.splits)

lemma uart_inv_tx_op:
  assumes "uart_inv dok view meta C s" "same_rx view meta C s s'" "dok (dma s')"
    and "tx_ok C (view (dma s') (dma_tx_channel C)) (meta (dma s') (dma_tx_channel C)) (regs s') (tx s')"
  shows "uart_inv dok view meta C s'"
  using assms rx_ok_same_rx [OF assms(2)] by (simp add: uart_inv_def)

lemma uart_inv_rx_op:
  assumes "uart_inv dok view meta C s" "same_tx view meta C s s'" "dok (dma s')"
    and "rx_ok C (view (dma s') (dma_rx_channel C)) (meta (dma s') (dma_rx_channel C)) (regs s')
           (tx_callback (tx s')) (rx s')"
  shows "uart_inv dok view meta C s'"
  using assms tx_ok_same_tx [OF assms(2)] by (simp add: uart_inv_def)

end
