(* ===== verification/Uart_Ring.thy ===== *)
theory Uart_Ring
  imports Uart_Inv
begin

text \<open>
  The receive event ring implements a bounded first-in first-out queue.  The locale is the
  queue's contract; the interpretation discharges it for the ring of
  \<^verbatim>\<open>struct wch_uart_rx\<close>, and the receive theories use only the contract's facts.
\<close>

section \<open>The contract of a bounded queue\<close>

locale bounded_queue =
  fixes wf :: "'q \<Rightarrow> bool"
    and items :: "'q \<Rightarrow> 'n list"
    and cap :: nat
    and tag :: "'e \<Rightarrow> 'q \<Rightarrow> 'n"
    and push :: "'e \<Rightarrow> 'q \<Rightarrow> 'q"
    and front :: "'q \<Rightarrow> 'n"
    and pop :: "'q \<Rightarrow> 'q"
  assumes push_wf: "wf q \<Longrightarrow> length (items q) < cap \<Longrightarrow> wf (push e q)"
    and push_items: "wf q \<Longrightarrow> length (items q) < cap \<Longrightarrow> items (push e q) = items q @ [tag e q]"
    and push_tag: "tag e' (push e q) = tag e' q"
    and front_items: "wf q \<Longrightarrow> items q = n # ns \<Longrightarrow> front q = n"
    and pop_items: "wf q \<Longrightarrow> items q = n # ns \<Longrightarrow> items (pop q) = ns"
    and pop_wf: "wf q \<Longrightarrow> items q = n # ns \<Longrightarrow> wf (pop q)"
begin

text \<open>Pushing a list of events that fits.\<close>

lemma push_all:
  "wf q \<Longrightarrow> length (items q) + length es \<le> cap \<Longrightarrow>
   wf (fold push es q) \<and> items (fold push es q) = items q @ map (\<lambda>e. tag e q) es"
proof (induction es arbitrary: q)
  case (Cons e es)
  then have "wf (push e q)" "items (push e q) = items q @ [tag e q]"
    by (auto intro: push_wf push_items)
  with Cons show ?case by (simp add: push_tag)
qed simp

end

section \<open>The ring\<close>

lemma rx_ring_length [simp]: "length (rx_ring r) = unat (rx_count r)"
  by (simp add: rx_ring_def)

lemma rx_ring_Nil_iff: "rx_ring r = [] \<longleftrightarrow> rx_count r = 0"
  by (metis length_0_conv rx_ring_length unat_eq_zero)

lemma rx_ring_cong:
  "rx_notes r' = rx_notes r \<Longrightarrow> rx_head r' = rx_head r \<Longrightarrow> rx_count r' = rx_count r \<Longrightarrow>
   rx_ring r' = rx_ring r \<and> ring_wf r' = ring_wf r"
  by (simp add: rx_ring_def ring_wf_def)

lemma unat_u8_inc: "unat (c :: u8) < 12 \<Longrightarrow> unat (c + 1) = unat c + 1"
  by (simp add: unat_word_ariths)

lemma mod12_inj: "i < j \<Longrightarrow> j < 12 \<Longrightarrow> (h + i) mod 12 \<noteq> (h + j) mod 12" for h i j :: nat
proof
  assume "i < j" "j < 12" "(h + i) mod 12 = (h + j) mod 12"
  then have "12 dvd (h + j) - (h + i)" by (metis mod_eq_dvd_iff_nat add_le_mono1 add.commute less_imp_le)
  then have "12 dvd j - i" by simp
  then show False using \<open>i < j\<close> \<open>j < 12\<close> by (auto dest: dvd_imp_le)
qed

lemma queue_items:
  assumes "ring_wf r" "length (rx_ring r) < RX_NOTES"
  shows "ring_wf (usart_wch_rx_queue e r)"
    and "rx_ring (usart_wch_rx_queue e r) =
           rx_ring r @ [\<lparr>rx_event = e, note_generation = generation r\<rparr>]"
proof -
  have c: "unat (rx_count r) < 12" and w: "length (rx_notes r) = 12" "unat (rx_head r) < 12"
    using assms by (simp_all add: ring_wf_def RX_NOTES_def)
  show "ring_wf (usart_wch_rx_queue e r)"
    using c w by (simp add: ring_wf_def usart_wch_rx_queue_def RX_NOTES_def unat_u8_inc)
  show "rx_ring (usart_wch_rx_queue e r) =
      rx_ring r @ [\<lparr>rx_event = e, note_generation = generation r\<rparr>]"
    unfolding rx_ring_def
    using c w mod12_inj [THEN not_sym]
    by (simp add: usart_wch_rx_queue_def RX_NOTES_def unat_u8_inc)
qed

lemma ring_Cons_D:
  assumes "rx_ring r = n # ns"
  shows "0 < unat (rx_count r)" "unat (rx_count r - 1) = unat (rx_count r) - 1"
proof -
  have "length (rx_ring r) = Suc (length ns)" using assms by simp
  then show c: "0 < unat (rx_count r)" by simp
  then have "1 \<le> rx_count r" by (simp add: word_le_nat_alt)
  then show "unat (rx_count r - 1) = unat (rx_count r) - 1" by (simp add: unat_sub_le)
qed

lemma ring_pop_items:
  assumes "ring_wf r" "rx_ring r = n # ns"
  shows "rx_notes r ! unat (rx_head r) = n" "rx_ring (rx_ring_pop r) = ns" "ring_wf (rx_ring_pop r)"
proof -
  note c = ring_Cons_D [OF assms(2)]
  have w: "unat (rx_head r) < 12" "length (rx_notes r) = 12" "unat (rx_count r) \<le> 12"
    using assms(1) by (simp_all add: ring_wf_def RX_NOTES_def)
  have h: "unat (of_nat ((unat (rx_head r) + 1) mod 12) :: u8) = (unat (rx_head r) + 1) mod 12"
  proof -
    have "(unat (rx_head r) + 1) mod 12 < 256" by (rule less_trans [of _ 12]) simp_all
    then show ?thesis by (simp add: unat_of_nat)
  qed
  let ?f = "\<lambda>i. rx_notes r ! ((unat (rx_head r) + i) mod 12)"
  have sp: "[0..<unat (rx_count r)] = 0 # map Suc [0..<unat (rx_count r) - 1]"
    using c(1) by (simp add: upt_conv_Cons map_Suc_upt del: upt_Suc)
  have l: "n # ns = ?f 0 # map (\<lambda>i. ?f (Suc i)) [0..<unat (rx_count r) - 1]"
    using assms(2) unfolding rx_ring_def RX_NOTES_def sp by (simp add: comp_def)
  then show "rx_notes r ! unat (rx_head r) = n" using w by simp
  show "ring_wf (rx_ring_pop r)"
    using w c h by (simp add: ring_wf_def rx_ring_pop_def RX_NOTES_def)
  have "rx_ring (rx_ring_pop r) = map (\<lambda>i. ?f (Suc i)) [0..<unat (rx_count r) - 1]"
    using h by (simp add: rx_ring_def rx_ring_pop_def RX_NOTES_def c(2) mod_simps)
  then show "rx_ring (rx_ring_pop r) = ns" using l by simp
qed

interpretation ring: bounded_queue ring_wf rx_ring RX_NOTES
  "\<lambda>e r. \<lparr>rx_event = e, note_generation = generation r\<rparr>" usart_wch_rx_queue
  "\<lambda>r. rx_notes r ! unat (rx_head r)" rx_ring_pop
  by unfold_locales (simp_all add: queue_items ring_pop_items, simp add: usart_wch_rx_queue_def)

lemma queue_sel [simp]:
  "rx_phase (usart_wch_rx_queue e r) = rx_phase r" "rx_buffer (usart_wch_rx_queue e r) = rx_buffer r"
  "rx_length (usart_wch_rx_queue e r) = rx_length r" "rx_next (usart_wch_rx_queue e r) = rx_next r"
  "rx_next_length (usart_wch_rx_queue e r) = rx_next_length r"
  "request_open (usart_wch_rx_queue e r) = request_open r"
  "dispatching (usart_wch_rx_queue e r) = dispatching r"
  "generation (usart_wch_rx_queue e r) = generation r"
  by (simp_all add: usart_wch_rx_queue_def)

lemma queue_all_sel [simp]:
  "rx_phase (fold usart_wch_rx_queue es r) = rx_phase r"
  "rx_buffer (fold usart_wch_rx_queue es r) = rx_buffer r"
  "rx_length (fold usart_wch_rx_queue es r) = rx_length r"
  "rx_next (fold usart_wch_rx_queue es r) = rx_next r"
  "rx_next_length (fold usart_wch_rx_queue es r) = rx_next_length r"
  "request_open (fold usart_wch_rx_queue es r) = request_open r"
  "generation (fold usart_wch_rx_queue es r) = generation r"
  by (induction es arbitrary: r) simp_all

end
