(* ===== verification/Uart_Rx_Spec.thy ===== *)
theory Uart_Rx_Spec
  imports Uart_Ring
begin

text \<open>
  The receive contract as an automaton over what the application sees: buffers it lends and
  events it gets.  A session has at most two buffers on loan, in order; a buffer's data is
  reported at most once and before the buffer comes back; buffers come back in the order they
  were lent, each once; the final event comes when none is on loan.  The second half shows
  what the driver's queueing helpers do in terms of this automaton.
\<close>

section \<open>Observations and the automaton\<close>

datatype uart_obs =
    TxAccepted u32 u32 \<comment> \<open>a transmit call returned 0: buffer, length\<close>
  | TxEvent uart_event \<comment> \<open>a transmit event handed to the callback\<close>
  | RxEnabled u32 u32 \<comment> \<open>an enable call returned 0\<close>
  | RxBuffer u32 u32 \<comment> \<open>a buffer response returned 0\<close>
  | RxEvent uart_event \<comment> \<open>a receive event handed to the callback\<close>

definition ranges_disjoint :: "u32 \<Rightarrow> u32 \<Rightarrow> u32 \<Rightarrow> u32 \<Rightarrow> bool" where
  "ranges_disjoint b l b' l' \<longleftrightarrow>
     unat b + unat l \<le> unat b' \<or> unat b' + unat l' \<le> unat b"

text \<open>\<open>RxSession loans requested reported stopped\<close>: the buffers on loan; a request was delivered and
  not answered; the first buffer's data was reported; reception stopped with an error.\<close>

datatype rx_state = RxIdle | RxSession "(u32 \<times> u32) list" bool bool bool

fun rx_spec_event :: "rx_state \<Rightarrow> uart_event \<Rightarrow> rx_state option" where
  "rx_spec_event (RxSession [(b, l)] req rep stp) UART_RX_BUF_REQUEST =
     (if req \<or> stp then None else Some (RxSession [(b, l)] True rep stp))"
| "rx_spec_event (RxSession ((b, l) # ls) req rep stp) (UART_RX_RDY b' off n) =
     (if b' = b \<and> off = 0 \<and> n \<noteq> 0 \<and> n \<le> l \<and> \<not> rep then Some (RxSession ((b, l) # ls) req True stp)
      else None)"
| "rx_spec_event (RxSession ((b, l) # ls) req rep stp) (UART_RX_STOPPED reason b' off n) =
     (if reason \<noteq> 0 \<and> b' = b \<and> off = 0 \<and> n \<le> l \<and> \<not> rep \<and> \<not> stp
      then Some (RxSession ((b, l) # ls) req rep True) else None)"
| "rx_spec_event (RxSession ((b, l) # ls) req rep stp) (UART_RX_BUF_RELEASED b') =
     (if b' = b then Some (RxSession ls req False stp) else None)"
| "rx_spec_event (RxSession [] req rep stp) UART_RX_DISABLED = Some RxIdle"
| "rx_spec_event _ _ = None"

fun rx_spec :: "rx_state \<Rightarrow> uart_obs \<Rightarrow> rx_state option" where
  "rx_spec RxIdle (RxEnabled b l) = Some (RxSession [(b, l)] False False False)"
| "rx_spec _ (RxEnabled b l) = None"
| "rx_spec (RxSession [(b, l)] True False False) (RxBuffer b' l') =
     (if ranges_disjoint b l b' l' then Some (RxSession [(b, l), (b', l')] False False False) else None)"
| "rx_spec _ (RxBuffer b' l') = None"
| "rx_spec a (RxEvent e) = rx_spec_event a e"
| "rx_spec a (TxAccepted _ _) = Some a"
| "rx_spec a (TxEvent _) = Some a"

fun rx_specs :: "rx_state \<Rightarrow> uart_obs list \<Rightarrow> rx_state option" where
  "rx_specs a [] = Some a"
| "rx_specs a (ob # obs) = (case rx_spec a ob of None \<Rightarrow> None | Some a' \<Rightarrow> rx_specs a' obs)"

fun rx_spec_events :: "rx_state \<Rightarrow> uart_event list \<Rightarrow> rx_state option" where
  "rx_spec_events a [] = Some a"
| "rx_spec_events a (e # es) = (case rx_spec_event a e of None \<Rightarrow> None | Some a' \<Rightarrow> rx_spec_events a' es)"

lemma rx_specs_append:
  "rx_specs a (xs @ ys) = (case rx_specs a xs of None \<Rightarrow> None | Some a' \<Rightarrow> rx_specs a' ys)"
  by (induction xs arbitrary: a) (auto split: option.splits)

lemma rx_spec_events_append:
  "rx_spec_events a (xs @ ys) =
     (case rx_spec_events a xs of None \<Rightarrow> None | Some a' \<Rightarrow> rx_spec_events a' ys)"
  by (induction xs arbitrary: a) (auto split: option.splits)

section \<open>The driver's state as an automaton state\<close>

text \<open>Where the automaton will be once the ring is drained: the loans the driver holds, or idle when
  the session has ended; a request still queued then is not delivered.\<close>

definition ring_events :: "wch_uart_rx \<Rightarrow> uart_event list" where
  "ring_events r = map rx_event (rx_ring r)"

definition rx_sim :: "rx_state \<Rightarrow> wch_uart_rx \<Rightarrow> bool" where
  "rx_sim a r \<longleftrightarrow>
     (case rx_phase r of
        WCH_RX_IDLE \<Rightarrow> a = RxIdle
      | WCH_RX_ACTIVE \<Rightarrow> rx_spec_events a (ring_events r) =
          Some (RxSession ((rx_buffer r, rx_length r) #
                  (if rx_next r \<noteq> 0 then [(rx_next r, rx_next_length r)] else []))
                  (rx_next r = 0) False False)
      | WCH_RX_STOPPING \<Rightarrow>
          rx_spec_events a (filter (\<lambda>e. e \<noteq> UART_RX_BUF_REQUEST) (ring_events r)) = Some RxIdle)"

section \<open>Queueing helpers\<close>

definition finish_events :: "u32 \<Rightarrow> u32 \<Rightarrow> wch_uart_rx \<Rightarrow> uart_event list" where
  "finish_events cnt reason r =
     (if reason \<noteq> 0 then [UART_RX_STOPPED reason (rx_buffer r) 0 cnt] else []) @
     (if cnt \<noteq> 0 then [UART_RX_RDY (rx_buffer r) 0 cnt] else []) @
     [UART_RX_BUF_RELEASED (rx_buffer r)] @
     (if rx_next r \<noteq> 0 then [UART_RX_BUF_RELEASED (rx_next r)] else []) @ [UART_RX_DISABLED]"

lemma queue_commute:
  "usart_wch_rx_queue e (r\<lparr>rx_buffer := b, rx_next := n, rx_length := l, rx_next_length := m,
     request_open := q, rx_phase := p\<rparr>) =
   (usart_wch_rx_queue e r)\<lparr>rx_buffer := b, rx_next := n, rx_length := l, rx_next_length := m,
     request_open := q, rx_phase := p\<rparr>"
  by (simp add: usart_wch_rx_queue_def)

lemma rx_clear_sel [simp]:
  "rx (usart_wch_rx_clear X s) = rx s" "tx (usart_wch_rx_clear X s) = tx s"
  "dma (usart_wch_rx_clear X s) = dma s" "CTLR3 (regs (usart_wch_rx_clear X s)) = CTLR3 (regs s)"
  "bit (CTLR1 (regs (usart_wch_rx_clear X s))) n \<longleftrightarrow> n = 2 \<or> bit (CTLR1 (regs s)) n"
  by (auto simp: usart_wch_rx_clear_def wch_bits dest: bit_word_less)

text \<open>Finishing queues exactly these events, in this order.\<close>

lemma finish_rx:
  "rx (usart_wch_rx_finish X cnt reason s) =
     (fold usart_wch_rx_queue (finish_events cnt reason (rx s)) (rx s))
       \<lparr>rx_buffer := 0, rx_next := 0, rx_length := 0, rx_next_length := 0, request_open := False,
        rx_phase := WCH_RX_STOPPING\<rparr>"
  by (simp add: usart_wch_rx_finish_def rx_finish_data_def Let_def queue_commute finish_events_def
      usart_wch_rx_ready_def usart_wch_rx_release_def)

lemma finish_events_length: "length (finish_events cnt reason r) \<le> (if rx_next r \<noteq> 0 then 5 else 4)"
  by (simp add: finish_events_def)

lemma finish_events_spec:
  assumes "cnt \<le> l" "l = rx_length r"
    and "ls = (if rx_next r \<noteq> 0 then [(rx_next r, m)] else [])"
  shows "rx_spec_events (RxSession ((rx_buffer r, l) # ls) req False False) (finish_events cnt reason r)
     = Some RxIdle"
  using assms by (simp add: finish_events_def)

lemma finish_events_no_request: "filter (\<lambda>e. e \<noteq> UART_RX_BUF_REQUEST) (finish_events cnt reason r) = finish_events cnt reason r"
  by (simp add: finish_events_def)

end
