(* ===== verification/Dma_Props.thy ===== *)
theory Dma_Props
  imports Dma_Iface
begin

text \<open>
  Correctness of the DMA driver: every operation touches only its own channel, keeps the
  channel invariant, and behaves as \<^verbatim>\<open>docs/dma-driver.md\<close> promises on every branch.
  The controller is then a transition system whose steps are the driver operations, the
  channel interrupts and the progress of the hardware; the invariant holds in every
  reachable state.
\<close>

unbundle bit_operations_syntax

lemmas dma_ops [wch_ops] =
  dma_wch_config_def dma_wch_reload_def dma_wch_start_def dma_wch_stop_def dma_wch_resume_def
  dma_wch_suspend_def dma_wch_chan_release_def

section \<open>Each operation touches only its channel\<close>

lemma config_only_chan:
  "dma_wf C d \<Longrightarrow> dma_wch_config C ch c d = (r, d') \<Longrightarrow> only_chan ch d d'"
  by (auto simp: dma_wch_config_def Let_def dma_wf_def DMA_WCH_MAX_CHAN_def
      split: option.splits if_splits sum.splits prod.splits intro!: only_chan_intros)

lemma reload_only_chan:
  "dma_wf C d \<Longrightarrow> dma_wch_reload C ch src dst sz d = (r, d') \<Longrightarrow> only_chan ch d d'"
  by (auto simp: dma_wch_reload_def Let_def dma_wf_def DMA_WCH_MAX_CHAN_def
      split: if_splits intro!: only_chan_intros)

lemma control_only_chan:
  assumes "dma_wf C d"
  shows "dma_wch_start C ch d = (r, d') \<Longrightarrow> only_chan ch d d'"
    and "dma_wch_stop C ch d = (r, d') \<Longrightarrow> only_chan ch d d'"
    and "dma_wch_resume C ch d = (r, d') \<Longrightarrow> only_chan ch d d'"
    and "dma_wch_suspend C ch d = (r, d') \<Longrightarrow> only_chan ch d d'"
    and "only_chan ch d (dma_wch_chan_release C ch d)"
  using assms
  by (auto simp: dma_wch_start_def dma_wch_stop_def dma_wch_resume_def dma_wch_suspend_def
      dma_wch_chan_release_def Let_def dma_wf_def DMA_WCH_MAX_CHAN_def
      split: if_splits intro!: only_chan_intros)

abbreviation isr_ip :: "dma_dev \<Rightarrow> nat \<Rightarrow> u8" where
  "isr_ip d ch \<equiv> dma_wch_get_ip d ch AND NOT (ucast DMA_GIF1)"

lemma isr_ip_bits: "ch < 16 \<Longrightarrow> bit (isr_ip d ch) j \<Longrightarrow> 0 < j \<and> j < 4"
  by (auto simp: get_ip_bit wch_bits)

lemma only_chan_ack: "ch < 16 \<Longrightarrow> only_chan ch d (dma_isr_ack ch (isr_ip d ch) d)"
  using isr_ip_bits [of ch d] by (simp add: only_chan_def get_ip_ack)

lemma isr_only_chan: "ch < 16 \<Longrightarrow> dma_wch_isr ch d = (d', call) \<Longrightarrow> only_chan ch d d'"
  by (auto simp: dma_wch_isr_def Let_def dma_isr_disable_def
      split: if_splits intro!: only_chan_ack only_chan_upd_reg only_chan_upd_chan)

section \<open>Validation\<close>

lemma request_ok_width:
  "dma_request_ok c b \<Longrightarrow>
   source_data_size c = dest_data_size c \<and>
   (source_data_size c = 1 \<or> source_data_size c = 2 \<or> source_data_size c = 4)"
  by (auto simp: dma_request_ok_def dma_cfg_bad_width_def Let_def)

lemma request_ok_block:
  assumes "dma_request_ok c b"
  shows "block_size b \<noteq> 0 \<and> unat (source_data_size c) dvd unat (block_size b) \<and>
    unat (block_size b) div unat (source_data_size c) \<le> 65535"
  using assms
  by (auto simp: dma_request_ok_def dma_cfg_bad_block_def DMA_WCH_MAX_BLOCK_def not_less
      word_mod_eq_0_iff word_le_nat_alt unat_div)

lemma config_Ok_iff:
  "fst (dma_wch_config C ch c d) = Ok \<longleftrightarrow>
     (\<exists>c' b. c = Some c' \<and> head_block c' = Some b \<and> ch < num_channels C \<and>
        dma_request_ok c' b \<and> \<not> dma_wch_busy d ch)"
  by (auto simp: dma_wch_config_def dma_request_ok_def Let_def
      split: option.splits if_splits sum.splits prod.splits)

lemma config_Err_unchanged: "dma_wch_config C ch c d = (Inl e, d') \<Longrightarrow> d' = d"
  by (auto simp: dma_wch_config_def Let_def
      split: option.splits if_splits sum.splits prod.splits)

section \<open>The channel configuration register\<close>

lemma word_le_3: "x \<le> 3 \<Longrightarrow> x = 0 \<or> x = 1 \<or> x = 2 \<or> x = 3" for x :: u32
  by (auto simp: word_le_nat_alt word_unat_eq_iff)

lemma bit_int_3: "bit (3 :: int) n \<longleftrightarrow> n = 0 \<or> n = Suc 0"
proof -
  have "(3 :: int) = mask 2" by (simp add: mask_eq_exp_minus_1)
  then have "bit (3 :: int) n \<longleftrightarrow> n < 2" by (simp only: bit_mask_iff) simp
  then show ?thesis by auto
qed

lemma bit_word_3: "bit (3 :: u32) n \<longleftrightarrow> n = 0 \<or> n = Suc 0"
  by (auto simp: bit_int_3)

text \<open>A two-bit field at position \<open>k\<close>: its two bits, and reading it back.\<close>

lemma field2_bit:
  "x \<le> 3 \<Longrightarrow> k < 31 \<Longrightarrow>
   bit (x * 2 ^ k) n \<longleftrightarrow> n = k \<and> bit x 0 \<or> n = Suc k \<and> bit x (Suc 0)" for x :: u32
  by (drule word_le_3)
    (auto simp: bit_simps bit_int_3 simp flip: push_bit_eq_mult)

lemma field2_read:
  fixes x v :: u32
  assumes "x \<le> 3" "k < 31" "bit v k \<longleftrightarrow> bit x 0" "bit v (Suc k) \<longleftrightarrow> bit x (Suc 0)"
  shows "drop_bit k v AND 3 = x"
proof (rule bit_word_eqI)
  fix n
  have hi: "\<not> bit x n" if "n \<noteq> 0" "n \<noteq> Suc 0"
    using word_le_3 [OF assms(1)] that by (auto simp: bit_1_iff bit_simps bit_int_3)
  show "bit (drop_bit k v AND 3) n = bit x n"
    using assms(3,4) hi
    by (cases "n = 0 \<or> n = Suc 0") (auto simp: bit_and_iff bit_drop_bit_eq bit_int_3)
qed

lemma width_index_le: "(ucast (dma_wch_width_index w) :: u32) \<le> 3"
  by (simp add: dma_wch_width_index_def)

lemma width_index_pow:
  "w = 1 \<or> w = 2 \<or> w = 4 \<Longrightarrow> 2 ^ unat (ucast (dma_wch_width_index w) :: u32) = unat w"
  by (auto simp: dma_wch_width_index_def)

lemma dma_field_bits [wch_bits]:
  "x \<le> 3 \<Longrightarrow> bit (x * DMA_CFGR1_PSIZE_0) n \<longleftrightarrow> n = 8 \<and> bit x 0 \<or> n = 9 \<and> bit x (Suc 0)"
  "x \<le> 3 \<Longrightarrow> bit (x * DMA_CFGR1_MSIZE_0) n \<longleftrightarrow> n = 10 \<and> bit x 0 \<or> n = 11 \<and> bit x (Suc 0)"
  "x \<le> 3 \<Longrightarrow> bit (x * DMA_CFGR1_PL_0) n \<longleftrightarrow> n = 12 \<and> bit x 0 \<or> n = 13 \<and> bit x (Suc 0)"
  using field2_bit [of x 8 n] field2_bit [of x 10 n] field2_bit [of x 12 n]
  by (simp_all add: dma_flag_values(13-15))

text \<open>Every bit of the configuration word, from the request.\<close>

lemma cfgr_sizes_bit:
  assumes "source_data_size c = dest_data_size c"
  shows "bit (dma_cfg_sizes c b) n \<longleftrightarrow>
    n = 6 \<and> (if channel_direction c = MEMORY_TO_PERIPHERAL then dest_addr_adj b else source_addr_adj b)
              = DMA_ADDR_ADJ_INCREMENT \<or>
    n = 7 \<and> (if channel_direction c = MEMORY_TO_PERIPHERAL then source_addr_adj b else dest_addr_adj b)
              = DMA_ADDR_ADJ_INCREMENT \<or>
    (n = 8 \<or> n = 10) \<and> bit (ucast (dma_wch_width_index (source_data_size c)) :: u32) 0 \<or>
    (n = 9 \<or> n = 11) \<and> bit (ucast (dma_wch_width_index (source_data_size c)) :: u32) (Suc 0)"
  using width_index_le [of "dest_data_size c"] assms
  by (simp add: dma_cfg_sizes_def wch_bits) blast

lemma cfgr_bit:
  assumes "channel_priority c \<le> 3" "dma_cfg_direction c b = Inr (dirbits, pa, ma)"
  shows "bit (dma_cfg_cfgr dirbits c b) n \<longleftrightarrow>
    n = 1 \<or> n = 3 \<or>
    n = 2 \<and> dma_callback c \<noteq> None \<and> half_complete_callback_en c \<or>
    n = 4 \<and> channel_direction c = MEMORY_TO_PERIPHERAL \<or>
    n = 5 \<and> cyclic c \<or>
    n = 14 \<and> channel_direction c = MEMORY_TO_MEMORY \<or>
    n = 12 \<and> bit (channel_priority c) 0 \<or> n = 13 \<and> bit (channel_priority c) (Suc 0) \<or>
    bit (dma_cfg_sizes c b) n"
proof -
  have d: "bit dirbits n \<longleftrightarrow> n = 4 \<and> channel_direction c = MEMORY_TO_PERIPHERAL \<or>
      n = 14 \<and> channel_direction c = MEMORY_TO_MEMORY"
    using assms(2) by (auto simp: dma_cfg_direction_def wch_bits
        split: dma_channel_direction.splits if_splits)
  show ?thesis
    using assms(1) by (simp add: dma_cfg_cfgr_def wch_bits d) blast
qed

section \<open>Successful configuration\<close>

lemma config_Ok_D:
  assumes "dma_wf C d" "dma_wch_config C ch (Some c) d = (Ok, d')"
  obtains b dirbits pa ma where
    "head_block c = Some b" "ch < num_channels C" "dma_request_ok c b" "\<not> dma_wch_busy d ch"
    "dma_cfg_direction c b = Inr (dirbits, pa, ma)"
    "reg d' ch = (reg d ch)\<lparr>PADDR := pa, MADDR := ma,
       CNTR := block_size b div source_data_size c, CFGR := dma_cfg_cfgr dirbits c b\<rparr>"
    "chan d' ch = \<lparr>user_data = cfg_user_data c, dma_cb = dma_callback c,
       ch_state = DMA_WCH_CONFIGURED, ch_length = block_size b,
       width = ucast (source_data_size c), error_callback_dis = cfg_error_callback_dis c\<rparr>"
    "dma_wch_get_ip d' ch = 0"
proof -
  have ok: "fst (dma_wch_config C ch (Some c) d) = Ok" using assms(2) by simp
  then obtain b where b: "head_block c = Some b" "ch < num_channels C" "dma_request_ok c b"
      "\<not> dma_wch_busy d ch" by (auto simp: config_Ok_iff)
  then obtain dirbits pa ma where dir: "dma_cfg_direction c b = Inr (dirbits, pa, ma)"
    by (auto simp: dma_request_ok_def)
  note bounds = dma_wf_bounds [OF assms(1) b(2)]
  have d': "d' = snd (dma_wch_config C ch (Some c) d)" using assms(2) by simp
  show thesis
    by (rule that [OF b dir]; use b dir bounds in \<open>simp add: d' dma_wch_config_def
        dma_request_ok_def Let_def get_ip_clear_flags\<close>)
qed

lemma unat_width_cast:
  "w = 1 \<or> w = 2 \<or> w = 4 \<Longrightarrow> unat (ucast w :: u8) = unat w \<and> (ucast (ucast w :: u8) :: u32) = w"
  for w :: u32
  by auto

text \<open>The counter and the length agree: the CNTR elements are exactly the block.\<close>

lemma config_counter:
  assumes "dma_request_ok c b"
  shows "unat (block_size b div source_data_size c) * unat (source_data_size c) = unat (block_size b)"
    and "1 \<le> unat (block_size b div source_data_size c)"
    and "unat (block_size b div source_data_size c) \<le> 65535"
proof -
  show a: "unat (block_size b div source_data_size c) * unat (source_data_size c)
      = unat (block_size b)"
    using request_ok_block [OF assms] by (simp add: unat_div)
  show "unat (block_size b div source_data_size c) \<le> 65535"
    using request_ok_block [OF assms] by (simp add: unat_div)
  have "unat (block_size b) \<noteq> 0" using request_ok_block [OF assms] by (simp add: unat_eq_zero)
  with a show "1 \<le> unat (block_size b div source_data_size c)"
    by (metis One_nat_def Suc_leI gr0I mult_0)
qed

lemma config_chan_ok:
  assumes "dma_wf C d" "dma_wch_config C ch (Some c) d = (Ok, d')"
  shows "chan_ok (reg d' ch) (chan d' ch)"
proof -
  from assms obtain b dirbits pa ma where st:
    "dma_request_ok c b" "dma_cfg_direction c b = Inr (dirbits, pa, ma)"
    "CFGR (reg d' ch) = dma_cfg_cfgr dirbits c b"
    "CNTR (reg d' ch) = block_size b div source_data_size c"
    "ch_state (chan d' ch) = DMA_WCH_CONFIGURED" "ch_length (chan d' ch) = block_size b"
    "width (chan d' ch) = ucast (source_data_size c)"
    by (rule config_Ok_D) simp
  note w = request_ok_width [OF st(1)]
  have pr: "channel_priority c \<le> 3"
    using st(1) by (simp add: dma_request_ok_def dma_cfg_bad_mode_def not_less)
  have m2m: "channel_direction c = MEMORY_TO_MEMORY \<Longrightarrow> \<not> cyclic c"
    using st(2) by (auto simp: dma_cfg_direction_def split: if_splits)
  have uw: "unat (ucast (source_data_size c) :: u8) = unat (source_data_size c)"
    using unat_width_cast w by blast
  show ?thesis
    unfolding chan_ok_def st uw
    using w request_ok_block [OF st(1)] config_counter(1) [OF st(1)] m2m
    by (auto simp: wch_bits cfgr_bit [OF pr st(2)] cfgr_sizes_bit)
qed

section \<open>Every operation keeps the invariant\<close>

lemma chan_ok_enable:
  "chan_ok r k \<Longrightarrow> ch_state k \<noteq> DMA_WCH_UNCONFIGURED \<Longrightarrow>
   chan_ok (r\<lparr>CFGR := CFGR r OR DMA_CFGR1_EN\<rparr>) (k\<lparr>ch_state := DMA_WCH_RUNNING\<rparr>)"
  by (simp add: chan_ok_def wch_bits)

lemma chan_ok_disable:
  "chan_ok r k \<Longrightarrow> ch_state k \<noteq> DMA_WCH_UNCONFIGURED \<Longrightarrow>
   st = DMA_WCH_CONFIGURED \<or> st = DMA_WCH_SUSPENDED \<Longrightarrow>
   chan_ok (r\<lparr>CFGR := CFGR r AND NOT DMA_CFGR1_EN\<rparr>) (k\<lparr>ch_state := st\<rparr>)"
  by (auto simp: chan_ok_def wch_bits)

lemma chan_ok_stop_unconfigured:
  "ch_state k = DMA_WCH_UNCONFIGURED \<Longrightarrow> chan_ok (r\<lparr>CFGR := CFGR r AND NOT DMA_CFGR1_EN\<rparr>) k"
  by (simp add: chan_ok_def wch_bits)

lemma chan_ok_zero: "chan_ok (r\<lparr>CFGR := 0\<rparr>) zero_channel"
  by (simp add: chan_ok_def zero_channel_def wch_bits)

lemma config_inv:
  assumes "dma_inv C d" "dma_wch_config C ch c d = (r, d')"
  shows "dma_inv C d'"
proof (cases r)
  case (Inl e)
  then show ?thesis using assms config_Err_unchanged by metis
next
  case (Inr u)
  then obtain c' where "c = Some c'"
    using assms(2) by (cases c) (simp_all add: dma_wch_config_def)
  with assms Inr show ?thesis
    by (auto intro: dma_inv_only_chan config_only_chan config_chan_ok dest: dma_inv_wf)
qed

lemma reload_width_ok:
  assumes "chan_ok r k" "ch_state k \<noteq> DMA_WCH_UNCONFIGURED"
    and "sz \<noteq> 0" "sz mod ucast (width k) = 0" "\<not> sz div ucast (width k) > DMA_WCH_MAX_BLOCK"
  shows "chan_ok (r\<lparr>MADDR := ma, PADDR := pa, CNTR := sz div ucast (width k)\<rparr>) (k\<lparr>ch_length := sz\<rparr>)"
proof -
  have w: "width k = 1 \<or> width k = 2 \<or> width k = 4"
    using assms(1,2) by (simp add: chan_ok_def)
  then have uw: "unat (ucast (width k) :: u32) = unat (width k)" by auto
  have "unat (width k) dvd unat sz" using assms(4) uw by (simp only: word_mod_eq_0_iff)
  moreover have "unat sz div unat (width k) \<le> 65535"
    using assms(5) uw by (simp add: DMA_WCH_MAX_BLOCK_def not_less word_le_nat_alt unat_div)
  ultimately show ?thesis
    using assms(1-3) uw by (simp add: chan_ok_def unat_div)
qed

lemma reload_inv:
  assumes "dma_inv C d" "dma_wch_reload C ch src dst sz d = (r, d')"
  shows "dma_inv C d'"
proof (rule dma_inv_only_chan [OF assms(1) reload_only_chan [OF dma_inv_wf [OF assms(1)] assms(2)]])
  assume ch: "ch < num_channels C"
  note ok = dma_inv_chan [OF assms(1) ch] and b = dma_wf_bounds [OF dma_inv_wf [OF assms(1)] ch]
  show "chan_ok (reg d' ch) (chan d' ch)"
    using assms(2) ok b
    by (auto simp: dma_wch_reload_def Let_def reload_width_ok
        split: if_splits prod.splits del: mod_0_imp_dvd)
qed

lemma control_inv:
  assumes "dma_inv C d"
  shows "dma_wch_start C ch d = (r, d') \<Longrightarrow> dma_inv C d'"
    and "dma_wch_stop C ch d = (r, d') \<Longrightarrow> dma_inv C d'"
    and "dma_wch_resume C ch d = (r, d') \<Longrightarrow> dma_inv C d'"
    and "dma_wch_suspend C ch d = (r, d') \<Longrightarrow> dma_inv C d'"
    and "dma_inv C (dma_wch_chan_release C ch d)"
proof -
  note wf = dma_inv_wf [OF assms] and fr = control_only_chan [OF dma_inv_wf [OF assms], of ch]
  have ok: "ch < num_channels C \<Longrightarrow> chan_ok (reg d ch) (chan d ch)"
    using dma_inv_chan [OF assms] by simp
  note rule = dma_inv_only_chan [OF assms]
  note rules = chan_ok_enable chan_ok_disable chan_ok_stop_unconfigured chan_ok_zero
  show "dma_wch_start C ch d = (r, d') \<Longrightarrow> dma_inv C d'"
    using fr(1) ok dma_wf_bounds [OF wf, of ch]
    by (intro rule [of ch d']) (auto simp: dma_wch_start_def rules split: if_splits)
  show "dma_wch_stop C ch d = (r, d') \<Longrightarrow> dma_inv C d'"
    using fr(2) ok dma_wf_bounds [OF wf, of ch]
    by (intro rule [of ch d']) (auto simp: dma_wch_stop_def Let_def rules split: if_splits)
  show "dma_wch_resume C ch d = (r, d') \<Longrightarrow> dma_inv C d'"
    using fr(3) ok dma_wf_bounds [OF wf, of ch]
    by (intro rule [of ch d']) (auto simp: dma_wch_resume_def rules split: if_splits)
  show "dma_wch_suspend C ch d = (r, d') \<Longrightarrow> dma_inv C d'"
    using fr(4) ok dma_wf_bounds [OF wf, of ch]
    by (intro rule [of ch d']) (auto simp: dma_wch_suspend_def rules split: if_splits)
  show "dma_inv C (dma_wch_chan_release C ch d)"
    using fr(5) dma_wf_bounds [OF wf, of ch]
    by (intro rule [of ch]) (auto simp: dma_wch_chan_release_def rules)
qed

lemma isr_inv:
  assumes "dma_inv C d" "ch < num_channels C" "dma_wch_isr ch d = (d', call)"
  shows "dma_inv C d'"
proof -
  note b = dma_wf_bounds [OF dma_inv_wf [OF assms(1)] assms(2)] and ok = dma_inv_chan [OF assms(1,2)]
  have "chan_ok (reg d' ch) (chan d' ch)"
    using assms(3) b ok
    by (auto simp: dma_wch_isr_def Let_def dma_isr_disable_def chan_ok_disable split: if_splits)
  then show ?thesis
    using dma_inv_only_chan [OF assms(1) isr_only_chan [OF b(1) assms(3)]] by simp
qed

lemma init_loop:
  "n \<le> length (chan_regs d) \<Longrightarrow>
   let d' = fold (\<lambda>ch e. dma_wch_clear_flags ch (upd_reg ch (\<lambda>r. r\<lparr>CFGR := 0\<rparr>) e)) [0..<n] d
   in length (chan_regs d') = length (chan_regs d) \<and> channels d' = channels d \<and>
      (\<forall>c. CFGR (reg d' c) = (if c < n then 0 else CFGR (reg d c)))"
  by (induction n) (auto simp: Let_def less_Suc_eq)

lemma init_inv:
  assumes "length (chan_regs d) = DMA_WCH_MAX_CHAN" "channels d = replicate (num_channels C) zero_channel"
    and "dma_wch_init C ready clk d = (Ok, d')"
  shows "dma_inv C d'"
  using assms init_loop [of "num_channels C" d]
  by (auto simp: dma_wch_init_def dma_inv_def dma_wf_def dma_wch_irq_config_def Let_def chan_ok_def
      zero_channel_def wch_bits split: if_splits)

section \<open>The controller as a transition system\<close>

text \<open>Hardware progress on a channel: the counter moves (down, or anywhere within the block for a
  circular channel) and flags \<open>f\<close> of the channel are raised.  A disabled channel does not move.\<close>

definition dma_raise :: "nat \<Rightarrow> u32 \<Rightarrow> dma_dev \<Rightarrow> dma_dev" where
  "dma_raise ch f d =
     (if ch < DMA_WCH_MAX_CHAN_BASE
      then d\<lparr>base_bank := (base_bank d)\<lparr>INTFR := INTFR (base_bank d) OR push_bit (DMA_WCH_IF_OFF ch) (f AND DMA_WCH_AIF)\<rparr>\<rparr>
      else d\<lparr>ext_bank := (ext_bank d)\<lparr>INTFR := INTFR (ext_bank d) OR
             push_bit (DMA_WCH_IF_OFF (ch - DMA_WCH_MAX_CHAN_BASE)) (f AND DMA_WCH_AIF)\<rparr>\<rparr>)"

definition dma_can_count :: "nat \<Rightarrow> u32 \<Rightarrow> dma_dev \<Rightarrow> bool" where
  "dma_can_count ch n d \<longleftrightarrow>
     has (CFGR (reg d ch)) DMA_CFGR1_EN \<and>
     (if has (CFGR (reg d ch)) DMA_CFGR1_CIRC
      then unat n * unat (width (chan d ch)) \<le> unat (ch_length (chan d ch))
      else n \<le> CNTR (reg d ch))"

inductive dma_hw :: "dma_wch_cfg \<Rightarrow> dma_dev \<Rightarrow> dma_dev \<Rightarrow> bool" for C where
  hw_count: "ch < num_channels C \<Longrightarrow> dma_can_count ch n d \<Longrightarrow>
     dma_hw C d (dma_raise ch f (upd_reg ch (\<lambda>r. r\<lparr>CNTR := n\<rparr>) d))"
| hw_flags: "ch < num_channels C \<Longrightarrow> dma_hw C d (dma_raise ch f d)"

inductive dma_step :: "dma_wch_cfg \<Rightarrow> dma_dev \<Rightarrow> dma_dev \<Rightarrow> bool" for C where
  st_config: "dma_wch_config C ch c d = (r, d') \<Longrightarrow> dma_step C d d'"
| st_reload: "dma_wch_reload C ch src dst sz d = (r, d') \<Longrightarrow> dma_step C d d'"
| st_start: "dma_wch_start C ch d = (r, d') \<Longrightarrow> dma_step C d d'"
| st_stop: "dma_wch_stop C ch d = (r, d') \<Longrightarrow> dma_step C d d'"
| st_resume: "dma_wch_resume C ch d = (r, d') \<Longrightarrow> dma_step C d d'"
| st_suspend: "dma_wch_suspend C ch d = (r, d') \<Longrightarrow> dma_step C d d'"
| st_release: "dma_step C d (dma_wch_chan_release C ch d)"
| st_isr: "ch < num_channels C \<Longrightarrow> dma_wch_isr ch d = (d', call) \<Longrightarrow> dma_step C d d'"
| st_hw: "dma_hw C d d' \<Longrightarrow> dma_step C d d'"

inductive dma_reachable :: "dma_wch_cfg \<Rightarrow> dma_dev \<Rightarrow> bool" for C where
  re_init: "length (chan_regs d) = DMA_WCH_MAX_CHAN \<Longrightarrow>
     channels d = replicate (num_channels C) zero_channel \<Longrightarrow>
     dma_wch_init C ready clk d = (Ok, d') \<Longrightarrow> dma_reachable C d'"
| re_step: "dma_reachable C d \<Longrightarrow> dma_step C d d' \<Longrightarrow> dma_reachable C d'"

inductive_cases dma_hw_cases: "dma_hw C d d'"

lemma raise_frame [simp]:
  "channels (dma_raise ch f d) = channels d" "chan_regs (dma_raise ch f d) = chan_regs d"
  "irqs_enabled (dma_raise ch f d) = irqs_enabled d"
  by (simp_all add: dma_raise_def)

lemma raise_inv: "dma_inv C d \<Longrightarrow> dma_inv C (dma_raise ch f d)"
  by (simp add: dma_inv_def dma_wf_def)

lemma count_inv:
  assumes "dma_inv C d" "ch < num_channels C" "dma_can_count ch n d"
  shows "dma_inv C (upd_reg ch (\<lambda>r. r\<lparr>CNTR := n\<rparr>) d)"
proof (rule dma_inv_only_chan [OF assms(1), of ch])
  note ok = dma_inv_chan [OF assms(1,2)] and b = dma_wf_bounds [OF dma_inv_wf [OF assms(1)] assms(2)]
  have "unat n * unat (width (chan d ch)) \<le> unat (ch_length (chan d ch))"
    using assms(3) ok mult_le_mono1 [of "unat n" "unat (CNTR (reg d ch))" "unat (width (chan d ch))"]
    by (auto simp: dma_can_count_def chan_ok_def word_le_nat_alt split: if_splits)
  then show "chan_ok (reg (upd_reg ch (\<lambda>r. r\<lparr>CNTR := n\<rparr>) d) ch) (chan (upd_reg ch (\<lambda>r. r\<lparr>CNTR := n\<rparr>) d) ch)"
    using ok b by (simp add: chan_ok_def)
qed (auto intro: only_chan_intros)

lemma hw_inv: "dma_inv C d \<Longrightarrow> dma_hw C d d' \<Longrightarrow> dma_inv C d'"
  by (erule dma_hw_cases) (auto intro: raise_inv count_inv)

lemma step_inv: "dma_step C d d' \<Longrightarrow> dma_inv C d \<Longrightarrow> dma_inv C d'"
  by (induction rule: dma_step.induct)
    (blast intro: config_inv reload_inv control_inv isr_inv hw_inv)+

section \<open>Properties of the driver\<close>

text \<open>
  (C8) In every reachable state, whatever the interleaving of API calls, channel interrupts
  and hardware progress: each channel's EN bit is set exactly when the driver has it
  RUNNING, and a configured channel has a width of 1, 2 or 4 bytes, a nonzero length that
  is a multiple of it, and a counter worth at most that length.
\<close>

theorem dma_reachable_inv: "dma_reachable C d \<Longrightarrow> dma_inv C d"
proof (induction rule: dma_reachable.induct)
  case (re_init d ready clk d')
  then show ?case by (rule init_inv)
next
  case (re_step d d')
  then show ?case by (blast intro: step_inv)
qed

definition demo_cfg :: dma_wch_cfg where
  "demo_cfg = \<lparr>num_channels = 7\<rparr>"

definition demo_dev :: dma_dev where
  "demo_dev = \<lparr>base_bank = \<lparr>INTFR = 0, INTFCR = 0\<rparr>, ext_bank = \<lparr>INTFR = 0, INTFCR = 0\<rparr>,
     chan_regs = replicate 11 \<lparr>CFGR = 0, CNTR = 0, PADDR = 0, MADDR = 0\<rparr>,
     channels = replicate 7 zero_channel, irqs_enabled = []\<rparr>"

definition demo_block :: dma_block_config where
  "demo_block = \<lparr>source_address = 0x20000100, dest_address = 0x40013804, block_size = 128,
     next_block = False, source_gather_en = False, dest_scatter_en = False,
     source_addr_adj = DMA_ADDR_ADJ_INCREMENT, dest_addr_adj = DMA_ADDR_ADJ_NO_CHANGE,
     source_reload_en = False, dest_reload_en = False, fifo_mode_control = 0,
     flow_control_mode = False\<rparr>"

definition demo_request :: dma_config where
  "demo_request = \<lparr>dma_slot = 0, channel_direction = MEMORY_TO_PERIPHERAL,
     half_complete_callback_en = False, cfg_error_callback_dis = False, source_handshake = False,
     dest_handshake = False, channel_priority = 0, source_chaining_en = False,
     dest_chaining_en = False, cyclic = False, source_data_size = 1, dest_data_size = 1,
     source_burst_length = 0, dest_burst_length = 0, block_count = 1,
     head_block = Some demo_block, cfg_user_data = 0x20000000,
     dma_callback = Some Usart_wch_tx_dma_callback\<rparr>"

lemma demo_reachable: "dma_reachable demo_cfg (snd (dma_wch_init demo_cfg True 0 demo_dev))"
proof (rule dma_reachable.re_init)
  show "dma_wch_init demo_cfg True 0 demo_dev = (Ok, snd (dma_wch_init demo_cfg True 0 demo_dev))"
    by (simp add: dma_wch_init_def demo_cfg_def DMA_WCH_MAX_CHAN_def Let_def)
qed (simp_all add: demo_dev_def demo_cfg_def DMA_WCH_MAX_CHAN_def)

theorem dma_reachable_inv_witness: "dma_inv demo_cfg (snd (dma_wch_init demo_cfg True 0 demo_dev))"
  by (rule dma_reachable_inv [OF demo_reachable])

text \<open>
  The transfer contract of \<^verbatim>\<open>docs/dma-driver.md\<close>, in numbers of bytes and elements: one block
  and none of the optional features; equal element sizes of one, two or four bytes with bursts of
  nothing or one element; 1 to 65535 whole elements at aligned addresses; one of four
  priorities, addresses that advance or stay, and no circular memory copy.
\<close>

definition single_block :: "dma_config \<Rightarrow> dma_block_config \<Rightarrow> bool" where
  "single_block c b \<longleftrightarrow> unat (block_count c) = 1 \<and> unat (dma_slot c) = 0 \<and> fifo_mode_control b = 0 \<and>
     True \<notin> {next_block b, source_chaining_en c, dest_chaining_en c, source_handshake c, dest_handshake c, flow_control_mode b}"

definition element_sizes :: "dma_config \<Rightarrow> bool" where
  "element_sizes c \<longleftrightarrow> (\<exists>k \<le> 2. unat (source_data_size c) = 2 ^ k \<and> unat (dest_data_size c) = 2 ^ k \<and>
     {unat (source_burst_length c), unat (dest_burst_length c)} \<subseteq> {0, 2 ^ k})"

definition whole_elements :: "dma_config \<Rightarrow> dma_block_config \<Rightarrow> bool" where
  "whole_elements c b \<longleftrightarrow> (\<exists>n \<in> {1..65535}. unat (block_size b) = n * unat (source_data_size c)) \<and>
     unat (source_data_size c) dvd unat (source_address b) \<and> unat (source_data_size c) dvd unat (dest_address b)"

definition plain_mode :: "dma_config \<Rightarrow> dma_block_config \<Rightarrow> bool" where
  "plain_mode c b \<longleftrightarrow> unat (channel_priority c) < 4 \<and>
     {source_addr_adj b, dest_addr_adj b} \<subseteq> {DMA_ADDR_ADJ_INCREMENT, DMA_ADDR_ADJ_NO_CHANGE} \<and>
     True \<notin> {source_gather_en b, dest_scatter_en b, source_reload_en b, dest_reload_en b} \<and>
     (channel_direction c = MEMORY_TO_MEMORY \<and> \<not> cyclic c \<or>
      channel_direction c \<in> {MEMORY_TO_PERIPHERAL, PERIPHERAL_TO_MEMORY})"

lemma unat_small: "unat (x :: u32) = Suc 0 \<longleftrightarrow> x = 1" "unat x = 2 \<longleftrightarrow> x = 2" "unat x = 4 \<longleftrightarrow> x = 4"
  by (auto simp: word_unat_eq_iff)

lemma single_block_iff: "dma_cfg_unsupported c b \<longleftrightarrow> \<not> single_block c b"
  by (auto simp: dma_cfg_unsupported_def single_block_def unat_small unat_eq_zero)

lemma element_sizes_iff: "dma_cfg_bad_width c \<longleftrightarrow> \<not> element_sizes c"
proof -
  have two: "k \<le> 2 \<longleftrightarrow> k = 0 \<or> k = 1 \<or> k = 2" for k :: nat by arith
  have k: "(\<exists>k \<le> 2. P (2 ^ k)) \<longleftrightarrow> P 1 \<or> P 2 \<or> P 4" for P :: "nat \<Rightarrow> bool"
    by (simp add: two conj_disj_distribR ex_disj_distrib)
  let ?R = "\<lambda>w. unat (source_data_size c) = w \<and> unat (dest_data_size c) = w \<and>
      {unat (source_burst_length c), unat (dest_burst_length c)} \<subseteq> {0, w}"
  let ?W = "\<lambda>v. source_data_size c = v \<and> dest_data_size c = v \<and>
      (source_burst_length c = 0 \<or> source_burst_length c = v) \<and> (dest_burst_length c = 0 \<or> dest_burst_length c = v)"
  have "?R 1 \<longleftrightarrow> ?W 1" "?R 2 \<longleftrightarrow> ?W 2" "?R 4 \<longleftrightarrow> ?W 4" by (simp_all add: unat_small unat_eq_zero)
  then have e: "element_sizes c \<longleftrightarrow> ?W 1 \<or> ?W 2 \<or> ?W 4" unfolding element_sizes_def k [of ?R] by (simp only:)
  consider "source_data_size c = 1" | "source_data_size c = 2" | "source_data_size c = 4" | "source_data_size c \<notin> {1, 2, 4}"
    by blast
  then show ?thesis by cases (auto simp: e dma_cfg_bad_width_def)
qed

lemma whole_elements_iff:
  assumes "element_sizes c"
  shows "dma_cfg_bad_block (source_data_size c) b \<longleftrightarrow> \<not> whole_elements c b"
proof -
  let ?w = "unat (source_data_size c)" and ?n = "unat (block_size b)"
  have w: "0 < ?w" using assms by (auto simp: element_sizes_def)
  have d: "x mod source_data_size c = 0 \<longleftrightarrow> ?w dvd unat x" for x
    by (metis dvd_eq_mod_eq_0 unat_eq_zero unat_mod)
  have m: "block_size b div source_data_size c > DMA_WCH_MAX_BLOCK \<longleftrightarrow> ?n div ?w > 65535"
    by (simp add: word_less_nat_alt unat_div DMA_WCH_MAX_BLOCK_def)
  have "(\<exists>n \<in> {1..65535}. ?n = n * ?w) \<longleftrightarrow> ?n \<noteq> 0 \<and> ?w dvd ?n \<and> ?n div ?w \<le> 65535"
    using w by (auto simp: dvd_def Suc_le_eq mult.commute)
  then show ?thesis unfolding dma_cfg_bad_block_def whole_elements_def m d by (auto simp: unat_eq_zero)
qed

lemma plain_mode_iff:
  "plain_mode c b \<longleftrightarrow> \<not> dma_cfg_bad_mode c b \<and> (\<exists>x. dma_cfg_direction c b = Inr x)"
  "dma_cfg_direction c b = Inl e \<Longrightarrow> e = ENOTSUP"
proof -
  have "channel_priority c > 3 \<longleftrightarrow> \<not> unat (channel_priority c) < 4" by (auto simp: word_less_nat_alt)
  then show "plain_mode c b \<longleftrightarrow> \<not> dma_cfg_bad_mode c b \<and> (\<exists>x. dma_cfg_direction c b = Inr x)"
    by (auto simp: plain_mode_def dma_cfg_bad_mode_def dma_cfg_direction_def split: dma_channel_direction.splits)
  show "dma_cfg_direction c b = Inl e \<Longrightarrow> e = ENOTSUP"
    by (auto simp: dma_cfg_direction_def split: dma_channel_direction.splits if_splits)
qed

text \<open>
  (C36) The result of a configuration request, against the driver's transfer contract: a channel out
  of range or a missing block is \<^verbatim>\<open>-EINVAL\<close>; then more than one plain block or unequal or odd element
  sizes are \<^verbatim>\<open>-ENOTSUP\<close>; then a length that is not 1 to 65535 whole elements or an unaligned address
  is \<^verbatim>\<open>-EINVAL\<close>; then a mode outside the contract is \<^verbatim>\<open>-ENOTSUP\<close>; a request within the contract is
  \<^verbatim>\<open>-EBUSY\<close> on a channel that runs or is suspended, and succeeds on any other.  A refused request
  changes nothing.
\<close>

theorem dma_wch_config_outcome:
  "fst (dma_wch_config C ch req d) =
     (case req of None \<Rightarrow> Err EINVAL
      | Some c \<Rightarrow> (case head_block c of None \<Rightarrow> Err EINVAL
        | Some b \<Rightarrow> if \<not> ch < num_channels C then Err EINVAL
            else if \<not> (single_block c b \<and> element_sizes c) then Err ENOTSUP
            else if \<not> whole_elements c b then Err EINVAL
            else if \<not> plain_mode c b then Err ENOTSUP
            else if ch_state (chan d ch) \<in> {DMA_WCH_RUNNING, DMA_WCH_SUSPENDED} then Err EBUSY else Ok)) \<and>
   (fst (dma_wch_config C ch req d) \<noteq> Ok \<longrightarrow> snd (dma_wch_config C ch req d) = d)"
proof
  show "fst (dma_wch_config C ch req d) =
     (case req of None \<Rightarrow> Err EINVAL
      | Some c \<Rightarrow> (case head_block c of None \<Rightarrow> Err EINVAL
        | Some b \<Rightarrow> if \<not> ch < num_channels C then Err EINVAL
            else if \<not> (single_block c b \<and> element_sizes c) then Err ENOTSUP
            else if \<not> whole_elements c b then Err EINVAL
            else if \<not> plain_mode c b then Err ENOTSUP
            else if ch_state (chan d ch) \<in> {DMA_WCH_RUNNING, DMA_WCH_SUSPENDED} then Err EBUSY else Ok))"
    by (auto simp: dma_wch_config_def single_block_iff element_sizes_iff whole_elements_iff plain_mode_iff dma_wch_busy_def
        Let_def split: option.splits sum.splits)
  obtain r d' where r: "dma_wch_config C ch req d = (r, d')" by fastforce
  then show "fst (dma_wch_config C ch req d) \<noteq> Ok \<longrightarrow> snd (dma_wch_config C ch req d) = d"
    using config_Err_unchanged by (cases r) auto
qed

text \<open>The demo request is accepted; with a priority, an address or a length outside the contract, or
  on a suspended channel, it is refused.\<close>

theorem dma_wch_config_outcome_witness:
  "fst (dma_wch_config demo_cfg 3 (Some demo_request) demo_dev) = Ok \<and>
   dma_wch_config demo_cfg 3 (Some (demo_request\<lparr>channel_priority := 4\<rparr>)) demo_dev = (Err ENOTSUP, demo_dev) \<and>
   dma_wch_config demo_cfg 3 (Some (demo_request\<lparr>source_data_size := 2, dest_data_size := 2,
     head_block := Some (demo_block\<lparr>dest_address := 1\<rparr>)\<rparr>)) demo_dev = (Err EINVAL, demo_dev) \<and>
   dma_wch_config demo_cfg 3 (Some (demo_request\<lparr>head_block := Some (demo_block\<lparr>block_size := 65536\<rparr>)\<rparr>)) demo_dev
     = (Err EINVAL, demo_dev) \<and>
   fst (dma_wch_config demo_cfg 3 (Some demo_request) (upd_chan 3 (\<lambda>k. k\<lparr>ch_state := DMA_WCH_SUSPENDED\<rparr>) demo_dev)) = Err EBUSY"
proof -
  let ?p = "demo_request\<lparr>channel_priority := 4\<rparr>" and ?b = "demo_block\<lparr>dest_address := 1\<rparr>"
    and ?l = "demo_block\<lparr>block_size := 65536\<rparr>"
  let ?a = "demo_request\<lparr>source_data_size := 2, dest_data_size := 2, head_block := Some ?b\<rparr>"
    and ?q = "demo_request\<lparr>head_block := Some ?l\<rparr>"
  let ?d = "upd_chan 3 (\<lambda>k. k\<lparr>ch_state := DMA_WCH_SUSPENDED\<rparr>) demo_dev"
  note run = dma_wch_config_outcome [of demo_cfg 3]
  have e: "element_sizes demo_request" "element_sizes ?p" "element_sizes ?q"
    unfolding element_sizes_def by (rule exI [of _ 0], simp add: demo_request_def)+
  have e2: "element_sizes ?a"
    unfolding element_sizes_def by (rule exI [of _ 1]) (simp add: demo_request_def)
  have s: "single_block demo_request demo_block" "single_block ?p demo_block" "single_block ?q ?l" "single_block ?a ?b"
    by (simp_all add: single_block_def demo_request_def demo_block_def)
  have w: "whole_elements demo_request demo_block" "whole_elements ?p demo_block" "\<not> whole_elements ?q ?l" "\<not> whole_elements ?a ?b"
    by (simp_all add: whole_elements_def demo_request_def demo_block_def)
  have m: "plain_mode demo_request demo_block" "\<not> plain_mode ?p demo_block"
    by (simp_all add: plain_mode_def demo_request_def demo_block_def)
  have h: "head_block demo_request = Some demo_block" "head_block ?p = Some demo_block" by (simp_all add: demo_request_def)
  have d: "3 < num_channels demo_cfg" "ch_state (chan demo_dev 3) = DMA_WCH_UNCONFIGURED"
    "ch_state (chan ?d 3) = DMA_WCH_SUSPENDED" by (simp_all add: upd_chan_def demo_cfg_def demo_dev_def zero_channel_def)
  show ?thesis
    using run [of "Some demo_request" demo_dev] run [of "Some ?p" demo_dev] run [of "Some ?a" demo_dev] run [of "Some ?q" demo_dev]
      run [of "Some demo_request" ?d]
    by (simp add: e e2 s w m h d prod_eq_iff)
qed

text \<open>
  (C10) What a successful configuration programs: reading the channel's CFGR back field by
  field gives the request (direction, circular mode, priority, both element sizes, the
  memory- and peripheral-side increments, the interrupt enables) with the channel still
  disabled, the counter is the number of elements (1 to 65535) and makes up exactly the
  requested bytes, and no flag of the channel is pending.
\<close>

theorem dma_wch_config_programs_request:
  assumes wf: "dma_wf C d" and ok: "dma_wch_config C ch (Some c) d = (Ok, d')"
    and hb: "head_block c = Some b"
  shows "let v = CFGR (reg d' ch); n = CNTR (reg d' ch); m2p = channel_direction c = MEMORY_TO_PERIPHERAL
     in \<not> has v DMA_CFGR1_EN \<and> has v DMA_CFGR1_TCIE \<and> has v DMA_CFGR1_TEIE \<and>
        (has v DMA_CFGR1_HTIE \<longleftrightarrow> dma_callback c \<noteq> None \<and> half_complete_callback_en c) \<and>
        (has v DMA_CFGR1_DIR \<longleftrightarrow> m2p) \<and>
        (has v DMA_CFGR1_MEM2MEM \<longleftrightarrow> channel_direction c = MEMORY_TO_MEMORY) \<and>
        (has v DMA_CFGR1_CIRC \<longleftrightarrow> cyclic c) \<and>
        drop_bit 12 v AND 3 = channel_priority c \<and>
        2 ^ unat (drop_bit 8 v AND 3) = unat (source_data_size c) \<and>
        2 ^ unat (drop_bit 10 v AND 3) = unat (source_data_size c) \<and>
        (has v DMA_CFGR1_PINC \<longleftrightarrow>
           (if m2p then dest_addr_adj b else source_addr_adj b) = DMA_ADDR_ADJ_INCREMENT) \<and>
        (has v DMA_CFGR1_MINC \<longleftrightarrow>
           (if m2p then source_addr_adj b else dest_addr_adj b) = DMA_ADDR_ADJ_INCREMENT) \<and>
        1 \<le> unat n \<and> unat n \<le> 65535 \<and> unat n * unat (source_data_size c) = unat (block_size b) \<and>
        (PADDR (reg d' ch), MADDR (reg d' ch)) =
          (if m2p then (dest_address b, source_address b) else (source_address b, dest_address b)) \<and>
        ch_state (chan d' ch) = DMA_WCH_CONFIGURED \<and> dma_wch_get_ip d' ch = 0"
proof -
  from wf ok hb obtain dirbits pa ma where st:
    "dma_request_ok c b" "dma_cfg_direction c b = Inr (dirbits, pa, ma)"
    "CFGR (reg d' ch) = dma_cfg_cfgr dirbits c b"
    "CNTR (reg d' ch) = block_size b div source_data_size c"
    "PADDR (reg d' ch) = pa" "MADDR (reg d' ch) = ma"
    "ch_state (chan d' ch) = DMA_WCH_CONFIGURED" "dma_wch_get_ip d' ch = 0"
    by (rule_tac config_Ok_D [OF wf ok]) simp
  note w = request_ok_width [OF st(1)]
  let ?v = "dma_cfg_cfgr dirbits c b" and ?i = "ucast (dma_wch_width_index (source_data_size c)) :: u32"
  have pr: "channel_priority c \<le> 3"
    using st(1) by (simp add: dma_request_ok_def dma_cfg_bad_mode_def not_less)
  note bits = cfgr_bit [OF pr st(2)] cfgr_sizes_bit [OF w [THEN conjunct1]]
  have f: "drop_bit 12 ?v AND 3 = channel_priority c" "drop_bit 8 ?v AND 3 = ?i"
      "drop_bit 10 ?v AND 3 = ?i"
    by (rule field2_read; simp add: pr width_index_le bits)+
  have a: "(pa, ma) = (if channel_direction c = MEMORY_TO_PERIPHERAL
      then (dest_address b, source_address b) else (source_address b, dest_address b))"
    using st(2) by (auto simp: dma_cfg_direction_def split: dma_channel_direction.splits if_splits)
  show ?thesis
    unfolding Let_def st(3-8) f width_index_pow [OF w [THEN conjunct2]]
    using config_counter [OF st(1)] a by (simp add: wch_bits bits)
qed

lemma demo_wf: "dma_wf demo_cfg demo_dev"
  by (simp add: dma_wf_def demo_cfg_def demo_dev_def DMA_WCH_MAX_CHAN_def)

lemma demo_config_ok: "fst (dma_wch_config demo_cfg 3 (Some demo_request) demo_dev) = Ok"
  unfolding config_Ok_iff dma_request_ok_def
  by (simp add: demo_cfg_def demo_dev_def demo_request_def demo_block_def dma_cfg_unsupported_def
      dma_cfg_bad_width_def dma_cfg_bad_block_def dma_cfg_bad_mode_def dma_cfg_direction_def
      DMA_WCH_MAX_BLOCK_def dma_wch_busy_def zero_channel_def Let_def)

definition demo_configured :: dma_dev where
  "demo_configured = snd (dma_wch_config demo_cfg 3 (Some demo_request) demo_dev)"

lemma demo_configured_eq:
  "dma_wch_config demo_cfg 3 (Some demo_request) demo_dev = (Ok, demo_configured)"
  using demo_config_ok by (simp add: demo_configured_def prod_eq_iff)

theorem dma_wch_config_programs_request_witness:
  "dma_wf demo_cfg demo_dev \<and>
   dma_wch_config demo_cfg 3 (Some demo_request) demo_dev = (Ok, demo_configured) \<and>
   has (CFGR (reg demo_configured 3)) DMA_CFGR1_DIR \<and> unat (CNTR (reg demo_configured 3)) = 128"
proof -
  have hb: "head_block demo_request = Some demo_block" by (simp add: demo_request_def)
  show ?thesis
    using dma_wch_config_programs_request [OF demo_wf demo_configured_eq hb] demo_wf demo_configured_eq
    by (simp add: Let_def demo_request_def demo_block_def)
qed

section \<open>Interrupt service\<close>

text \<open>
  (C31) A transfer error dominates: when the interrupt of a busy channel sees TE, with or
  without TC and HT, the channel is disabled and back to CONFIGURED, and the only callback
  is the one with \<^verbatim>\<open>-EIO\<close>; it is made unless there is no callback or error
  callbacks are suppressed.  Completion is never reported for that interrupt.
\<close>

theorem dma_wch_isr_error_dominates:
  assumes wf: "dma_wf C d" and ch: "ch < num_channels C" and busy: "dma_wch_busy d ch"
    and te: "has (dma_wch_get_ip d ch) (ucast DMA_TEIF1)"
    and isr: "dma_wch_isr ch d = (d', call)"
  shows "\<not> has (CFGR (reg d' ch)) DMA_CFGR1_EN \<and> ch_state (chan d' ch) = DMA_WCH_CONFIGURED \<and>
    dma_wch_get_ip d' ch AND NOT (ucast DMA_GIF1) = 0 \<and>
    call = (if error_callback_dis (chan d ch) then None
            else map_option (\<lambda>f. \<lparr>call_cb = f, call_user = user_data (chan d ch), call_ch = ch,
                   call_status = DMA_STATUS_ERR EIO\<rparr>) (dma_cb (chan d ch)))"
proof -
  note b = dma_wf_bounds [OF wf ch]
  have ip: "dma_wch_get_ip (dma_isr_ack ch (isr_ip d ch) d) ch AND NOT (ucast DMA_GIF1) = 0"
    using isr_ip_bits [OF b(1), of d]
    by (subst get_ip_ack [OF b(1) b(1)]) (auto intro!: bit_word_eqI simp: wch_bits)
  show ?thesis
    using isr busy te b ip
    by (auto simp: dma_wch_isr_def Let_def dma_isr_disable_def dma_wch_busy_def wch_bits)
qed

definition demo_running :: "u32 \<Rightarrow> dma_dev" where
  "demo_running f = dma_raise 3 f (snd (dma_wch_start demo_cfg 3 demo_configured))"

lemma demo_configured_wf: "dma_wf demo_cfg demo_configured"
  using config_only_chan [OF demo_wf demo_configured_eq] demo_wf dma_wf_only_chan by blast

lemma demo_configured_chan:
  "chan demo_configured 3 = \<lparr>user_data = 0x20000000, dma_cb = Some Usart_wch_tx_dma_callback,
     ch_state = DMA_WCH_CONFIGURED, ch_length = 128, width = 1, error_callback_dis = False\<rparr>"
  "CNTR (reg demo_configured 3) = 128"
  by - (rule config_Ok_D [OF demo_wf demo_configured_eq];
      auto simp: demo_request_def demo_block_def)+

lemma demo_running_facts:
  "dma_wf demo_cfg (demo_running f)" "dma_wch_busy (demo_running f) 3"
  "chan (demo_running f) 3 = (chan demo_configured 3)\<lparr>ch_state := DMA_WCH_RUNNING\<rparr>"
proof -
  have n: "num_channels demo_cfg = 7" by (simp add: demo_cfg_def)
  have st: "dma_wch_start demo_cfg 3 demo_configured =
      (Ok, snd (dma_wch_start demo_cfg 3 demo_configured))"
    by (simp add: dma_wch_start_def n demo_configured_chan)
  have "dma_wf demo_cfg (snd (dma_wch_start demo_cfg 3 demo_configured))"
    using control_only_chan(1) [OF demo_configured_wf st] demo_configured_wf dma_wf_only_chan by blast
  then show wf: "dma_wf demo_cfg (demo_running f)"
    by (simp add: demo_running_def dma_wf_def)
  have b: "3 < length (channels demo_configured)"
    using demo_configured_wf n by (simp add: dma_wf_def)
  show c: "chan (demo_running f) 3 = (chan demo_configured 3)\<lparr>ch_state := DMA_WCH_RUNNING\<rparr>"
    using b by (simp add: demo_running_def dma_wch_start_def n demo_configured_chan)
  show "dma_wch_busy (demo_running f) 3"
    by (simp add: dma_wch_busy_def c)
qed

lemma raise_ip_bit:
  "ch < 16 \<Longrightarrow> bit (dma_wch_get_ip (dma_raise ch f d) ch) k \<longleftrightarrow>
     bit (dma_wch_get_ip d ch) k \<or> k < 4 \<and> bit f k"
  by (cases "k < 4")
    (auto simp: get_ip_bit dma_raise_def chan_bank_def DMA_WCH_MAX_CHAN_BASE_def
      DMA_WCH_IF_OFF_def bit_simps wch_bits mod_if dest: bit_word_less)

theorem dma_wch_isr_error_dominates_witness:
  "dma_wch_busy (demo_running 14) 3 \<and>
   ch_state (chan (fst (dma_wch_isr 3 (demo_running 14))) 3) = DMA_WCH_CONFIGURED \<and>
   map_option call_status (snd (dma_wch_isr 3 (demo_running 14))) = Some (DMA_STATUS_ERR EIO)"
proof -
  have ch: "3 < num_channels demo_cfg" by (simp add: demo_cfg_def)
  have te: "has (dma_wch_get_ip (demo_running 14) 3) (ucast DMA_TEIF1)"
    by (simp add: demo_running_def wch_bits raise_ip_bit)
  show ?thesis
    using dma_wch_isr_error_dominates [OF demo_running_facts(1) ch demo_running_facts(2) te
        surjective_pairing] demo_running_facts(2)
    by (simp add: demo_running_facts(3) demo_configured_chan(1))
qed

text \<open>
  (C32) Completion without error: a busy channel whose interrupt sees TC reports exactly one
  \<^verbatim>\<open>DMA_STATUS_COMPLETE\<close> (when it has a callback), even if HT is pending too.  A
  normal channel is disabled and back to CONFIGURED; a circular one keeps its registers
  and stays as it was.
\<close>

theorem dma_wch_isr_completion:
  assumes inv: "dma_inv C d" and ch: "ch < num_channels C" and busy: "dma_wch_busy d ch"
    and te: "\<not> has (dma_wch_get_ip d ch) (ucast DMA_TEIF1)"
    and tc: "has (dma_wch_get_ip d ch) (ucast DMA_TCIF1)"
    and isr: "dma_wch_isr ch d = (d', call)"
  shows "call = map_option (\<lambda>f. \<lparr>call_cb = f, call_user = user_data (chan d ch), call_ch = ch,
                   call_status = DMA_STATUS_COMPLETE\<rparr>) (dma_cb (chan d ch)) \<and>
    (if has (CFGR (reg d ch)) DMA_CFGR1_CIRC then reg d' ch = reg d ch \<and> chan d' ch = chan d ch
     else \<not> has (CFGR (reg d' ch)) DMA_CFGR1_EN \<and> ch_state (chan d' ch) = DMA_WCH_CONFIGURED \<and>
          CNTR (reg d' ch) = CNTR (reg d ch))"
proof -
  note b = dma_wf_bounds [OF dma_inv_wf [OF inv] ch]
  have "has (CFGR (reg d ch)) DMA_CFGR1_TCIE"
    using dma_inv_chan [OF inv ch] busy by (auto simp: chan_ok_def dma_wch_busy_def)
  then show ?thesis
    using isr busy te tc b
    by (auto simp: dma_wch_isr_def Let_def dma_isr_disable_def dma_wch_busy_def wch_bits)
qed

lemma demo_dev_inv: "dma_inv demo_cfg demo_dev"
  using demo_wf
  by (simp add: dma_inv_def demo_dev_def demo_cfg_def chan_ok_def zero_channel_def wch_bits)

lemma demo_running_inv: "dma_inv demo_cfg (demo_running f)"
proof -
  have "dma_inv demo_cfg demo_configured"
    using config_inv [OF demo_dev_inv demo_configured_eq] .
  then show ?thesis
    unfolding demo_running_def
    by (intro raise_inv) (metis control_inv(1) prod.collapse)
qed

theorem dma_wch_isr_completion_witness:
  "dma_wch_busy (demo_running 6) 3 \<and>
   map_option call_status (snd (dma_wch_isr 3 (demo_running 6))) = Some DMA_STATUS_COMPLETE"
proof -
  have n: "num_channels demo_cfg = 7" by (simp add: demo_cfg_def)
  then have ch: "3 < num_channels demo_cfg" by simp
  have ip0: "dma_wch_get_ip (snd (dma_wch_start demo_cfg 3 demo_configured)) 3 = 0"
    by (simp add: dma_wch_start_def n demo_configured_chan get_ip_clear_flags)
  have f: "\<not> has (dma_wch_get_ip (demo_running 6) 3) (ucast DMA_TEIF1)"
      "has (dma_wch_get_ip (demo_running 6) 3) (ucast DMA_TCIF1)"
    by (simp_all add: demo_running_def wch_bits raise_ip_bit ip0)
  show ?thesis
    using dma_wch_isr_completion [OF demo_running_inv ch demo_running_facts(2) f surjective_pairing]
      demo_running_facts(2)
    by (simp add: demo_running_facts(3) demo_configured_chan(1))
qed

section \<open>Stop, progress, isolation\<close>

text \<open>
  (C33) Stop always succeeds on a channel in range, disables it, keeps its counter (so the
  remaining length is stable), clears its pending flags without a callback, and whatever
  flags the hardware raises afterwards, the channel's interrupt makes no callback.
\<close>

theorem dma_wch_stop_quiesces:
  assumes wf: "dma_wf C d" and ch: "ch < num_channels C" and stop: "dma_wch_stop C ch d = (r, d')"
  shows "r = Ok \<and> \<not> has (CFGR (reg d' ch)) DMA_CFGR1_EN \<and> CNTR (reg d' ch) = CNTR (reg d ch) \<and>
    dma_wch_get_ip d' ch = 0 \<and> \<not> dma_wch_busy d' ch \<and>
    (\<forall>f. snd (dma_wch_isr ch (dma_raise ch f d')) = None)"
proof -
  note b = dma_wf_bounds [OF wf ch]
  have idle: "\<not> dma_wch_busy d' ch"
    using stop ch b by (auto simp: dma_wch_stop_def Let_def dma_wch_busy_def split: if_splits)
  have "snd (dma_wch_isr ch (dma_raise ch f d')) = None" for f
    using idle by (simp add: dma_wch_isr_def Let_def dma_wch_busy_def)
  with idle show ?thesis
    using stop ch b by (auto simp: dma_wch_stop_def Let_def get_ip_clear_flags wch_bits split: if_splits)
qed

theorem dma_wch_stop_quiesces_witness:
  "fst (dma_wch_stop demo_cfg 3 (demo_running 2)) = Ok \<and>
   CNTR (reg (snd (dma_wch_stop demo_cfg 3 (demo_running 2))) 3) = CNTR (reg (demo_running 2) 3) \<and>
   snd (dma_wch_isr 3 (dma_raise 3 2 (snd (dma_wch_stop demo_cfg 3 (demo_running 2))))) = None"
proof -
  have ch: "3 < num_channels demo_cfg" by (simp add: demo_cfg_def)
  show ?thesis
    using dma_wch_stop_quiesces [OF demo_running_facts(1) ch surjective_pairing] by blast
qed

lemma get_status_total: "ch < num_channels C \<Longrightarrow> \<exists>st. dma_wch_get_status C ch True d = Inr st"
  unfolding dma_wch_get_status_def Let_def by (simp add: case_prod_unfold)

lemma status_pending:
  assumes inv: "dma_inv C d" and ch: "ch < num_channels C"
    and conf: "ch_state (chan d ch) \<noteq> DMA_WCH_UNCONFIGURED"
    and st: "dma_wch_get_status C ch True d = Inr st"
  shows "unat (pending_length st) = unat (CNTR (reg d ch)) * unat (width (chan d ch)) \<and>
    unat (CNTR (reg d ch) * ucast (width (chan d ch))) = unat (CNTR (reg d ch)) * unat (width (chan d ch))"
proof -
  note ok = dma_inv_chan [OF inv ch]
  have w: "unat (ucast (width (chan d ch)) :: u32) = unat (width (chan d ch))"
    using ok conf by (auto simp: chan_ok_def)
  have le: "unat (CNTR (reg d ch)) * unat (width (chan d ch)) \<le> unat (ch_length (chan d ch))"
    using ok conf by (simp add: chan_ok_def)
  have "unat (CNTR (reg d ch) * ucast (width (chan d ch)))
      = unat (CNTR (reg d ch)) * unat (width (chan d ch))"
    using le unat_u32_bound [of "ch_length (chan d ch)"] by (simp add: unat_word_ariths w)
  then show ?thesis
    using st ch by (auto simp: dma_wch_get_status_def Let_def case_prod_unfold)
qed

text \<open>
  (C35) The progress report is exact: the product CNTR times width does not overflow and is at
  most the configured length, and the positions of a circular channel are offsets inside
  the buffer, namely the bytes already moved modulo the length.
\<close>

theorem dma_wch_get_status_progress:
  assumes inv: "dma_inv C d" and ch: "ch < num_channels C"
    and conf: "ch_state (chan d ch) \<noteq> DMA_WCH_UNCONFIGURED"
    and st: "dma_wch_get_status C ch True d = Inr st"
  shows "let len = unat (ch_length (chan d ch)); done = len - unat (pending_length st)
     in unat (pending_length st) = unat (CNTR (reg d ch)) * unat (width (chan d ch)) \<and>
        unat (pending_length st) \<le> len \<and>
        unat (read_position st) < len \<and> unat (write_position st) < len \<and>
        unat (read_position st) \<in> {0, done mod len} \<and> unat (write_position st) \<in> {0, done mod len} \<and>
        (busy st \<longleftrightarrow> dma_wch_busy d ch)"
proof -
  let ?k = "chan d ch" and ?p = "CNTR (reg d ch) * ucast (width (chan d ch)) :: u32"
  note ok = dma_inv_chan [OF inv ch]
  have le: "unat (CNTR (reg d ch)) * unat (width ?k) \<le> unat (ch_length ?k)"
    and len: "ch_length ?k \<noteq> 0" using ok conf by (simp_all add: chan_ok_def)
  have p: "unat ?p = unat (CNTR (reg d ch)) * unat (width ?k)"
    using status_pending [OF inv ch conf st] by simp
  have pos: "unat ((ch_length ?k - ?p) mod ch_length ?k)
      = (unat (ch_length ?k) - unat ?p) mod unat (ch_length ?k)"
    using le p by (simp add: unat_mod unat_sub_le word_le_nat_alt)
  have "0 < unat (ch_length ?k)" using len by (simp add: unat_gt_0)
  moreover from this have "(unat (ch_length ?k) - unat ?p) mod unat (ch_length ?k) < unat (ch_length ?k)"
    by simp
  ultimately show ?thesis
    using st p le pos ch len
    by (auto simp: dma_wch_get_status_def Let_def split: if_splits)
qed

theorem dma_wch_get_status_progress_witness:
  "\<exists>st. dma_wch_get_status demo_cfg 3 True (demo_running 0) = Inr st \<and>
        unat (pending_length st) \<le> unat (ch_length (chan (demo_running 0) 3))"
proof -
  have ch: "3 < num_channels demo_cfg" by (simp add: demo_cfg_def)
  have c: "ch_state (chan (demo_running 0) 3) \<noteq> DMA_WCH_UNCONFIGURED"
    by (simp add: demo_running_facts(3))
  obtain st where st: "dma_wch_get_status demo_cfg 3 True (demo_running 0) = Inr st"
    using get_status_total [OF ch] by blast
  show ?thesis
    using st dma_wch_get_status_progress [OF demo_running_inv ch c st] by (auto simp: Let_def)
qed

lemma status_only_chan:
  "only_chan ch d d' \<Longrightarrow> c \<noteq> ch \<Longrightarrow> dma_wch_get_status C c nn d' = dma_wch_get_status C c nn d"
  by (simp add: only_chan_def dma_wch_get_status_def dma_wch_busy_def)

text \<open>
  (C34) Channels are isolated: no operation or interrupt of channel \<open>ch\<close> changes the registers,
  the driver data, the reported status or the pending flags of another channel \<open>c\<close>, although
  the flags of eight channels share one register.
\<close>

theorem dma_channels_isolated:
  assumes wf: "dma_wf C d" and c: "c \<noteq> ch" "c < num_channels C" and ch: "ch < num_channels C"
    and op: "d' \<in> {snd (dma_wch_config C ch req d), snd (dma_wch_reload C ch src dst sz d),
      snd (dma_wch_start C ch d), snd (dma_wch_stop C ch d), snd (dma_wch_suspend C ch d),
      snd (dma_wch_resume C ch d), dma_wch_chan_release C ch d, fst (dma_wch_isr ch d)}"
  shows "reg d' c = reg d c \<and> chan d' c = chan d c \<and> dma_wch_get_ip d' c = dma_wch_get_ip d c \<and>
    dma_wch_get_status C c nn d' = dma_wch_get_status C c nn d"
proof -
  note lift = prod.collapse [symmetric]
  have o: "only_chan ch d d'"
    using op config_only_chan [OF wf lift] reload_only_chan [OF wf lift]
      control_only_chan(1) [OF wf lift] control_only_chan(2) [OF wf lift]
      control_only_chan(3) [OF wf lift] control_only_chan(4) [OF wf lift]
      control_only_chan(5) [OF wf] isr_only_chan [OF dma_wf_bounds(1) [OF wf ch] lift]
    by auto
  show ?thesis
    using o c status_only_chan [OF o c(1)] dma_wf_bounds(1) [OF wf c(2)] by (simp add: only_chan_def)
qed

theorem dma_channels_isolated_witness:
  "dma_wf demo_cfg (demo_running 2) \<and>
   dma_wch_get_status demo_cfg 4 True (fst (dma_wch_isr 3 (demo_running 2)))
     = dma_wch_get_status demo_cfg 4 True (demo_running 2)"
proof -
  have n: "4 \<noteq> (3::nat)" "4 < num_channels demo_cfg" "3 < num_channels demo_cfg"
    by (simp_all add: demo_cfg_def)
  show ?thesis
    using dma_channels_isolated [OF demo_running_facts(1) n, of "fst (dma_wch_isr 3 (demo_running 2))"]
      demo_running_facts(1) by auto
qed

section \<open>The driver implements the DMA channel interface\<close>

definition dma_wch_driver_api :: "dma_wch_cfg \<Rightarrow> dma_dev dma_driver_api" where
  "dma_wch_driver_api C =
     \<lparr>api_config = dma_wch_config C, api_reload = dma_wch_reload C, api_start = dma_wch_start C,
      api_stop = dma_wch_stop C, api_resume = dma_wch_resume C, api_suspend = dma_wch_suspend C,
      api_get_status = dma_wch_get_status C, api_get_attribute = dma_wch_get_attribute,
      api_chan_filter = dma_wch_chan_filter C, api_chan_release = dma_wch_chan_release C\<rparr>"

definition chan_view :: "dma_dev \<Rightarrow> nat \<Rightarrow> achan" where
  "chan_view d ch =
     (let tot = unat (ch_length (chan d ch));
          left = unat (CNTR (reg d ch)) * unat (width (chan d ch))
      in case ch_state (chan d ch) of
           DMA_WCH_UNCONFIGURED \<Rightarrow> AFree
         | DMA_WCH_CONFIGURED \<Rightarrow> AReady tot left
         | DMA_WCH_RUNNING \<Rightarrow> ARunning tot left
         | DMA_WCH_SUSPENDED \<Rightarrow> APaused tot left)"

lemma chan_view_only_chan: "only_chan ch d d' \<Longrightarrow> c \<noteq> ch \<Longrightarrow> chan_view d' c = chan_view d c"
  by (simp add: chan_view_def only_chan_def)

lemma chan_view_busy: "achan_busy (chan_view d ch) \<longleftrightarrow> dma_wch_busy d ch"
  by (simp add: chan_view_def dma_wch_busy_def Let_def split: dma_wch_state.splits)

lemma chan_view_config:
  assumes "dma_wf C d" "dma_wch_config C ch (Some c) d = (Ok, d')" "head_block c = Some b"
  shows "chan_view d' ch = AReady (unat (block_size b)) (unat (block_size b))"
proof -
  from assms obtain dirbits pa ma where st: "dma_request_ok c b"
    "CNTR (reg d' ch) = block_size b div source_data_size c"
    "ch_state (chan d' ch) = DMA_WCH_CONFIGURED" "ch_length (chan d' ch) = block_size b"
    "width (chan d' ch) = ucast (source_data_size c)"
    by (rule_tac config_Ok_D [OF assms(1,2)]) simp
  have "unat (ucast (source_data_size c) :: u8) = unat (source_data_size c)"
    using unat_width_cast request_ok_width [OF st(1)] by blast
  then show ?thesis using config_counter(1) [OF st(1)] by (simp add: chan_view_def st Let_def)
qed

lemma chan_view_start:
  assumes "dma_inv C d" "ch < num_channels C" "dma_wch_start C ch d = (r, d')"
  shows "chan_view d' ch = achan_start (chan_view d ch) \<and> (r = Ok \<longleftrightarrow> achan_start_ok (chan_view d ch))"
proof -
  note b = dma_wf_bounds [OF dma_inv_wf [OF assms(1)] assms(2)] and ok = dma_inv_chan [OF assms(1,2)]
  have w: "ch_state (chan d ch) \<noteq> DMA_WCH_UNCONFIGURED \<Longrightarrow> unat (width (chan d ch)) \<noteq> 0"
    using ok by (auto simp: chan_ok_def)
  show ?thesis
    using assms(2,3) b w
    by (auto simp: dma_wch_start_def chan_view_def Let_def unat_eq_zero
        split: if_splits dma_wch_state.splits)
qed

lemma chan_view_stop:
  assumes "dma_inv C d" "ch < num_channels C" "dma_wch_stop C ch d = (r, d')"
  shows "chan_view d' ch = achan_stop (chan_view d ch) \<and> r = Ok"
  using assms dma_wf_bounds [OF dma_inv_wf [OF assms(1)] assms(2)]
  by (auto simp: dma_wch_stop_def chan_view_def Let_def split: if_splits dma_wch_state.splits)

lemma chan_view_hw:
  assumes "dma_inv C d" "dma_hw C d d'" "ch < num_channels C"
  shows "achan_progress (chan_view d ch) (chan_view d' ch)"
  using assms(2)
proof (cases rule: dma_hw.cases)
  case (hw_count c n f)
  then have inv': "dma_inv C (upd_reg c (\<lambda>r. r\<lparr>CNTR := n\<rparr>) d)"
    using count_inv assms(1) by blast
  have run: "ch_state (chan d c) = DMA_WCH_RUNNING"
    using dma_inv_chan [OF assms(1) hw_count(2)] hw_count(3)
    by (simp add: chan_ok_def dma_can_count_def)
  show ?thesis
    using hw_count(1) dma_inv_chan [OF inv' assms(3)] run
      dma_wf_bounds [OF dma_inv_wf [OF assms(1)] hw_count(2)]
    by (cases "c = ch")
      (auto simp: chan_view_def chan_ok_def Let_def achan_progress_def split: dma_wch_state.splits)
next
  case (hw_flags c f)
  then show ?thesis by (simp add: chan_view_def achan_progress_def)
qed

lemma chan_view_config_case:
  assumes "dma_inv C d" "head_block c = Some b" "dma_wch_config C ch (Some c) d = (r, d')"
  shows "chan_view d' ch =
    (if r = Ok then AReady (unat (block_size b)) (unat (block_size b)) else chan_view d ch)"
proof (cases r)
  case (Inl e)
  then show ?thesis using assms(3) config_Err_unchanged [of C ch "Some c" d e d'] by simp
next
  case (Inr u)
  then show ?thesis
    using chan_view_config [OF dma_inv_wf [OF assms(1)]] assms(2,3) by simp
qed

lemma chan_view_status:
  assumes "dma_inv C d" "ch < num_channels C" "chan_view d ch \<noteq> AFree"
  shows "\<exists>st. dma_wch_get_status C ch True d = Inr st \<and>
    unat (pending_length st) = achan_left (chan_view d ch) \<and>
    (busy st \<longleftrightarrow> achan_busy (chan_view d ch))"
proof -
  have conf: "ch_state (chan d ch) \<noteq> DMA_WCH_UNCONFIGURED"
    using assms(3) by (auto simp: chan_view_def Let_def)
  obtain st where st: "dma_wch_get_status C ch True d = Inr st"
    using get_status_total [OF assms(2)] by blast
  then have "unat (pending_length st) = unat (CNTR (reg d ch)) * unat (width (chan d ch))"
    using status_pending [OF assms(1,2) conf st] by simp
  moreover have "achan_left (chan_view d ch) = unat (CNTR (reg d ch)) * unat (width (chan d ch))"
    using conf by (simp add: chan_view_def Let_def split: dma_wch_state.splits)
  moreover have "busy st \<longleftrightarrow> dma_wch_busy d ch"
    using st assms(2) by (auto simp: dma_wch_get_status_def Let_def case_prod_unfold)
  ultimately show ?thesis using st by (simp add: chan_view_busy)
qed

lemmas wch_dma_laws =
  config_inv chan_view_config_case control_inv(1,2) chan_view_start chan_view_stop chan_view_status
  hw_inv chan_view_hw

interpretation wch_dma: dma_provider "dma_wch_driver_api C" "dma_inv C" "num_channels C" chan_view "dma_hw C"
  for C
proof (unfold_locales, unfold dma_wch_driver_api_def dma_driver_api.simps, goal_cases)
  case (3 d ch c b)
  then show ?case by (auto simp: config_Ok_iff chan_view_busy)
next
  case (4 d ch oc r d' c')
  then show ?case using chan_view_only_chan config_only_chan dma_inv_wf by metis
next
  case (7 d ch r d' c')
  then show ?case using chan_view_only_chan control_only_chan(1) dma_inv_wf by metis
next
  case (10 d ch r d' c')
  then show ?case using chan_view_only_chan control_only_chan(2) dma_inv_wf by metis
qed (erule (2) wch_dma_laws | erule (1) wch_dma_laws)+

text \<open>The interrupt side of the contract.\<close>

definition chan_meta :: "dma_dev \<Rightarrow> nat \<Rightarrow> dma_meta" where
  "chan_meta d ch = \<lparr>m_cyclic = has (CFGR (reg d ch)) DMA_CFGR1_CIRC,
     m_error_dis = error_callback_dis (chan d ch), m_cb = dma_cb (chan d ch),
     m_user = user_data (chan d ch), m_mem = MADDR (reg d ch)\<rparr>"

lemma chan_meta_only_chan: "only_chan ch d d' \<Longrightarrow> c \<noteq> ch \<Longrightarrow> chan_meta d' c = chan_meta d c"
  by (simp add: chan_meta_def only_chan_def)

lemma chan_meta_config:
  assumes "dma_inv C d" "dma_wch_config C ch (Some c) d = (Ok, d')"
  shows "chan_meta d' ch = request_meta c"
proof (rule config_Ok_D [OF dma_inv_wf [OF assms(1)] assms(2)])
  fix b dirbits pa ma
  assume hb: "head_block c = Some b" and ok: "dma_request_ok c b"
    and dir: "dma_cfg_direction c b = Inr (dirbits, pa, ma)"
    and r: "reg d' ch = (reg d ch)\<lparr>PADDR := pa, MADDR := ma,
        CNTR := block_size b div source_data_size c, CFGR := dma_cfg_cfgr dirbits c b\<rparr>"
    and k: "chan d' ch = \<lparr>user_data = cfg_user_data c, dma_cb = dma_callback c,
        ch_state = DMA_WCH_CONFIGURED, ch_length = block_size b, width = ucast (source_data_size c),
        error_callback_dis = cfg_error_callback_dis c\<rparr>"
  have pri: "channel_priority c \<le> 3"
    using ok by (simp add: dma_request_ok_def dma_cfg_bad_mode_def not_less)
  have "source_data_size c = dest_data_size c" using request_ok_width [OF ok] by blast
  then have "bit (dma_cfg_cfgr dirbits c b) 5 = cyclic c"
    by (simp add: cfgr_bit [OF pri dir] cfgr_sizes_bit)
  moreover have "ma = m_mem (request_meta c)"
    using dir by (auto simp: dma_cfg_direction_def request_meta_def hb
        split: dma_channel_direction.splits if_splits)
  ultimately show ?thesis by (simp add: chan_meta_def request_meta_def r k wch_bits)
qed

lemma chan_meta_control:
  assumes "dma_inv C d" "c < num_channels C"
  shows "dma_wch_start C ch d = (r, d') \<Longrightarrow> chan_meta d' c = chan_meta d c"
    and "dma_wch_stop C ch d = (r, d') \<Longrightarrow> chan_meta d' c = chan_meta d c"
    and "dma_hw C d d' \<Longrightarrow> chan_meta d' c = chan_meta d c"
  using assms dma_wf_bounds [OF dma_inv_wf [OF assms(1)], of ch]
  by (auto simp: chan_meta_def dma_wch_start_def dma_wch_stop_def Let_def wch_bits
      dma_wf_bounds [OF dma_inv_wf [OF assms(1)]] split: if_splits elim!: dma_hw_cases)

lemma chan_meta_isr:
  assumes "dma_inv C d" "ch < num_channels C" "dma_wch_isr ch d = (d', k)"
  shows "chan_meta d' c = chan_meta d c"
proof -
  have "chan_meta (dma_isr_disable ch e) c = chan_meta e c" if "dma_wf C e" for e
    using dma_wf_bounds [OF that assms(2)]
    by (simp add: chan_meta_def dma_isr_disable_def wch_bits)
  moreover have "dma_wf C (dma_isr_ack ch ip d)" for ip
    using dma_inv_wf [OF assms(1)] by (simp add: dma_wf_def)
  ultimately have dis: "chan_meta (dma_isr_disable ch (dma_isr_ack ch ip d)) c = chan_meta d c" for ip
    by (simp add: chan_meta_def)
  have ack: "chan_meta (dma_isr_ack ch ip d) c = chan_meta d c" for ip
    by (simp add: chan_meta_def)
  show ?thesis using assms(3) by (auto simp: dma_wch_isr_def Let_def dis ack split: if_splits)
qed

lemma chan_view_ack [simp]: "chan_view (dma_isr_ack ch ip d) c = chan_view d c"
  by (simp add: chan_view_def)

lemma chan_view_isr_idle:
  assumes "dma_wch_isr ch d = (d', k)" "\<not> achan_busy (chan_view d ch)"
  shows "chan_view d' ch = chan_view d ch \<and> k = None"
  using assms by (simp add: chan_view_busy dma_wch_busy_def dma_wch_isr_def Let_def) auto

lemma chan_view_disable:
  assumes "dma_inv C d" "ch < num_channels C" "dma_wch_busy d ch"
  shows "chan_view (dma_isr_disable ch (dma_isr_ack ch ip d)) ch = achan_stop (chan_view d ch)"
  using assms(3) dma_wf_bounds [OF dma_inv_wf [OF assms(1)] assms(2)]
  by (auto simp: dma_isr_disable_def chan_view_def Let_def dma_wch_busy_def)

lemma chan_isr_tcie:
  "dma_inv C d \<Longrightarrow> ch < num_channels C \<Longrightarrow> dma_wch_busy d ch \<Longrightarrow> has (CFGR (reg d ch)) DMA_CFGR1_TCIE"
  using dma_inv_chan [of C d ch] by (auto simp: chan_ok_def dma_wch_busy_def)

lemma chan_view_isr_quiet:
  assumes "dma_inv C d" "ch < num_channels C" "dma_wch_isr ch d = (d', None)"
    and "\<not> m_error_dis (chan_meta d ch)" "m_cb (chan_meta d ch) \<noteq> None"
  shows "chan_view d' ch = chan_view d ch"
  using assms(3-5) chan_isr_tcie [OF assms(1,2)]
  by (auto simp: dma_wch_isr_def Let_def chan_meta_def dma_wch_busy_def split: if_splits)

lemma chan_view_isr_call:
  assumes "dma_inv C d" "ch < num_channels C" "dma_wch_isr ch d = (d', Some k)"
  shows "m_cb (chan_meta d ch) = Some (call_cb k) \<and> call_user k = m_user (chan_meta d ch) \<and>
    call_ch k = ch \<and>
    chan_view d' ch = (if status_neg (call_status k) \<or>
        call_status k = DMA_STATUS_COMPLETE \<and> \<not> m_cyclic (chan_meta d ch)
      then achan_stop (chan_view d ch) else chan_view d ch)"
  using assms(3) chan_view_disable [OF assms(1,2)]
  by (auto simp: dma_wch_isr_def Let_def chan_meta_def dma_wch_busy_def split: if_splits)

interpretation wch_irq: dma_irq_provider "dma_wch_driver_api C" "dma_inv C" "num_channels C" chan_view
  "dma_hw C" chan_meta dma_wch_isr for C
proof (unfold_locales, unfold dma_wch_driver_api_def dma_driver_api.simps, goal_cases)
  case (1 d ch c d')
  then show ?case by (rule chan_meta_config)
next
  case (2 d ch oc r d' c')
  then show ?case using chan_meta_only_chan config_only_chan dma_inv_wf by metis
next
  case (7 d ch d' ok c')
  then show ?case by (rule_tac chan_meta_isr)
next
  case (8 d ch d' ok c')
  then show ?case
    using chan_view_only_chan isr_only_chan dma_wf_bounds(1) [OF dma_inv_wf] by metis
next
  case (9 d ch d' ok)
  then show ?case by (rule_tac chan_view_isr_idle)
next
  case (10 d ch d')
  then show ?case by (rule_tac chan_view_isr_quiet)
next
  case (11 d ch d' k)
  then show ?case by (rule_tac chan_view_isr_call)
qed (erule chan_meta_control isr_inv, assumption+)+

lemma chan_view_suspend_resume:
  assumes "dma_inv C d" "ch < num_channels C"
  shows "chan_view (snd (dma_wch_suspend C ch d)) ch = achan_suspend (chan_view d ch)"
    and "fst (dma_wch_suspend C ch d) = Ok \<longleftrightarrow> achan_busy (chan_view d ch)"
    and "chan_view (snd (dma_wch_resume C ch d)) ch = achan_resume (chan_view d ch)"
    and "fst (dma_wch_resume C ch d) = Ok \<longleftrightarrow> achan_busy (chan_view d ch)"
    and "chan_view (dma_wch_chan_release C ch d) ch = AFree"
  using assms dma_wf_bounds [OF dma_inv_wf [OF assms(1)] assms(2)]
  by (auto simp: dma_wch_suspend_def dma_wch_resume_def dma_wch_chan_release_def zero_channel_def
      chan_view_def Let_def split: dma_wch_state.splits)

text \<open>
  (C9) The driver refines the abstract channel: seen through \<open>chan_view\<close>, start, stop, suspend,
  resume and release are the abstract operations, with success exactly where the abstract
  channel allows the operation; in particular suspend followed by resume gives the running
  channel back with the same number of bytes to go.
\<close>

theorem dma_refines_achan:
  assumes inv: "dma_inv C d" and ch: "ch < num_channels C"
  shows "chan_view (snd (dma_wch_start C ch d)) ch = achan_start (chan_view d ch) \<and>
    (fst (dma_wch_start C ch d) = Ok \<longleftrightarrow> achan_start_ok (chan_view d ch)) \<and>
    chan_view (snd (dma_wch_stop C ch d)) ch = achan_stop (chan_view d ch) \<and>
    fst (dma_wch_stop C ch d) = Ok \<and>
    chan_view (snd (dma_wch_suspend C ch d)) ch = achan_suspend (chan_view d ch) \<and>
    (fst (dma_wch_suspend C ch d) = Ok \<longleftrightarrow> achan_busy (chan_view d ch)) \<and>
    chan_view (snd (dma_wch_resume C ch d)) ch = achan_resume (chan_view d ch) \<and>
    (fst (dma_wch_resume C ch d) = Ok \<longleftrightarrow> achan_busy (chan_view d ch)) \<and>
    chan_view (dma_wch_chan_release C ch d) ch = AFree \<and>
    (achan_running (chan_view d ch) \<longrightarrow>
      chan_view (snd (dma_wch_resume C ch (snd (dma_wch_suspend C ch d)))) ch = chan_view d ch)"
proof -
  note sr = chan_view_suspend_resume [OF inv ch]
  have inv': "dma_inv C (snd (dma_wch_suspend C ch d))"
    using control_inv(4) [OF inv] by (metis prod.collapse)
  show ?thesis
    using chan_view_start [OF inv ch prod.collapse [symmetric]]
      chan_view_stop [OF inv ch prod.collapse [symmetric]] sr chan_view_suspend_resume(3) [OF inv' ch]
    by (cases "chan_view d ch") simp_all
qed

theorem dma_refines_achan_witness:
  "chan_view (demo_running 0) 3 = ARunning 128 128 \<and>
   chan_view (snd (dma_wch_stop demo_cfg 3 (demo_running 0))) 3 = AReady 128 128"
proof -
  have ch: "3 < num_channels demo_cfg" by (simp add: demo_cfg_def)
  have b: "3 < length (chan_regs demo_configured)"
    using demo_configured_wf by (simp add: dma_wf_def DMA_WCH_MAX_CHAN_def)
  have "CNTR (reg (demo_running 0) 3) = 128"
    using b by (simp add: demo_running_def dma_wch_start_def demo_cfg_def demo_configured_chan)
  then have v: "chan_view (demo_running 0) 3 = ARunning 128 128"
    by (simp add: chan_view_def demo_running_facts(3) demo_configured_chan(1))
  show ?thesis using dma_refines_achan [OF demo_running_inv ch, of 0] v by simp
qed

end
