(* ===== verification/Uart_Tx_Props.thy ===== *)
theory Uart_Tx_Props
  imports Uart_Inv Dma_Props
begin

text \<open>
  Asynchronous transmission over any DMA provider: each critical section keeps the invariant
  and the receive half, and what it reports.  The lemmas are proved once in the provider's
  locale; the properties use them at the WCH driver.
\<close>

unbundle bit_operations_syntax

lemma tx_gate_regs_sel [simp]:
  "tx (tx_gate_regs s) = tx s" "rx (tx_gate_regs s) = rx s" "dma (tx_gate_regs s) = dma s"
  "STATR (regs (tx_gate_regs s)) = STATR (regs s)" "uptime_ticks (tx_gate_regs s) = uptime_ticks s"
  "bit (CTLR3 (regs (tx_gate_regs s))) n \<longleftrightarrow> n \<noteq> 7 \<and> bit (CTLR3 (regs s)) n"
  "bit (CTLR1 (regs (tx_gate_regs s))) n \<longleftrightarrow> n \<noteq> 6 \<and> bit (CTLR1 (regs s)) n"
  by (auto simp: tx_gate_regs_def wch_bits dest: bit_word_less)

lemma tx_stop_dma_sel [simp]:
  "tx (tx_stop_dma A C s) = tx s" "rx (tx_stop_dma A C s) = rx s" "regs (tx_stop_dma A C s) = regs s"
  "uptime_ticks (tx_stop_dma A C s) = uptime_ticks s"
  "dma (tx_stop_dma A C s) = snd (api_stop A (dma_tx_channel C) (dma s))"
  by (simp_all add: tx_stop_dma_def)

lemma tx_go_sel [simp]:
  "tx (tx_go s) = (tx s)\<lparr>needs_tc := False\<rparr>" "rx (tx_go s) = rx s" "dma (tx_go s) = dma s"
  "uptime_ticks (tx_go s) = uptime_ticks s"
  "bit (CTLR3 (regs (tx_go s))) n \<longleftrightarrow> n = 7 \<or> bit (CTLR3 (regs s)) n"
  "CTLR1 (regs (tx_go s)) = CTLR1 (regs s)"
  by (auto simp: tx_go_def wch_bits dest: bit_word_less)

lemma arm_timeout_sel [simp]:
  "rx (snd (arm_timeout X n s)) = rx s" "dma (snd (arm_timeout X n s)) = dma s"
  "regs (snd (arm_timeout X n s)) = regs s" "uptime_ticks (snd (arm_timeout X n s)) = uptime_ticks s"
  "tx (snd (arm_timeout X n s)) =
     (if work_reschedule X n < 0 then tx s else (tx s)\<lparr>timeout_work := Some n\<rparr>)"
  "fst (arm_timeout X n s) = work_reschedule X n"
  by (simp_all add: arm_timeout_def Let_def)

lemma same_rx_upd_tx [simp]:
  "(\<And>t. tx_callback (f t) = tx_callback t) \<Longrightarrow> same_rx view meta C s (upd_tx f s)"
  by (simp add: same_rx_def)

text \<open>The request is one the DMA driver accepts on a channel that is not busy.\<close>

lemma tx_request_ok:
  assumes "wch_uart_dma_buffer_check buffer len = Ok"
  shows "dma_request_ok (tx_dma_request C buffer len) (tx_dma_block C buffer len)"
proof -
  from assms have l: "len \<noteq> 0" "unat len \<le> 65535"
    by (auto simp: dma_buffer_check_Ok_iff)
  then show ?thesis
    by (simp add: dma_request_ok_def tx_dma_request_def tx_dma_block_def zero_dma_config_def
        zero_block_def dma_cfg_unsupported_def dma_cfg_bad_width_def dma_cfg_bad_block_def
        dma_cfg_bad_mode_def dma_cfg_direction_def DMA_WCH_MAX_BLOCK_def word_less_nat_alt Let_def)
qed

lemma tx_request_sel [simp]:
  "head_block (tx_dma_request C buffer len) = Some (tx_dma_block C buffer len)"
  "block_size (tx_dma_block C buffer len) = len"
  "request_meta (tx_dma_request C buffer len) =
     \<lparr>m_cyclic = False, m_error_dis = False, m_cb = Some Usart_wch_tx_dma_callback,
      m_user = dev_ptr C, m_mem = buffer\<rparr>"
  by (simp_all add: tx_dma_request_def tx_dma_block_def request_meta_def zero_dma_config_def
      zero_block_def)

text \<open>The return code of a transmit call on an idle, invariant-satisfying port, as a function of its
  arguments and the port: the DMA calls it makes do not fail.\<close>

definition tx_result :: "uart_ext \<Rightarrow> u32 \<Rightarrow> u32 \<Rightarrow> int \<Rightarrow> 'd uart_dev \<Rightarrow> unit res" where
  "tx_result X buffer len timeout s =
     (if buffer = 0 \<or> len = 0 then Err EINVAL
      else if unat len > 65535 then Err EMSGSIZE
      else if timeout < SYS_FOREVER_US then Err EINVAL
      else if tx_phase (tx s) \<noteq> WCH_TX_IDLE \<or>
              (needs_tc (tx s) \<and> \<not> has (STATR (regs s)) USART_STATR_TC) then Err EBUSY
      else if \<not> reserved (tx s) \<or> tx_callback (tx s) = None then Err EACCES
      else if timeout \<noteq> SYS_FOREVER_US \<and> work_reschedule X (max 1 (us_to_ticks X timeout)) < 0
      then Err (ERet (work_reschedule X (max 1 (us_to_ticks X timeout))))
      else Ok)"

lemma tx_early:
  assumes "tx_phase (tx s) \<noteq> WCH_TX_IDLE \<or> (needs_tc (tx s) \<and> \<not> has (STATR (regs s)) USART_STATR_TC) \<or>
      \<not> reserved (tx s) \<or> tx_callback (tx s) = None \<or> timeout < SYS_FOREVER_US \<or>
      wch_uart_dma_buffer_check buffer len \<noteq> Ok"
  shows "usart_wch_tx X A C buffer len timeout s = (tx_result X buffer len timeout s, s)"
  using assms
  by (auto simp: usart_wch_tx_def tx_result_def wch_uart_dma_buffer_check_def
      WCH_UART_DMA_MAX_BYTES_def)

text \<open>What a critical section other than the transmit call does to the transfer: nothing that the
  application sees, or the one terminal event of the transfer, \<open>DONE\<close> for the full length with
  the transmitter empty, \<open>ABORTED\<close> for at most the length.\<close>

definition tx_outcome :: "'d uart_dev \<Rightarrow> wch_uart_tx_notification \<Rightarrow> 'd uart_dev \<Rightarrow> bool" where
  "tx_outcome s note s' \<longleftrightarrow>
     note = zero_note \<and> (tx_phase (tx s') = WCH_TX_IDLE \<longleftrightarrow> tx_phase (tx s) = WCH_TX_IDLE) \<and>
       tx_buffer (tx s') = tx_buffer (tx s) \<and> tx_length (tx s') = tx_length (tx s) \<or>
     tx_phase (tx s) \<noteq> WCH_TX_IDLE \<and> tx_phase (tx s') = WCH_TX_IDLE \<and>
       note_callback note = tx_callback (tx s) \<and> tx_callback (tx s) \<noteq> None \<and>
       note_user_data note = tx_user_data (tx s) \<and>
       (note_event note = UART_TX_DONE (tx_buffer (tx s)) (tx_length (tx s)) \<and>
          has (STATR (regs s)) USART_STATR_TC \<or>
        (\<exists>n \<le> tx_length (tx s). note_event note = UART_TX_ABORTED (tx_buffer (tx s)) n))"

lemma tx_outcome_none: "tx_outcome s zero_note s"
  by (simp add: tx_outcome_def)

lemma tx_launch_keeps [simp]:
  "reserved (tx (snd (tx_launch X A C b l t s))) = reserved (tx s)"
  "uptime_ticks (snd (tx_launch X A C b l t s)) = uptime_ticks s"
  by (simp_all add: tx_launch_def Let_def case_prod_unfold)

lemma tx_keeps [simp]:
  "reserved (tx (snd (usart_wch_tx X A C b l t s))) = reserved (tx s)"
  "uptime_ticks (snd (usart_wch_tx X A C b l t s)) = uptime_ticks s"
  by (simp_all add: usart_wch_tx_def Let_def case_prod_unfold split: sum.splits)

section \<open>Over any DMA provider\<close>

context dma_irq_provider
begin

lemma tx_stop:
  assumes "dok (dma s)" "chans_ok nch C"
  shows "dok (dma (tx_stop_dma api C s))"
    and "view (dma (tx_stop_dma api C s)) (dma_tx_channel C) = achan_stop (view (dma s) (dma_tx_channel C))"
    and "same_rx view meta C s (tx_stop_dma api C s)"
  using assms stop_view stop_dok stop_other stop_meta prod.collapse [symmetric]
  unfolding same_rx_def tx_stop_dma_sel chans_ok_def by metis+

lemma same_rx_gate: "same_rx view meta C s (tx_gate_regs s)"
  by (simp add: same_rx_def)

lemma achan_stop_busy: "\<not> achan_busy (achan_stop a)"
  by (cases a) auto

lemma tx_finish:
  assumes "dok (dma s)" "chans_ok nch C"
    and fin: "usart_wch_tx_finish_locked api C type s = (note, s')"
  shows "dok (dma s')" "same_rx view meta C s s'"
    and "tx_ok C (view (dma s') (dma_tx_channel C)) (meta (dma s') (dma_tx_channel C)) (regs s') (tx s')"
    and "tx_phase (tx s') = WCH_TX_IDLE"
    and "note_callback note = tx_callback (tx s) \<and> note_user_data note = tx_user_data (tx s)"
    and "type = TYPE_TX_DONE \<Longrightarrow> note_event note = UART_TX_DONE (tx_buffer (tx s)) (tx_length (tx s))"
proof -
  let ?s1 = "tx_stop_dma api C (tx_gate_regs s)"
  have s': "dma s' = dma ?s1" "regs s' = regs ?s1" "rx s' = rx ?s1" "tx_phase (tx s') = WCH_TX_IDLE"
    "tx_buffer (tx s') = 0" "tx_length (tx s') = 0" "deadline (tx s') = 0"
    "tx_callback (tx s') = tx_callback (tx s)"
    using fin by (auto simp: usart_wch_tx_finish_locked_def Let_def case_prod_unfold)
  note st = tx_stop [of "tx_gate_regs s", OF _ assms(2)]
  show "dok (dma s')" using st(1) assms(1) s' by simp
  show "same_rx view meta C s s'"
    using same_rx_trans [OF same_rx_gate st(3)] assms(1) s' by (simp add: same_rx_def)
  show "tx_ok C (view (dma s') (dma_tx_channel C)) (meta (dma s') (dma_tx_channel C)) (regs s') (tx s')"
    using st(2) assms(1) s' achan_stop_busy by (simp add: tx_ok_def wch_bits)
  show "tx_phase (tx s') = WCH_TX_IDLE" by (fact s')
  show "note_callback note = tx_callback (tx s) \<and> note_user_data note = tx_user_data (tx s)"
    using fin by (auto simp: usart_wch_tx_finish_locked_def Let_def case_prod_unfold)
  show "note_event note = UART_TX_DONE (tx_buffer (tx s)) (tx_length (tx s))" if "type = TYPE_TX_DONE"
    using fin that
    by (auto simp: usart_wch_tx_finish_locked_def Let_def case_prod_unfold tx_finish_count_def)
qed

text \<open>An abort reports the bytes DMA has taken from the buffer: its length less what is left.\<close>

lemma tx_finish_aborted:
  assumes "dok (dma s)" "chans_ok nch C"
    and v: "view (dma s) (dma_tx_channel C) = ARunning (unat (tx_length (tx s))) left \<or>
            view (dma s) (dma_tx_channel C) = AReady (unat (tx_length (tx s))) left"
    and left: "left \<le> unat (tx_length (tx s))"
    and fin: "usart_wch_tx_finish_locked api C TYPE_TX_ABORTED s = (note, s')"
  shows "\<exists>n. note_event note = UART_TX_ABORTED (tx_buffer (tx s)) n \<and>
      unat n = unat (tx_length (tx s)) - left \<and>
      needs_tc (tx s') = (n \<noteq> 0 \<and> \<not> has (STATR (regs s)) USART_STATR_TC)"
proof -
  let ?s1 = "tx_stop_dma api C (tx_gate_regs s)" and ?ch = "dma_tx_channel C"
  have ch: "?ch < nch" using assms(2) by (simp add: chans_ok_def)
  have "view (dma (tx_gate_regs s)) ?ch \<noteq> AFree" and al: "achan_left (view (dma s) ?ch) = left"
    using v by auto
  then obtain st where st: "api_get_status api ?ch True (dma ?s1) = Inr st"
      "unat (pending_length st) = left"
    using stop_status [OF _ ch _ prod.collapse [symmetric], of "dma (tx_gate_regs s)"] assms(1) by auto
  then have "pending_length st \<le> tx_length (tx s)" using left by (simp add: word_le_nat_alt)
  then show ?thesis
    using fin st
    by (auto simp: usart_wch_tx_finish_locked_def Let_def case_prod_unfold tx_finish_count_def
        unat_sub_le)
qed

text \<open>Configuring and starting an idle channel for a checked buffer succeeds.\<close>

lemma tx_setup:
  assumes "dok d" "chans_ok nch C" "\<not> achan_busy (view d (dma_tx_channel C))"
    and chk: "wch_uart_dma_buffer_check buffer len = Ok"
  obtains d1 d2 where "api_config api (dma_tx_channel C) (Some (tx_dma_request C buffer len)) d = (Ok, d1)"
    "api_start api (dma_tx_channel C) d1 = (Ok, d2)" "dok d2"
    "view d2 (dma_tx_channel C) = ARunning (unat len) (unat len)"
    "meta d2 (dma_tx_channel C) = request_meta (tx_dma_request C buffer len)"
    "view d2 (dma_rx_channel C) = view d (dma_rx_channel C)"
    "meta d2 (dma_rx_channel C) = meta d (dma_rx_channel C)"
proof -
  let ?ch = "dma_tx_channel C" and ?q = "tx_dma_request C buffer len"
  have ch: "?ch < nch" "dma_rx_channel C < nch" "dma_rx_channel C \<noteq> ?ch"
    using assms(2) by (auto simp: chans_ok_def)
  obtain d1 where c: "api_config api ?ch (Some ?q) d = (Ok, d1)"
    using config_accepts [OF assms(1) ch(1) tx_request_sel(1) tx_request_ok [OF chk] assms(3)]
    by (metis prod.collapse)
  obtain r d2 where st: "api_start api ?ch d1 = (r, d2)" by force
  have d1: "dok d1" using config_dok [OF assms(1) c] .
  have "len \<noteq> 0" using chk by (auto simp: dma_buffer_check_Ok_iff)
  then have "r = Ok \<and> dok d2 \<and> view d2 ?ch = ARunning (unat len) (unat len)"
    using config_start [OF assms(1) ch(1) tx_request_sel(1) _ c st] by simp
  moreover have "meta d2 ?ch = request_meta ?q"
    using start_meta [OF d1 st ch(1)] config_meta [OF assms(1) c] by simp
  moreover have "view d2 (dma_rx_channel C) = view d (dma_rx_channel C)"
    using start_other [OF d1 st ch(3)] config_other [OF assms(1) c ch(3)] by simp
  moreover have "meta d2 (dma_rx_channel C) = meta d (dma_rx_channel C)"
    using start_meta [OF d1 st ch(2)] config_meta_other [OF assms(1) c ch(3)] by simp
  ultimately show thesis using that c st by blast
qed

text \<open>After DMA has started, the launch either opens the gate or gives everything back.\<close>

lemma tx_launch_ok:
  assumes "dok (dma s)" "chans_ok nch C"
    and v: "view (dma s) (dma_tx_channel C) = ARunning (unat len) (unat len)"
    and m: "meta (dma s) (dma_tx_channel C) = request_meta (tx_dma_request C buffer len)"
    and b: "buffer \<noteq> 0" "len \<noteq> 0" "tx_callback (tx s) \<noteq> None"
    and g: "\<not> bit (CTLR3 (regs s)) 7" "\<not> bit (CTLR1 (regs s)) 6"
    and l: "tx_launch X api C buffer len timeout s = (r, s')"
  shows "dok (dma s')" "same_rx view meta C s s'"
    and "tx_ok C (view (dma s') (dma_tx_channel C)) (meta (dma s') (dma_tx_channel C)) (regs s') (tx s')"
    and "r = (if timeout \<noteq> SYS_FOREVER_US \<and> work_reschedule X (max 1 (us_to_ticks X timeout)) < 0
              then Err (ERet (work_reschedule X (max 1 (us_to_ticks X timeout)))) else Ok)"
    and "r = Ok \<Longrightarrow> tx_phase (tx s') = WCH_TX_DMA \<and> tx_buffer (tx s') = buffer \<and>
       tx_length (tx s') = len \<and> needs_tc (tx s') = False \<and>
       deadline (tx s') = (if timeout \<noteq> SYS_FOREVER_US
         then uptime_ticks s + max 1 (us_to_ticks X timeout) else 0)"
    and "r \<noteq> Ok \<Longrightarrow> tx_phase (tx s') = WCH_TX_IDLE \<and> needs_tc (tx s') = needs_tc (tx s)"
proof -
  let ?W = "work_reschedule X (max 1 (us_to_ticks X timeout))"
  have cases: "timeout \<noteq> SYS_FOREVER_US \<and> ?W < 0 \<and> r = Err (ERet ?W) \<or>
      \<not> (timeout \<noteq> SYS_FOREVER_US \<and> ?W < 0) \<and> r = Ok"
    using l by (auto simp: tx_launch_def Let_def case_prod_unfold split: if_splits)
  then show "r = (if timeout \<noteq> SYS_FOREVER_US \<and> ?W < 0 then Err (ERet ?W) else Ok)" by auto
  have "dok (dma s') \<and> same_rx view meta C s s' \<and>
      tx_ok C (view (dma s') (dma_tx_channel C)) (meta (dma s') (dma_tx_channel C)) (regs s') (tx s') \<and>
      (r = Ok \<longrightarrow> tx_phase (tx s') = WCH_TX_DMA \<and> tx_buffer (tx s') = buffer \<and>
       tx_length (tx s') = len \<and> needs_tc (tx s') = False \<and>
       deadline (tx s') = (if timeout \<noteq> SYS_FOREVER_US
         then uptime_ticks s + max 1 (us_to_ticks X timeout) else 0)) \<and>
      (r \<noteq> Ok \<longrightarrow> tx_phase (tx s') = WCH_TX_IDLE \<and> needs_tc (tx s') = needs_tc (tx s))"
    using cases
  proof (elim disjE conjE)
    assume f: "timeout \<noteq> SYS_FOREVER_US" "?W < 0" "r = Err (ERet ?W)"
    let ?d = "snd (api_stop api (dma_tx_channel C) (dma s))"
    have s': "dma s' = ?d" "regs s' = regs s" "rx s' = rx s" "tx_phase (tx s') = WCH_TX_IDLE"
      "tx_buffer (tx s') = 0" "tx_length (tx s') = 0" "deadline (tx s') = 0"
      "tx_callback (tx s') = tx_callback (tx s)" "needs_tc (tx s') = needs_tc (tx s)"
      using l f by (auto simp: tx_launch_def Let_def case_prod_unfold)
    show ?thesis
      using tx_stop [OF assms(1,2)] s' f g achan_stop_busy
      by (simp add: same_rx_def tx_ok_def wch_bits)
  next
    assume f: "\<not> (timeout \<noteq> SYS_FOREVER_US \<and> ?W < 0)" "r = Ok"
    show ?thesis
      using l f v m b g assms(1)
      by (cases "timeout = SYS_FOREVER_US")
        (auto simp: tx_launch_def Let_def case_prod_unfold same_rx_def tx_ok_def wch_bits)
  qed
  then show "dok (dma s')" "same_rx view meta C s s'"
    "tx_ok C (view (dma s') (dma_tx_channel C)) (meta (dma s') (dma_tx_channel C)) (regs s') (tx s')"
    "r = Ok \<Longrightarrow> tx_phase (tx s') = WCH_TX_DMA \<and> tx_buffer (tx s') = buffer \<and>
       tx_length (tx s') = len \<and> needs_tc (tx s') = False \<and>
       deadline (tx s') = (if timeout \<noteq> SYS_FOREVER_US
         then uptime_ticks s + max 1 (us_to_ticks X timeout) else 0)"
    "r \<noteq> Ok \<Longrightarrow> tx_phase (tx s') = WCH_TX_IDLE \<and> needs_tc (tx s') = needs_tc (tx s)"
    by blast+
qed

text \<open>The whole transmit call.\<close>

lemma tx_call:
  assumes inv: "uart_inv dok view meta C s" and ch: "chans_ok nch C"
    and call: "usart_wch_tx X api C buffer len timeout s = (r, s')"
  shows "uart_inv dok view meta C s'" "same_rx view meta C s s'" "r = tx_result X buffer len timeout s"
    and "r = Ok \<Longrightarrow> tx_phase (tx s) = WCH_TX_IDLE \<and> tx_phase (tx s') = WCH_TX_DMA \<and>
       tx_buffer (tx s') = buffer \<and> tx_length (tx s') = len \<and> \<not> needs_tc (tx s') \<and>
       deadline (tx s') = (if timeout \<noteq> SYS_FOREVER_US
         then uptime_ticks s + max 1 (us_to_ticks X timeout) else 0)"
    and "r \<noteq> Ok \<Longrightarrow> tx_phase (tx s') = tx_phase (tx s) \<and> tx_buffer (tx s') = tx_buffer (tx s) \<and>
       tx_length (tx s') = tx_length (tx s) \<and> needs_tc (tx s') = needs_tc (tx s)"
proof -
  let ?P = "uart_inv dok view meta C s' \<and> same_rx view meta C s s' \<and> r = tx_result X buffer len timeout s \<and>
    (r = Ok \<longrightarrow> tx_phase (tx s) = WCH_TX_IDLE \<and> tx_phase (tx s') = WCH_TX_DMA \<and>
       tx_buffer (tx s') = buffer \<and> tx_length (tx s') = len \<and> \<not> needs_tc (tx s') \<and>
       deadline (tx s') = (if timeout \<noteq> SYS_FOREVER_US
         then uptime_ticks s + max 1 (us_to_ticks X timeout) else 0)) \<and>
    (r \<noteq> Ok \<longrightarrow> tx_phase (tx s') = tx_phase (tx s) \<and> tx_buffer (tx s') = tx_buffer (tx s) \<and>
       tx_length (tx s') = tx_length (tx s) \<and> needs_tc (tx s') = needs_tc (tx s))"
  have ?P
  proof (cases "tx_phase (tx s) \<noteq> WCH_TX_IDLE \<or>
      (needs_tc (tx s) \<and> \<not> has (STATR (regs s)) USART_STATR_TC) \<or>
      \<not> reserved (tx s) \<or> tx_callback (tx s) = None \<or> timeout < SYS_FOREVER_US \<or>
      wch_uart_dma_buffer_check buffer len \<noteq> Ok")
    case True
    from tx_early [OF True, of X api C] call have rs: "r = tx_result X buffer len timeout s" "s' = s"
      by simp_all
    have "r \<noteq> Ok"
      using True by (auto simp: rs(1) tx_result_def dma_buffer_check_Ok_iff Suc_le_eq unat_gt_0)
    then show ?thesis using inv rs by auto
  next
    case False
    then have chk: "wch_uart_dma_buffer_check buffer len = Ok" and idle: "tx_phase (tx s) = WCH_TX_IDLE"
      by auto
    let ?s1 = "tx_gate_regs (upd_tx (\<lambda>t. t\<lparr>tx_block := tx_dma_block C buffer len,
                                       tx_dma := tx_dma_request C buffer len\<rparr>) s)"
    have d: "dok (dma s)" and nb: "\<not> achan_busy (view (dma s) (dma_tx_channel C))"
      and z: "tx_buffer (tx s) = 0" "tx_length (tx s) = 0"
      using inv idle by (auto simp: uart_inv_def tx_ok_def)
    obtain d1 d2 where c: "api_config api (dma_tx_channel C) (Some (tx_dma_request C buffer len)) (dma s) = (Ok, d1)"
        "api_start api (dma_tx_channel C) d1 = (Ok, d2)"
      and d2: "dok d2" "view d2 (dma_tx_channel C) = ARunning (unat len) (unat len)"
        "meta d2 (dma_tx_channel C) = request_meta (tx_dma_request C buffer len)"
        "view d2 (dma_rx_channel C) = view (dma s) (dma_rx_channel C)"
        "meta d2 (dma_rx_channel C) = meta (dma s) (dma_rx_channel C)"
      by (rule tx_setup [OF d ch nb chk])
    have l: "tx_launch X api C buffer len timeout (?s1\<lparr>dma := d2\<rparr>) = (r, s')"
      using call False c by (auto simp: usart_wch_tx_def Let_def split: if_splits)
    have b: "buffer \<noteq> 0" "len \<noteq> 0" "unat len \<le> 65535"
      using chk by (auto simp: dma_buffer_check_Ok_iff)
    note la = tx_launch_ok [OF _ ch _ _ b(1,2) _ _ _ l]
    have sr: "same_rx view meta C s (?s1\<lparr>dma := d2\<rparr>)" using d2 by (simp add: same_rx_def)
    have "same_rx view meta C s s'"
      using same_rx_trans [OF sr la(2)] d2 False by simp
    moreover have "uart_inv dok view meta C s'"
      using uart_inv_tx_op [OF inv \<open>same_rx view meta C s s'\<close> la(1) la(3)] d2 False by simp
    moreover have "r = tx_result X buffer len timeout s"
      using la(4) d2 False b by (simp add: tx_result_def)
    moreover have "r = Ok \<longrightarrow> tx_phase (tx s') = WCH_TX_DMA \<and> tx_buffer (tx s') = buffer \<and>
       tx_length (tx s') = len \<and> \<not> needs_tc (tx s') \<and>
       deadline (tx s') = (if timeout \<noteq> SYS_FOREVER_US
         then uptime_ticks s + max 1 (us_to_ticks X timeout) else 0)"
      using la(5) d2 False by simp
    moreover have "r \<noteq> Ok \<longrightarrow> tx_phase (tx s') = WCH_TX_IDLE \<and> needs_tc (tx s') = needs_tc (tx s)"
      using la(6) d2 False by simp
    moreover have "tx_phase (tx s') = WCH_TX_IDLE \<Longrightarrow> tx_buffer (tx s') = 0 \<and> tx_length (tx s') = 0"
      using \<open>uart_inv dok view meta C s'\<close> by (simp add: uart_inv_def tx_ok_def)
    ultimately show ?thesis using idle z by auto
  qed
  then show "uart_inv dok view meta C s'" "same_rx view meta C s s'" "r = tx_result X buffer len timeout s"
    "r = Ok \<Longrightarrow> tx_phase (tx s) = WCH_TX_IDLE \<and> tx_phase (tx s') = WCH_TX_DMA \<and>
       tx_buffer (tx s') = buffer \<and> tx_length (tx s') = len \<and> \<not> needs_tc (tx s') \<and>
       deadline (tx s') = (if timeout \<noteq> SYS_FOREVER_US
         then uptime_ticks s + max 1 (us_to_ticks X timeout) else 0)"
    "r \<noteq> Ok \<Longrightarrow> tx_phase (tx s') = tx_phase (tx s) \<and> tx_buffer (tx s') = tx_buffer (tx s) \<and>
       tx_length (tx s') = tx_length (tx s) \<and> needs_tc (tx s') = needs_tc (tx s)"
    by blast+
qed

text \<open>The transfer a port is in the middle of, as its channel shows it.\<close>

lemma tx_ok_transfer:
  assumes "uart_inv dok view meta C s" "tx_phase (tx s) \<noteq> WCH_TX_IDLE"
  obtains left where "left \<le> unat (tx_length (tx s))"
    "view (dma s) (dma_tx_channel C) = ARunning (unat (tx_length (tx s))) left \<or>
     view (dma s) (dma_tx_channel C) = AReady (unat (tx_length (tx s))) left"
    "tx_callback (tx s) \<noteq> None"
  using assms by (cases "tx_phase (tx s)") (auto simp: uart_inv_def tx_ok_def)

lemma tx_finish_outcome:
  assumes "dok (dma s)" "chans_ok nch C" "tx_phase (tx s) \<noteq> WCH_TX_IDLE" "tx_callback (tx s) \<noteq> None"
    and "view (dma s) (dma_tx_channel C) = ARunning (unat (tx_length (tx s))) left \<or>
         view (dma s) (dma_tx_channel C) = AReady (unat (tx_length (tx s))) left"
    and "left \<le> unat (tx_length (tx s))"
    and "type = TYPE_TX_DONE \<Longrightarrow> has (STATR (regs s)) USART_STATR_TC"
    and fin: "usart_wch_tx_finish_locked api C type s = (note, s')"
  shows "tx_outcome s note s'"
proof (cases type)
  case TYPE_TX_DONE
  then show ?thesis
    using assms tx_finish(4-6) [OF assms(1,2) fin] by (simp add: tx_outcome_def)
next
  case TYPE_TX_ABORTED
  then obtain n where "note_event note = UART_TX_ABORTED (tx_buffer (tx s)) n"
      "unat n = unat (tx_length (tx s)) - left"
    using tx_finish_aborted [OF assms(1,2,5,6)] fin by blast
  then show ?thesis
    using assms(3,4) tx_finish(4,5) [OF assms(1,2) fin]
    by (auto simp: tx_outcome_def word_le_nat_alt)
qed

text \<open>Finishing the current transfer keeps the invariant.\<close>

lemma tx_finish_inv:
  assumes "uart_inv dok view meta C s" "chans_ok nch C"
    and "usart_wch_tx_finish_locked api C type s = (note, s')"
  shows "uart_inv dok view meta C s'"
  using assms uart_inv_tx_op tx_finish(1-3) by (meson uart_inv_def)

text \<open>Ending the current transfer, for either reason: the invariant, the receive half and the
  outcome in one.\<close>

lemma tx_end_transfer:
  assumes inv: "uart_inv dok view meta C s" and ch: "chans_ok nch C"
    and ph: "tx_phase (tx s) \<noteq> WCH_TX_IDLE"
    and tc: "type = TYPE_TX_DONE \<Longrightarrow> has (STATR (regs s)) USART_STATR_TC"
    and fin: "usart_wch_tx_finish_locked api C type s = (note, s')"
  shows "uart_inv dok view meta C s' \<and> same_rx view meta C s s' \<and> tx_outcome s note s'"
proof -
  obtain left where left: "left \<le> unat (tx_length (tx s))"
    "view (dma s) (dma_tx_channel C) = ARunning (unat (tx_length (tx s))) left \<or>
     view (dma s) (dma_tx_channel C) = AReady (unat (tx_length (tx s))) left" "tx_callback (tx s) \<noteq> None"
    using tx_ok_transfer [OF inv ph] by blast
  have d: "dok (dma s)" using inv by (simp add: uart_inv_def)
  show ?thesis
    using tx_finish_inv [OF inv ch fin] tx_finish(2) [OF d ch fin]
      tx_finish_outcome [OF d ch ph left(3,2,1) tc fin] by blast
qed

lemma tx_abort_section:
  assumes "uart_inv dok view meta C s" "chans_ok nch C"
    and "usart_wch_tx_abort_locked api C s = (r, note, s')"
  shows "uart_inv dok view meta C s' \<and> same_rx view meta C s s' \<and> tx_outcome s note s'"
  using assms tx_end_transfer [OF assms(1,2), of TYPE_TX_ABORTED _ s']
  by (cases "tx_phase (tx s) = WCH_TX_IDLE") (auto simp: usart_wch_tx_abort_locked_def tx_outcome_def)

lemma tx_timeout_section:
  assumes inv: "uart_inv dok view meta C s" and ch: "chans_ok nch C"
    and op: "usart_wch_tx_timeout_locked X api C s = (note, s')"
  shows "uart_inv dok view meta C s' \<and> same_rx view meta C s s' \<and> tx_outcome s note s'"
proof (cases "tx_phase (tx s) \<noteq> WCH_TX_IDLE \<and> deadline (tx s) \<noteq> 0 \<and> deadline (tx s) \<le> uptime_ticks s")
  case True
  then show ?thesis
    using op tx_end_transfer [OF inv ch, of TYPE_TX_ABORTED _ s']
    by (simp add: usart_wch_tx_timeout_locked_def)
next
  case False
  then have "note = zero_note \<and> (s' = s \<or> (\<exists>n. s' = upd_tx (\<lambda>t. t\<lparr>timeout_work := n\<rparr>) s))"
    using op by (auto simp: usart_wch_tx_timeout_locked_def Let_def arm_timeout_def split: if_splits)
  then show ?thesis
    using inv by (auto simp: uart_inv_def tx_ok_def tx_outcome_def split: wch_uart_tx_phase.splits)
qed

text \<open>The transmit part of the interrupt handler.\<close>

lemma tx_isr_part:
  assumes "uart_inv dok view meta C s" "chans_ok nch C"
    and "(if tx_phase (tx s) = WCH_TX_WAIT_TC \<and> has (CTLR1 (regs s)) USART_CTLR1_TCIE \<and>
            has (STATR (regs s)) USART_STATR_TC
         then usart_wch_tx_finish_locked api C TYPE_TX_DONE s else (zero_note, s)) = (note, s')"
  shows "uart_inv dok view meta C s' \<and> same_rx view meta C s s' \<and> tx_outcome s note s'"
  using assms tx_end_transfer [OF assms(1,2), of TYPE_TX_DONE _ s']
  by (auto simp: tx_outcome_none split: if_splits)

text \<open>A change of the DMA state that keeps both channels of the port keeps the invariant.\<close>

lemma dma_change_inv:
  assumes "uart_inv dok view meta C s" "dok d"
    and "\<And>c. c = dma_tx_channel C \<or> c = dma_rx_channel C \<Longrightarrow> view d c = view (dma s) c"
    and "\<And>c. c = dma_tx_channel C \<or> c = dma_rx_channel C \<Longrightarrow> meta d c = meta (dma s) c"
  shows "uart_inv dok view meta C (s\<lparr>dma := d\<rparr>)"
  using assms by (simp add: uart_inv_def)

text \<open>The callback's critical section, for a channel the interrupt has just handled.\<close>

lemma tx_finish_after_irq:
  assumes inv: "uart_inv dok view meta C s" and ch: "chans_ok nch C"
    and u: "dok (dma u)" "same_rx view meta C s u" "tx_phase (tx u) \<noteq> WCH_TX_IDLE"
      "tx_phase (tx s) \<noteq> WCH_TX_IDLE" "tx_callback (tx s) \<noteq> None"
      "tx_buffer (tx u) = tx_buffer (tx s)" "tx_length (tx u) = tx_length (tx s)"
      "tx_user_data (tx u) = tx_user_data (tx s)" "STATR (regs u) = STATR (regs s)"
      "view (dma u) (dma_tx_channel C) = AReady (unat (tx_length (tx s))) left"
      "left \<le> unat (tx_length (tx s))"
    and tc: "type = TYPE_TX_DONE \<Longrightarrow> has (STATR (regs s)) USART_STATR_TC"
    and fin: "usart_wch_tx_finish_locked api C type u = (note, s')"
  shows "uart_inv dok view meta C s' \<and> same_rx view meta C s s' \<and> tx_outcome s note s'"
proof -
  note f = tx_finish [OF u(1) ch fin]
  have cb: "tx_callback (tx u) = tx_callback (tx s)" using u(2) by (simp add: same_rx_def)
  have "tx_outcome u note s'"
    using tx_finish_outcome [OF u(1) ch u(3) _ _ _ _ fin] u tc cb by auto
  then have "tx_outcome s note s'" using u(4) f(4) u cb by (auto simp: tx_outcome_def zero_note_def)
  moreover have sr: "same_rx view meta C s s'" using same_rx_trans [OF u(2) f(2)] .
  moreover have "uart_inv dok view meta C s'" using uart_inv_tx_op [OF inv sr f(1,3)] .
  ultimately show ?thesis by blast
qed

lemma tx_irq_section:
  assumes inv: "uart_inv dok view meta C s" and ch: "chans_ok nch C"
    and irq: "irq (dma_tx_channel C) (dma s) = (d, Some k)"
    and op: "usart_wch_tx_dma_callback_locked api C (dma_tx_dev C) (call_ch k) (call_status k)
               (s\<lparr>dma := d\<rparr>) = (note, s')"
  shows "uart_inv dok view meta C s' \<and> same_rx view meta C s s' \<and> tx_outcome s note s'"
proof -
  let ?t = "dma_tx_channel C" and ?r = "dma_rx_channel C" and ?s = "s\<lparr>dma := d\<rparr>"
  let ?w = "upd_tx (\<lambda>t. t\<lparr>tx_phase := WCH_TX_WAIT_TC\<rparr>)
              (upd_regs (\<lambda>r. r\<lparr>CTLR3 := CTLR3 r AND NOT USART_CTLR3_DMAT\<rparr>) ?s)"
  have c: "?t < nch" "?r < nch" "?r \<noteq> ?t" and dk: "dok (dma s)"
    using ch inv by (auto simp: chans_ok_def uart_inv_def)
  have dma: "tx_phase (tx s) = WCH_TX_DMA"
    using irq_idle [OF dk c(1) irq] inv
    by (cases "tx_phase (tx s)") (auto simp: uart_inv_def tx_ok_def)
  then obtain left where v: "view (dma s) ?t = ARunning (unat (tx_length (tx s))) left"
    and left: "left \<le> unat (tx_length (tx s))" and cb: "tx_callback (tx s) \<noteq> None"
    and m: "\<not> m_cyclic (meta (dma s) ?t)"
    using inv by (auto simp: uart_inv_def tx_ok_def)
  note call = irq_call [OF dk c(1) irq]
  then have cc: "call_ch k = ?t" by blast
  have d: "dok d" and meta: "meta d ?t = meta (dma s) ?t" "meta d ?r = meta (dma s) ?r"
    and vr: "view d ?r = view (dma s) ?r"
    using irq_dok [OF dk c(1) irq] irq_meta [OF dk c(1) irq] irq_other [OF dk c(1) irq] c by auto
  have sr: "same_rx view meta C s ?s" "same_rx view meta C s ?w"
    using vr meta by (auto simp: same_rx_def wch_bits dest: bit_word_less)
  show ?thesis
  proof (cases "status_neg (call_status k) \<or> call_status k = DMA_STATUS_COMPLETE")
    case True
    then have vt: "view d ?t = AReady (unat (tx_length (tx s))) left" using call v m by simp
    note s = tx_finish_after_irq [OF inv ch, of ?s left] and w = tx_finish_after_irq [OF inv ch, of ?w left]
    consider "usart_wch_tx_finish_locked api C TYPE_TX_ABORTED ?s = (note, s')"
      | "usart_wch_tx_finish_locked api C TYPE_TX_DONE ?w = (note, s')" "has (STATR (regs s)) USART_STATR_TC"
      | "note = zero_note" "s' = upd_regs (\<lambda>r. r\<lparr>CTLR1 := CTLR1 r OR USART_CTLR1_TCIE\<rparr>) ?w"
      using True op dma cc unfolding usart_wch_tx_dma_callback_locked_def Let_def
      by (cases "has (STATR (regs s)) USART_STATR_TC"; cases "status_neg (call_status k)") simp_all
    then show ?thesis
    proof cases
      case 1
      then show ?thesis using s [of TYPE_TX_ABORTED] dma d sr cb left vt by simp
    next
      case 2
      then show ?thesis using w [of TYPE_TX_DONE] dma d sr cb left vt by simp
    next
      case 3
      then have "same_rx view meta C s s'"
        using sr by (auto simp: same_rx_def wch_bits dest: bit_word_less)
      moreover have "tx_ok C (view (dma s') ?t) (meta (dma s') ?t) (regs s') (tx s')"
        using 3 vt left inv dma by (simp add: uart_inv_def tx_ok_def wch_bits)
      ultimately have "same_rx view meta C s s'" "uart_inv dok view meta C s'"
        using uart_inv_tx_op [OF inv, of s'] 3 d by simp_all
      then show ?thesis using 3 dma by (simp add: tx_outcome_def)
    qed
  next
    case False
    then have "view d ?t = view (dma s) ?t" "s' = ?s" "note = zero_note"
      using op call cc dma by (auto simp: usart_wch_tx_dma_callback_locked_def)
    then show ?thesis
      using sr dma_change_inv [OF inv d] vr meta by (auto simp: tx_outcome_def)
  qed
qed

end

end
