(* ===== verification/Uart_Rx_Props.thy ===== *)
theory Uart_Rx_Props
  imports Uart_Rx_Spec Uart_Tx_Props
begin

text \<open>
  Asynchronous reception over any DMA provider: each critical section keeps the invariant and
  the transmit half, and follows the receive automaton.
\<close>

unbundle bit_operations_syntax

section \<open>Finishing and handing over, on the ring\<close>

lemma active_ring_cases:
  assumes "rx_active_ring r"
  obtains (empty) "rx_ring r = []"
  | (request) pre where "rx_ring r = pre @ [\<lparr>rx_event = UART_RX_BUF_REQUEST, note_generation = generation r\<rparr>]"
      "length pre \<le> 2" "\<forall>n \<in> set pre. data_event (rx_event n)" "rx_next r = 0" "\<not> request_open r"
  using assms by (auto simp: rx_active_ring_def split: if_splits)

lemma active_ring_bound: "rx_active_ring r \<Longrightarrow> length (rx_ring r) + (if rx_next r \<noteq> 0 then 5 else 4) \<le> 7"
  by (erule active_ring_cases) (auto simp: rx_active_ring_def)

lemma finish_events_split:
  obtains es where "finish_events cnt reason r = es @ [UART_RX_DISABLED]" "UART_RX_DISABLED \<notin> set es"
  by (rule that [of "butlast (finish_events cnt reason r)"])
    (auto simp: finish_events_def butlast_append)

lemma active_ring_no_disabled: "rx_active_ring r \<Longrightarrow> n \<in> set (rx_ring r) \<Longrightarrow> rx_event n \<noteq> UART_RX_DISABLED"
  by (erule active_ring_cases) auto

lemma finish_ring_items:
  assumes "ring_wf (rx s)" "rx_active_ring (rx s)"
  shows "ring_wf (rx (usart_wch_rx_finish X cnt reason s))"
    and "rx_ring (rx (usart_wch_rx_finish X cnt reason s)) = rx_ring (rx s) @
      map (\<lambda>e. \<lparr>rx_event = e, note_generation = generation (rx s)\<rparr>) (finish_events cnt reason (rx s))"
proof -
  let ?es = "finish_events cnt reason (rx s)"
  have "length (rx_ring (rx s)) + length ?es \<le> RX_NOTES"
    using active_ring_bound [OF assms(2)] finish_events_length [of cnt reason "rx s"]
    by (simp add: RX_NOTES_def split: if_splits)
  then have q: "ring_wf (fold usart_wch_rx_queue ?es (rx s))"
    "rx_ring (fold usart_wch_rx_queue ?es (rx s)) = rx_ring (rx s) @
      map (\<lambda>e. \<lparr>rx_event = e, note_generation = generation (rx s)\<rparr>) ?es"
    using ring.push_all [OF assms(1)] by simp_all
  then show "ring_wf (rx (usart_wch_rx_finish X cnt reason s))"
    and "rx_ring (rx (usart_wch_rx_finish X cnt reason s)) = rx_ring (rx s) @
      map (\<lambda>e. \<lparr>rx_event = e, note_generation = generation (rx s)\<rparr>) ?es"
    unfolding finish_rx by (simp_all add: ring_wf_def rx_ring_def)
qed

lemma finish_stopping_ring:
  assumes "ring_wf (rx s)" "rx_active_ring (rx s)"
  shows "rx_stopping_ring (rx (usart_wch_rx_finish X cnt reason s))"
proof -
  obtain es where es: "finish_events cnt reason (rx s) = es @ [UART_RX_DISABLED]" "UART_RX_DISABLED \<notin> set es"
    by (rule finish_events_split)
  let ?tag = "\<lambda>e. \<lparr>rx_event = e, note_generation = generation (rx s)\<rparr>"
  have "rx_ring (rx (usart_wch_rx_finish X cnt reason s)) = (rx_ring (rx s) @ map ?tag es) @ [?tag UART_RX_DISABLED]"
    using finish_ring_items(2) [OF assms, of X cnt reason] es by simp
  moreover have "length (rx_ring (rx s) @ map ?tag es) \<le> 6"
    using active_ring_bound [OF assms(2)] finish_events_length [of cnt reason "rx s"] es
    by (simp split: if_splits)
  ultimately show ?thesis
    unfolding rx_stopping_ring_def
    using active_ring_no_disabled [OF assms(2)] es(2) by (intro exI conjI) auto
qed

lemma finish_phase [simp]: "rx_phase (rx (usart_wch_rx_finish X cnt reason s)) = WCH_RX_STOPPING"
  by (simp add: finish_rx)

text \<open>Before a queued request is delivered the automaton stands at the same loans.\<close>

lemma spec_before_request:
  assumes "rx_spec_event a UART_RX_BUF_REQUEST = Some (RxSession ls req rep stp)"
  shows "a = RxSession ls False rep stp"
  using assms by (auto elim!: rx_spec_event.elims split: if_splits)

lemma spec_events_snoc:
  "rx_spec_events a (es @ [e]) = Some b \<longleftrightarrow> (\<exists>c. rx_spec_events a es = Some c \<and> rx_spec_event c e = Some b)"
  by (simp add: rx_spec_events_append split: option.splits)

lemma filter_data_events:
  "\<forall>n \<in> set pre. data_event (rx_event n) \<Longrightarrow>
   filter (\<lambda>e. e \<noteq> UART_RX_BUF_REQUEST) (map rx_event pre) = map rx_event pre"
  by (rule filter_True) auto

lemma finish_sim:
  assumes wf: "ring_wf (rx s)" and ar: "rx_active_ring (rx s)" and act: "rx_phase (rx s) = WCH_RX_ACTIVE"
    and cnt: "cnt \<le> rx_length (rx s)" and sim: "rx_sim a (rx s)"
  shows "rx_sim a (rx (usart_wch_rx_finish X cnt reason s))"
proof -
  let ?r = "rx s" and ?es = "finish_events cnt reason (rx s)"
  let ?ls = "(rx_buffer ?r, rx_length ?r) # (if rx_next ?r \<noteq> 0 then [(rx_next ?r, rx_next_length ?r)] else [])"
  have st: "rx_spec_events a (ring_events ?r) = Some (RxSession ?ls (rx_next ?r = 0) False False)"
    using sim act by (simp add: rx_sim_def)
  obtain req where "rx_spec_events a (filter (\<lambda>e. e \<noteq> UART_RX_BUF_REQUEST) (ring_events ?r)) =
      Some (RxSession ?ls req False False)"
    using ar
  proof (cases rule: active_ring_cases)
    case empty
    then show thesis using that st by (simp add: ring_events_def)
  next
    case (request pre)
    have "rx_spec_events a (map rx_event pre @ [UART_RX_BUF_REQUEST]) =
        Some (RxSession ?ls (rx_next ?r = 0) False False)"
      using st request(1) by (simp add: ring_events_def)
    then have "rx_spec_events a (map rx_event pre) = Some (RxSession ?ls False False False)"
      unfolding spec_events_snoc using spec_before_request by fastforce
    then show thesis
      using that request filter_data_events [OF request(3)] by (simp add: ring_events_def)
  qed
  then have "rx_spec_events a (filter (\<lambda>e. e \<noteq> UART_RX_BUF_REQUEST) (ring_events ?r) @ ?es) = Some RxIdle"
    unfolding rx_spec_events_append
    using finish_events_spec [OF cnt refl refl, where m = "rx_next_length ?r"] by simp
  then show ?thesis
    by (simp add: rx_sim_def ring_events_def finish_ring_items(2) [OF wf ar] comp_def
        finish_events_no_request)
qed

section \<open>Registers and requests\<close>

lemma rx_gate_sel [simp]:
  "rx (usart_wch_rx_gate A C s) = rx s" "tx (usart_wch_rx_gate A C s) = tx s"
  "dma (usart_wch_rx_gate A C s) = snd (api_stop A (dma_rx_channel C) (dma s))"
  "STATR (regs (usart_wch_rx_gate A C s)) = STATR (regs s)"
  "bit (CTLR3 (regs (usart_wch_rx_gate A C s))) n \<longleftrightarrow> n \<noteq> 6 \<and> n \<noteq> 0 \<and> bit (CTLR3 (regs s)) n"
  "bit (CTLR1 (regs (usart_wch_rx_gate A C s))) n \<longleftrightarrow> n \<noteq> 8 \<and> bit (CTLR1 (regs s)) n"
  by (auto simp: usart_wch_rx_gate_def Let_def wch_bits dest: bit_word_less)

lemma rx_finish_sel [simp]:
  "tx (usart_wch_rx_finish X cnt reason s) = tx s" "dma (usart_wch_rx_finish X cnt reason s) = dma s"
  "CTLR3 (regs (usart_wch_rx_finish X cnt reason s)) = CTLR3 (regs s)"
  "bit (CTLR1 (regs (usart_wch_rx_finish X cnt reason s))) n \<longleftrightarrow> n = 2 \<or> bit (CTLR1 (regs s)) n"
  by (simp_all add: usart_wch_rx_finish_def)

lemma rx_count_le: "usart_wch_rx_count X A C s reason = (cnt, reason') \<Longrightarrow> cnt \<le> rx_length (rx s)"
  by (auto simp: usart_wch_rx_count_def not_less word_le_nat_alt unat_sub_le
      split: sum.splits if_splits)

text \<open>The three ways out of a completion callback: end the session with a bounded count, for an
  error or for want of a next buffer, or hand over to the next buffer.\<close>

lemma rx_dma_callback_cases:
  assumes "rx_phase (rx s) = WCH_RX_ACTIVE"
    and "status_neg status \<or> status = DMA_STATUS_COMPLETE"
    and g: "g = usart_wch_rx_gate A C s"
    and s': "s' = usart_wch_rx_dma_callback_locked X A C (dma_rx_dev C) (dma_rx_channel C) status s"
  obtains (finish) cnt reason where "s' = usart_wch_rx_finish X cnt reason g" "cnt \<le> rx_length (rx s)"
  | (handoff) "rx_next (rx s) \<noteq> 0" "s' = (case usart_wch_rx_start A C (upd_rx rx_handoff g) of
        (Inr _, s2) \<Rightarrow> s2 | (Inl _, s2) \<Rightarrow> usart_wch_rx_finish X 0 (ERROR_OVERRUN X) s2)"
proof -
  define reason where "reason = (if status_neg status then usart_wch_rx_errors X (STATR (regs g)) OR ERROR_OVERRUN X
    else usart_wch_rx_errors X (STATR (regs g)))"
  obtain cnt r' where c: "usart_wch_rx_count X A C g reason = (cnt, r')" by force
  have e: "s' = (if reason \<noteq> 0 then usart_wch_rx_finish X cnt r' g
      else if rx_next (rx s) = 0 then usart_wch_rx_finish X (rx_length (rx s)) 0 g
      else case usart_wch_rx_start A C (upd_rx rx_handoff g) of
        (Inr _, s2) \<Rightarrow> s2 | (Inl _, s2) \<Rightarrow> usart_wch_rx_finish X 0 (ERROR_OVERRUN X) s2)"
    using assms(1,2) c unfolding s' usart_wch_rx_dma_callback_locked_def reason_def [symmetric] g [symmetric]
    by (auto simp: Let_def g reason_def [unfolded g])
  show thesis
  proof (cases "reason \<noteq> 0 \<or> rx_next (rx s) = 0")
    case True
    then show thesis using e finish rx_count_le [OF c] by (cases "reason = 0") (auto simp: g)
  next
    case False
    then show thesis using e handoff by simp
  qed
qed

lemma rx_request_ok:
  assumes "rx_length r \<noteq> 0" "unat (rx_length r) \<le> 65535"
  shows "dma_request_ok (rx_dma_request C r) (rx_dma_block C r)"
  using assms
  by (simp add: dma_request_ok_def rx_dma_request_def rx_dma_block_def zero_dma_config_def
      zero_block_def dma_cfg_unsupported_def dma_cfg_bad_width_def dma_cfg_bad_block_def
      dma_cfg_bad_mode_def dma_cfg_direction_def DMA_WCH_MAX_BLOCK_def word_less_nat_alt Let_def)

lemma rx_request_sel [simp]:
  "head_block (rx_dma_request C r) = Some (rx_dma_block C r)"
  "block_size (rx_dma_block C r) = rx_length r"
  "request_meta (rx_dma_request C r) =
     \<lparr>m_cyclic = False, m_error_dis = False, m_cb = Some Usart_wch_rx_dma_callback,
      m_user = dev_ptr C, m_mem = rx_buffer r\<rparr>"
  by (simp_all add: rx_dma_request_def rx_dma_block_def request_meta_def zero_dma_config_def
      zero_block_def)

text \<open>The receive state a successful start leaves.\<close>

definition rx_started :: "usart_wch_config \<Rightarrow> wch_uart_rx \<Rightarrow> wch_uart_rx" where
  "rx_started C r = usart_wch_rx_queue UART_RX_BUF_REQUEST
     (r\<lparr>rx_block := rx_dma_block C r, rx_dma := rx_dma_request C r,
        generation := generation r + 1, request_open := False, rx_phase := WCH_RX_ACTIVE\<rparr>)"

lemma rx_started_sel [simp]:
  "rx_phase (rx_started C r) = WCH_RX_ACTIVE" "rx_buffer (rx_started C r) = rx_buffer r"
  "rx_length (rx_started C r) = rx_length r" "rx_next (rx_started C r) = rx_next r"
  "rx_next_length (rx_started C r) = rx_next_length r" "\<not> request_open (rx_started C r)"
  "generation (rx_started C r) = generation r + 1"
  by (simp_all add: rx_started_def)

lemma rx_started_ring:
  assumes "ring_wf r" "length (rx_ring r) < RX_NOTES"
  shows "ring_wf (rx_started C r)"
    and "rx_ring (rx_started C r) =
      rx_ring r @ [\<lparr>rx_event = UART_RX_BUF_REQUEST, note_generation = generation r + 1\<rparr>]"
proof -
  let ?r = "r\<lparr>rx_block := rx_dma_block C r, rx_dma := rx_dma_request C r,
        generation := generation r + 1, request_open := False, rx_phase := WCH_RX_ACTIVE\<rparr>"
  have "ring_wf ?r" "rx_ring ?r = rx_ring r" using assms by (simp_all add: ring_wf_def rx_ring_def)
  then show "ring_wf (rx_started C r)"
    and "rx_ring (rx_started C r) =
      rx_ring r @ [\<lparr>rx_event = UART_RX_BUF_REQUEST, note_generation = generation r + 1\<rparr>]"
    unfolding rx_started_def using queue_items [of ?r UART_RX_BUF_REQUEST] assms(2) by simp_all
qed

lemma rx_started_active:
  assumes "ring_wf r" "length (rx_ring r) \<le> 2" "\<forall>n \<in> set (rx_ring r). data_event (rx_event n)"
    and "rx_next r = 0"
  shows "ring_wf (rx_started C r)" "rx_active_ring (rx_started C r)"
    and "ring_events (rx_started C r) = ring_events r @ [UART_RX_BUF_REQUEST]"
proof -
  have "length (rx_ring r) < RX_NOTES" using assms(2) by (simp add: RX_NOTES_def)
  note ring = rx_started_ring [OF assms(1) this, of C]
  show "ring_wf (rx_started C r)" by (fact ring(1))
  show "rx_active_ring (rx_started C r)"
    using assms(2-4) by (simp add: rx_active_ring_def ring(2))
  show "ring_events (rx_started C r) = ring_events r @ [UART_RX_BUF_REQUEST]"
    by (simp add: ring_events_def ring(2))
qed

section \<open>Over any DMA provider\<close>

context dma_irq_provider
begin

lemma rx_gate:
  assumes "dok (dma s)" "chans_ok nch C"
  shows "dok (dma (usart_wch_rx_gate api C s))"
    and "view (dma (usart_wch_rx_gate api C s)) (dma_rx_channel C) = achan_stop (view (dma s) (dma_rx_channel C))"
    and "meta (dma (usart_wch_rx_gate api C s)) (dma_rx_channel C) = meta (dma s) (dma_rx_channel C)"
    and "same_tx view meta C s (usart_wch_rx_gate api C s)"
    and "rx_gated (regs (usart_wch_rx_gate api C s))"
proof -
  have c: "dma_rx_channel C < nch" "dma_tx_channel C < nch" "dma_tx_channel C \<noteq> dma_rx_channel C"
    using assms(2) by (auto simp: chans_ok_def)
  note st = prod.collapse [of "api_stop api (dma_rx_channel C) (dma s)", symmetric]
  show "dok (dma (usart_wch_rx_gate api C s))" using stop_dok [OF assms(1) st] by simp
  show "view (dma (usart_wch_rx_gate api C s)) (dma_rx_channel C) = achan_stop (view (dma s) (dma_rx_channel C))"
    using stop_view [OF assms(1) c(1) st] by simp
  show "meta (dma (usart_wch_rx_gate api C s)) (dma_rx_channel C) = meta (dma s) (dma_rx_channel C)"
    using stop_meta [OF assms(1) st c(1)] by simp
  show "same_tx view meta C s (usart_wch_rx_gate api C s)"
    using stop_meta [OF assms(1) st c(2)] stop_other [OF assms(1) st c(3)] by (simp add: same_tx_def)
  show "rx_gated (regs (usart_wch_rx_gate api C s))" by (simp add: rx_gated_def wch_bits)
qed

text \<open>The count after the gate is what DMA has written to the buffer.\<close>

lemma rx_count_exact:
  assumes "dok (dma s)" "chans_ok nch C"
    and "view (dma s) (dma_rx_channel C) = ARunning (unat (rx_length (rx s))) left"
    and "left \<le> unat (rx_length (rx s))"
    and cnt: "usart_wch_rx_count X api C (usart_wch_rx_gate api C s) reason = (cnt, reason')"
  shows "unat cnt = unat (rx_length (rx s)) - left \<and> reason' = reason"
proof -
  have c: "dma_rx_channel C < nch" using assms(2) by (simp add: chans_ok_def)
  obtain st where "api_get_status api (dma_rx_channel C) True
      (snd (api_stop api (dma_rx_channel C) (dma s))) = Inr st" "unat (pending_length st) = left"
    using stop_status [OF assms(1) c _ prod.collapse [symmetric]] assms(3) by auto
  then show ?thesis
    using cnt assms(4)
    by (auto simp: usart_wch_rx_count_def word_less_nat_alt unat_sub_le word_le_nat_alt split: if_splits)
qed

text \<open>Gate, then finish: the session ends in the stopping phase.  Here and below \<open>s0\<close> is the state
  before the DMA interrupt and \<open>s\<close> the state the driver's callback finds; for the other
  entry points they are the same.\<close>

lemma rx_finish_section:
  assumes inv: "uart_inv dok view meta C s0" and ch: "chans_ok nch C"
    and s: "dok (dma s)" "same_tx view meta C s0 s" "rx s = rx s0"
    and act: "rx_phase (rx s0) = WCH_RX_ACTIVE" and cnt: "cnt \<le> rx_length (rx s0)"
    and s': "s' = usart_wch_rx_finish X cnt reason (usart_wch_rx_gate api C s)"
  shows "uart_inv dok view meta C s'" "same_tx view meta C s0 s'" "rx_sim a (rx s0) \<Longrightarrow> rx_sim a (rx s')"
proof -
  let ?g = "usart_wch_rx_gate api C s"
  have r: "ring_wf (rx ?g)" "rx_active_ring (rx ?g)" and cb: "tx_callback (tx s) \<noteq> None"
    using inv act s by (auto simp: uart_inv_def rx_ok_def same_tx_def)
  note g = rx_gate [OF s(1) ch]
  show st: "same_tx view meta C s0 s'"
    using same_tx_trans [OF s(2) g(4)] by (simp add: s' same_tx_def)
  have "rx_ok C (view (dma s') (dma_rx_channel C)) (meta (dma s') (dma_rx_channel C)) (regs s')
      (tx_callback (tx s')) (rx s')"
    using g(2,5) finish_ring_items(1) [OF r] finish_stopping_ring [OF r] cb achan_stop_busy
    by (simp add: s' rx_ok_def finish_rx rx_gated_def wch_bits)
  then show "uart_inv dok view meta C s'"
    using uart_inv_rx_op [OF inv st] g(1) by (simp add: s')
  show "rx_sim a (rx s')" if "rx_sim a (rx s0)"
    using finish_sim [OF r _ _ , of cnt a X reason] that act cnt s by (simp add: s')
qed

text \<open>Starting reception into a checked buffer on a quiet channel always succeeds.\<close>

lemma rx_start_ok:
  assumes "dok (dma s)" "chans_ok nch C" "\<not> achan_busy (view (dma s) (dma_rx_channel C))"
    and l: "rx_length (rx s) \<noteq> 0" "unat (rx_length (rx s)) \<le> 65535"
  obtains s' where "usart_wch_rx_start api C s = (Ok, s')" "rx s' = rx_started C (rx s)"
    "dok (dma s')" "same_tx view meta C s s'"
    "view (dma s') (dma_rx_channel C) = ARunning (unat (rx_length (rx s))) (unat (rx_length (rx s)))"
    "meta (dma s') (dma_rx_channel C) = request_meta (rx_dma_request C (rx s))"
    "has (CTLR3 (regs s')) USART_CTLR3_DMAR"
proof -
  let ?ch = "dma_rx_channel C" and ?q = "rx_dma_request C (rx s)"
  have ch: "?ch < nch" "dma_tx_channel C < nch" "dma_tx_channel C \<noteq> ?ch"
    using assms(2) by (auto simp: chans_ok_def)
  obtain d1 where c: "api_config api ?ch (Some ?q) (dma s) = (Ok, d1)"
    using config_accepts [OF assms(1) ch(1) rx_request_sel(1) rx_request_ok [OF l] assms(3)]
    by (metis prod.collapse)
  obtain r d2 where st: "api_start api ?ch d1 = (r, d2)" by force
  have d1: "dok d1" using config_dok [OF assms(1) c] .
  have r: "r = Ok" "dok d2" "view d2 ?ch = ARunning (unat (rx_length (rx s))) (unat (rx_length (rx s)))"
    using config_start [OF assms(1) ch(1) rx_request_sel(1) _ c st] l by simp_all
  let ?s' = "snd (usart_wch_rx_start api C s)"
  have s': "usart_wch_rx_start api C s = (Ok, ?s')" "rx ?s' = rx_started C (rx s)" "dma ?s' = d2"
    "tx ?s' = tx s" "bit (CTLR3 (regs ?s')) n \<longleftrightarrow> n = 0 \<or> n = 6 \<or> bit (CTLR3 (regs s)) n"
    "bit (CTLR1 (regs ?s')) n \<longleftrightarrow> n = 8 \<or> bit (CTLR1 (regs s)) n" for n
    using c st r by (auto simp: usart_wch_rx_start_def Let_def rx_started_def wch_bits dest: bit_word_less)
  show thesis
  proof (rule that [OF s'(1,2)])
    show "same_tx view meta C s ?s'"
      using start_other [OF d1 st ch(3)] config_other [OF assms(1) c ch(3)] start_meta [OF d1 st ch(2)]
        config_meta_other [OF assms(1) c ch(3)] by (simp add: same_tx_def s'(3-6))
    show "meta (dma ?s') ?ch = request_meta ?q"
      using start_meta [OF d1 st ch(1)] config_meta [OF assms(1) c] by (simp add: s'(3))
  qed (simp_all add: s'(3-6) r wch_bits)
qed

text \<open>The buffer boundary inside a session.\<close>

lemma rx_handoff_section:
  assumes inv: "uart_inv dok view meta C s0" and ch: "chans_ok nch C"
    and s: "dok (dma s)" "same_tx view meta C s0 s" "rx s = rx s0"
    and act: "rx_phase (rx s) = WCH_RX_ACTIVE" and nx: "rx_next (rx s) \<noteq> 0"
  obtains s' where "usart_wch_rx_start api C (upd_rx rx_handoff (usart_wch_rx_gate api C s)) = (Ok, s')"
    "uart_inv dok view meta C s'" "same_tx view meta C s0 s'"
    "rx_phase (rx s') = WCH_RX_ACTIVE" "\<And>a. rx_sim a (rx s) \<Longrightarrow> rx_sim a (rx s')"
    "rx_buffer (rx s') = rx_next (rx s)" "rx_length (rx s') = rx_next_length (rx s)" "rx_next (rx s') = 0"
    "ring_events (rx s') = [UART_RX_RDY (rx_buffer (rx s)) 0 (rx_length (rx s)),
       UART_RX_BUF_RELEASED (rx_buffer (rx s)), UART_RX_BUF_REQUEST]"
proof -
  let ?g = "upd_rx rx_handoff (usart_wch_rx_gate api C s)" and ?r = "rx s"
  let ?es = "[UART_RX_RDY (rx_buffer ?r) 0 (rx_length ?r), UART_RX_BUF_RELEASED (rx_buffer ?r)]"
  have wf: "ring_wf ?r" and e: "rx_ring ?r = []"
    and l: "rx_length ?r \<noteq> 0" "rx_next_length ?r \<noteq> 0" "unat (rx_next_length ?r) \<le> 65535"
    and cb: "tx_callback (tx s) \<noteq> None"
    using inv act nx s by (auto simp: uart_inv_def rx_ok_def rx_active_ring_def same_tx_def)
  note g = rx_gate [OF s(1) ch]
  have h: "rx ?g = (fold usart_wch_rx_queue ?es ?r)\<lparr>rx_buffer := rx_next ?r,
      rx_length := rx_next_length ?r, rx_next := 0, rx_next_length := 0\<rparr>"
    using l by (simp add: rx_handoff_def Let_def usart_wch_rx_ready_def usart_wch_rx_release_def)
  have q: "ring_wf (rx ?g)" "rx_ring (rx ?g) =
      map (\<lambda>e. \<lparr>rx_event = e, note_generation = generation ?r\<rparr>) ?es"
    using ring.push_all [OF wf, of ?es] e unfolding h by (simp_all add: ring_wf_def rx_ring_def RX_NOTES_def)
  obtain s' where st: "usart_wch_rx_start api C ?g = (Ok, s')" "rx s' = rx_started C (rx ?g)"
    "dok (dma s')" "same_tx view meta C ?g s'"
    "view (dma s') (dma_rx_channel C) = ARunning (unat (rx_length (rx ?g))) (unat (rx_length (rx ?g)))"
    "meta (dma s') (dma_rx_channel C) = request_meta (rx_dma_request C (rx ?g))"
    "has (CTLR3 (regs s')) USART_CTLR3_DMAR"
    by (rule rx_start_ok [of ?g C]) (use g ch l h achan_stop_busy in simp_all)
  have f: "rx_buffer (rx ?g) = rx_next ?r" "rx_length (rx ?g) = rx_next_length ?r" "rx_next (rx ?g) = 0"
    unfolding h by simp_all
  have act': "ring_wf (rx s')" "rx_active_ring (rx s')"
    "ring_events (rx s') = ?es @ [UART_RX_BUF_REQUEST]"
    using rx_started_active [OF q(1), of C] q(2) f(3) unfolding st(2)
    by (simp_all add: ring_events_def del: rx_ring_length)
  have sr: "same_tx view meta C s0 s'"
    using same_tx_trans [OF s(2) same_tx_trans [OF g(4)], of s'] st(4) by (simp add: same_tx_def)
  have "tx_callback (tx s') \<noteq> None" using sr s(2) cb by (simp add: same_tx_def)
  then have "rx_ok C (view (dma s') (dma_rx_channel C)) (meta (dma s') (dma_rx_channel C)) (regs s')
      (tx_callback (tx s')) (rx s')"
    using act'(1,2) st(5-7) f nx l by (simp add: rx_ok_def st(2) del: upd_rx_sel)
  then have "uart_inv dok view meta C s'" using uart_inv_rx_op [OF inv sr st(3)] by blast
  moreover have "rx_sim a (rx s')" if "rx_sim a ?r" for a
    using that act e nx l act'(3) f by (simp add: rx_sim_def st(2) ring_events_def [of ?r] del: upd_rx_sel)
  ultimately show thesis
    using that [OF st(1)] sr act'(3) f by (simp add: st(2) del: upd_rx_sel)
qed

text \<open>The DMA completion path: channel interrupt, then the callback's critical section.\<close>

lemma rx_irq_section:
  assumes inv: "uart_inv dok view meta C s" and ch: "chans_ok nch C"
    and irq: "irq (dma_rx_channel C) (dma s) = (d, Some k)"
    and s': "s' = usart_wch_rx_dma_callback_locked X api C (dma_rx_dev C) (call_ch k) (call_status k)
               (s\<lparr>dma := d\<rparr>)"
  shows "uart_inv dok view meta C s' \<and> same_tx view meta C s s' \<and> (\<forall>a. rx_sim a (rx s) \<longrightarrow> rx_sim a (rx s'))"
proof -
  let ?t = "dma_tx_channel C" and ?r = "dma_rx_channel C" and ?s = "s\<lparr>dma := d\<rparr>"
  have c: "?r < nch" "?t < nch" "?t \<noteq> ?r" and dk: "dok (dma s)"
    using ch inv by (auto simp: chans_ok_def uart_inv_def)
  have act: "rx_phase (rx s) = WCH_RX_ACTIVE"
    using irq_idle [OF dk c(1) irq] inv by (cases "rx_phase (rx s)") (auto simp: uart_inv_def rx_ok_def)
  note call = irq_call [OF dk c(1) irq]
  then have cc: "call_ch k = ?r" by blast
  have d: "dok (dma ?s)" using irq_dok [OF dk c(1) irq] by simp
  have st: "same_tx view meta C s ?s"
    using irq_meta [OF dk c(1) irq c(2)] irq_other [OF dk c(1) irq c(3)] by (simp add: same_tx_def)
  have rx: "rx ?s = rx s" by simp
  note fin = rx_finish_section [OF inv ch d st rx act]
  show ?thesis
  proof (cases "status_neg (call_status k) \<or> call_status k = DMA_STATUS_COMPLETE")
    case False
    then have "s' = ?s" "view d ?r = view (dma s) ?r" "meta d ?r = meta (dma s) ?r"
      using s' call irq_meta [OF dk c(1) irq c(1)] by (auto simp: usart_wch_rx_dma_callback_locked_def)
    then show ?thesis
      using st dma_change_inv [OF inv, of d] d by (auto simp: same_tx_def)
  next
    case True
    let ?g = "usart_wch_rx_gate api C ?s"
    have pre: "rx_phase (rx ?s) = WCH_RX_ACTIVE" using act by simp
    from pre True refl s' [unfolded cc] show ?thesis
    proof (cases rule: rx_dma_callback_cases)
      case (finish cnt reason)
      then show ?thesis using fin [of cnt s' X reason] by simp
    next
      case handoff
      obtain u where "usart_wch_rx_start api C (upd_rx rx_handoff ?g) = (Ok, u)"
        "uart_inv dok view meta C u" "same_tx view meta C s u" "\<And>a. rx_sim a (rx s) \<Longrightarrow> rx_sim a (rx u)"
        using rx_handoff_section [OF inv ch d st rx] act handoff(1) by simp blast
      with handoff show ?thesis by simp
    qed
  qed
qed

lemma rx_isr_section:
  assumes inv: "uart_inv dok view meta C s" and ch: "chans_ok nch C"
    and s': "s' = usart_wch_rx_isr_locked X api C s"
  shows "uart_inv dok view meta C s' \<and> same_tx view meta C s s' \<and> (\<forall>a. rx_sim a (rx s) \<longrightarrow> rx_sim a (rx s'))"
proof (cases "rx_phase (rx s) = WCH_RX_ACTIVE \<and> usart_wch_rx_errors X (STATR (regs s)) \<noteq> 0")
  case True
  obtain cnt r where c: "usart_wch_rx_count X api C (usart_wch_rx_gate api C s)
      (usart_wch_rx_errors X (STATR (regs s))) = (cnt, r)" by force
  have "dok (dma s)" using inv by (simp add: uart_inv_def)
  then show ?thesis
    using rx_finish_section [OF inv ch, of s cnt s' X r] rx_count_le [OF c] True c s'
    by (auto simp: usart_wch_rx_isr_locked_def)
next
  case False
  then show ?thesis using inv s' by (auto simp: usart_wch_rx_isr_locked_def Let_def)
qed

lemma rx_disable_section:
  assumes inv: "uart_inv dok view meta C s" and ch: "chans_ok nch C"
    and op: "usart_wch_rx_disable_locked X api C s = (r, s')"
  shows "uart_inv dok view meta C s' \<and> same_tx view meta C s s' \<and> (\<forall>a. rx_sim a (rx s) \<longrightarrow> rx_sim a (rx s'))"
    and "r = (if rx_phase (rx s) = WCH_RX_ACTIVE then Ok else Err EFAULT)"
proof -
  let ?e = "usart_wch_rx_errors X (STATR (regs s))"
  obtain cnt e where c: "usart_wch_rx_count X api C (usart_wch_rx_gate api C s) ?e = (cnt, e)" by force
  have d: "dok (dma s)" using inv by (simp add: uart_inv_def)
  show "uart_inv dok view meta C s' \<and> same_tx view meta C s s' \<and> (\<forall>a. rx_sim a (rx s) \<longrightarrow> rx_sim a (rx s'))"
    using rx_finish_section [OF inv ch, of s cnt s' X e] rx_count_le [OF c] c d op inv
    by (auto simp: usart_wch_rx_disable_locked_def split: if_splits)
  show "r = (if rx_phase (rx s) = WCH_RX_ACTIVE then Ok else Err EFAULT)"
    using op by (auto simp: usart_wch_rx_disable_locked_def Let_def case_prod_unfold split: if_splits)
qed

text \<open>Opening a session on a checked buffer.\<close>

lemma rx_enable_section:
  assumes inv: "uart_inv dok view meta C s" and ch: "chans_ok nch C"
    and chk: "wch_uart_dma_buffer_check buffer len = Ok"
    and op: "usart_wch_rx_enable_locked X api C buffer len s = (r, s')"
  shows "uart_inv dok view meta C s' \<and> same_tx view meta C s s'"
    and "r = (if rx_phase (rx s) \<noteq> WCH_RX_IDLE then Err EBUSY
              else if \<not> reserved (tx s) \<or> tx_callback (tx s) = None then Err EACCES else Ok)"
    and "r \<noteq> Ok \<Longrightarrow> s' = s"
    and "r = Ok \<Longrightarrow> rx_sim a (rx s) \<Longrightarrow>
           a = RxIdle \<and> rx_sim (RxSession [(buffer, len)] False False False) (rx s')"
proof -
  let ?P = "uart_inv dok view meta C s' \<and> same_tx view meta C s s' \<and>
    r = (if rx_phase (rx s) \<noteq> WCH_RX_IDLE then Err EBUSY
         else if \<not> reserved (tx s) \<or> tx_callback (tx s) = None then Err EACCES else Ok) \<and>
    (r \<noteq> Ok \<longrightarrow> s' = s) \<and>
    (r = Ok \<longrightarrow> (\<forall>a. rx_sim a (rx s) \<longrightarrow>
       a = RxIdle \<and> rx_sim (RxSession [(buffer, len)] False False False) (rx s')))"
  have ?P
  proof (cases "rx_phase (rx s) \<noteq> WCH_RX_IDLE \<or> \<not> reserved (tx s) \<or> tx_callback (tx s) = None")
    case True
    then show ?thesis using op inv by (auto simp: usart_wch_rx_enable_locked_def)
  next
    case False
    let ?g = "usart_wch_rx_clear X (usart_wch_rx_gate api C s)"
    let ?s1 = "upd_rx (\<lambda>r. r\<lparr>rx_buffer := buffer, rx_length := len\<rparr>) ?g"
    have d: "dok (dma s)" and wf: "ring_wf (rx s)" and e: "rx_ring (rx s) = []" "rx_next (rx s) = 0"
      using inv False by (auto simp: uart_inv_def rx_ok_def)
    have b: "buffer \<noteq> 0" "len \<noteq> 0" "unat len \<le> 65535" using chk by (auto simp: dma_buffer_check_Ok_iff)
    note g = rx_gate [OF d ch]
    have st1: "same_tx view meta C s ?s1" using g(4) by (simp add: same_tx_def)
    obtain u where u: "usart_wch_rx_start api C ?s1 = (Ok, u)" "rx u = rx_started C (rx ?s1)"
      "dok (dma u)" "same_tx view meta C ?s1 u"
      "view (dma u) (dma_rx_channel C) = ARunning (unat (rx_length (rx ?s1))) (unat (rx_length (rx ?s1)))"
      "meta (dma u) (dma_rx_channel C) = request_meta (rx_dma_request C (rx ?s1))"
      "has (CTLR3 (regs u)) USART_CTLR3_DMAR"
      by (rule rx_start_ok [of ?s1 C]) (use g ch b achan_stop_busy in simp_all)
    have rs: "r = Ok" "s' = u" using op False u(1) by (auto simp: usart_wch_rx_enable_locked_def Let_def)
    have ring: "ring_wf (rx ?s1)" "rx_ring (rx ?s1) = []" using wf e by (simp_all add: ring_wf_def rx_ring_def)
    note act = rx_started_active [OF ring(1), of C, unfolded ring(2)]
    have st: "same_tx view meta C s u" using same_tx_trans [OF st1 u(4)] .
    have "rx_ok C (view (dma u) (dma_rx_channel C)) (meta (dma u) (dma_rx_channel C)) (regs u)
        (tx_callback (tx u)) (rx u)"
      using act u(5-7) b e False st by (simp add: rx_ok_def u(2) same_tx_def)
    then have "uart_inv dok view meta C u" using uart_inv_rx_op [OF inv st u(3)] by blast
    moreover have "rx_sim (RxSession [(buffer, len)] False False False) (rx u)"
      using act(3) ring(2) e by (simp add: rx_sim_def u(2) ring_events_def)
    ultimately show ?thesis using rs st False by (simp add: rx_sim_def)
  qed
  then show "uart_inv dok view meta C s' \<and> same_tx view meta C s s'"
    "r = (if rx_phase (rx s) \<noteq> WCH_RX_IDLE then Err EBUSY
          else if \<not> reserved (tx s) \<or> tx_callback (tx s) = None then Err EACCES else Ok)"
    "r \<noteq> Ok \<Longrightarrow> s' = s"
    "r = Ok \<Longrightarrow> rx_sim a (rx s) \<Longrightarrow> a = RxIdle \<and> rx_sim (RxSession [(buffer, len)] False False False) (rx s')"
    by blast+
qed

end

section \<open>Buffer response and dispatch\<close>

text \<open>The overlap test of a buffer response decides whether the address ranges meet.\<close>

lemma overlap_iff:
  assumes "l \<noteq> 0" "len \<noteq> 0"
  shows "(if buffer \<le> b then b - buffer < len else buffer - b < l) \<longleftrightarrow> \<not> ranges_disjoint b l buffer len"
proof -
  have "0 < unat l" "0 < unat len" using assms by (simp_all add: unat_gt_0)
  then show ?thesis
    by (auto simp: ranges_disjoint_def word_less_nat_alt word_le_nat_alt unat_sub_le)
qed

lemma rx_buf_rsp_section:
  assumes inv: "uart_inv dok view meta C s"
    and op: "usart_wch_rx_buf_rsp buffer len s = (r, s')"
  shows "uart_inv dok view meta C s'" "same_tx view meta C s s'" "r \<noteq> Ok \<Longrightarrow> s' = s"
    and "r = Ok \<Longrightarrow> rx_sim a (rx s) \<Longrightarrow> \<exists>a'. rx_spec a (RxBuffer buffer len) = Some a' \<and> rx_sim a' (rx s')"
proof -
  show ns: "s' = s" if "r \<noteq> Ok"
    using op that by (auto simp: usart_wch_rx_buf_rsp_def split: sum.splits if_splits)
  have ok: "wch_uart_dma_buffer_check buffer len = Ok \<and> rx_phase (rx s) = WCH_RX_ACTIVE \<and>
      rx_next (rx s) = 0 \<and> request_open (rx s) \<and>
      \<not> (if buffer \<le> rx_buffer (rx s) then rx_buffer (rx s) - buffer < len
         else buffer - rx_buffer (rx s) < rx_length (rx s)) \<and>
      s' = upd_rx (\<lambda>r. r\<lparr>rx_next := buffer, rx_next_length := len, request_open := False\<rparr>) s" if "r = Ok"
    using op that by (auto simp: usart_wch_rx_buf_rsp_def split: sum.splits if_splits)
  show st: "same_tx view meta C s s'" using ns ok by (cases "r = Ok") (auto simp: same_tx_def)
  show "uart_inv dok view meta C s'"
  proof (cases "r = Ok")
    case True
    note o = ok [OF True]
    have "rx_ok C (view (dma s') (dma_rx_channel C)) (meta (dma s') (dma_rx_channel C)) (regs s')
        (tx_callback (tx s')) (rx s')"
      using inv o by (auto simp: uart_inv_def rx_ok_def rx_active_ring_def ring_wf_def rx_ring_def
          dma_buffer_check_Ok_iff)
    then show ?thesis using uart_inv_rx_op [OF inv st] inv o by (simp add: uart_inv_def)
  qed (use ns inv in simp)
  show "\<exists>a'. rx_spec a (RxBuffer buffer len) = Some a' \<and> rx_sim a' (rx s')"
    if "r = Ok" "rx_sim a (rx s)"
  proof -
    note o = ok [OF that(1)]
    have e: "rx_ring (rx s) = []" and l: "rx_length (rx s) \<noteq> 0" "len \<noteq> 0" "buffer \<noteq> 0"
      using inv o by (auto simp: uart_inv_def rx_ok_def rx_active_ring_def dma_buffer_check_Ok_iff)
    have "a = RxSession [(rx_buffer (rx s), rx_length (rx s))] True False False"
      using that(2) o e by (simp add: rx_sim_def ring_events_def)
    moreover have "ranges_disjoint (rx_buffer (rx s)) (rx_length (rx s)) buffer len"
      using o overlap_iff [OF l(1,2), of buffer "rx_buffer (rx s)"] by blast
    moreover have "rx_ring (rx s') = []" using o e by (simp add: rx_ring_def)
    ultimately show ?thesis using o l by (simp add: rx_sim_def ring_events_def)
  qed
qed

text \<open>One round of the dispatch loop, by the event at the head.\<close>

lemma rx_pop_sel [simp]:
  "rx_phase (rx_ring_pop r) = rx_phase r" "rx_buffer (rx_ring_pop r) = rx_buffer r"
  "rx_length (rx_ring_pop r) = rx_length r" "rx_next (rx_ring_pop r) = rx_next r"
  "rx_next_length (rx_ring_pop r) = rx_next_length r" "request_open (rx_ring_pop r) = request_open r"
  "generation (rx_ring_pop r) = generation r" "dispatching (rx_ring_pop r) = dispatching r"
  by (simp_all add: rx_ring_pop_def)

lemma ring_upd [simp]:
  "rx_ring (r\<lparr>request_open := q\<rparr>) = rx_ring r" "ring_wf (r\<lparr>request_open := q\<rparr>) = ring_wf r"
  "rx_ring (r\<lparr>rx_phase := p\<rparr>) = rx_ring r" "ring_wf (r\<lparr>rx_phase := p\<rparr>) = ring_wf r"
  "rx_ring (r\<lparr>dispatching := b\<rparr>) = rx_ring r" "ring_wf (r\<lparr>dispatching := b\<rparr>) = ring_wf r"
  by (simp_all add: rx_ring_def ring_wf_def)

lemma rx_pop_active:
  assumes inv: "uart_inv dok view meta C s" and act: "rx_phase (rx s) = WCH_RX_ACTIVE"
    and r: "rx_ring (rx s) = n # ns" and op: "rx_dispatch_pop s = (oe, s')"
  shows "uart_inv dok view meta C s' \<and> same_tx view meta C s s' \<and> oe = Some (rx_event n) \<and>
    (rx_sim a (rx s) \<longrightarrow> (\<exists>a'. rx_spec_event a (rx_event n) = Some a' \<and> rx_sim a' (rx s')))"
proof -
  have ok: "ring_wf (rx s)" "rx_active_ring (rx s)"
    using inv act by (auto simp: uart_inv_def rx_ok_def)
  note p = ring_pop_items [OF ok(1) r]
  from ok(2) r obtain pre where pre: "n # ns = pre @ [\<lparr>rx_event = UART_RX_BUF_REQUEST,
      note_generation = generation (rx s)\<rparr>]" "length pre \<le> 2" "\<forall>n \<in> set pre. data_event (rx_event n)"
    "rx_next (rx s) = 0" "\<not> request_open (rx s)"
    by (metis active_ring_cases list.distinct(1))
  have split: "pre = [] \<and> ns = [] \<and> rx_event n = UART_RX_BUF_REQUEST \<and> note_generation n = generation (rx s) \<or>
      (\<exists>pre'. pre = n # pre' \<and> data_event (rx_event n) \<and>
        ns = pre' @ [\<lparr>rx_event = UART_RX_BUF_REQUEST, note_generation = generation (rx s)\<rparr>])"
    using pre(1,3) by (cases pre) auto
  have rs: "oe = Some (rx_event n)" "s' = s\<lparr>rx := (rx_ring_pop (rx s))
      \<lparr>request_open := (rx_event n = UART_RX_BUF_REQUEST)\<rparr>\<rparr>"
  proof -
    have same: "(rx_ring_pop (rx s))\<lparr>request_open := False\<rparr> = rx_ring_pop (rx s)"
      using pre(5) by (cases "rx s") (simp add: rx_ring_pop_def)
    have ev: "rx_event n = UART_RX_BUF_REQUEST \<and> note_generation n = generation (rx s) \<or>
        rx_event n \<noteq> UART_RX_BUF_REQUEST \<and> rx_event n \<noteq> UART_RX_DISABLED"
      using split by auto
    show "oe = Some (rx_event n)" "s' = s\<lparr>rx := (rx_ring_pop (rx s))
        \<lparr>request_open := (rx_event n = UART_RX_BUF_REQUEST)\<rparr>\<rparr>"
      using op ev act same unfolding rx_dispatch_pop_def Let_def p(1) by auto
  qed
  have st: "same_tx view meta C s s'" by (simp add: rs(2) same_tx_def)
  have "rx_active_ring (rx s')"
    using split pre(2-4) p(2) by (auto simp: rs(2) rx_active_ring_def)
  then have "rx_ok C (view (dma s') (dma_rx_channel C)) (meta (dma s') (dma_rx_channel C)) (regs s')
      (tx_callback (tx s')) (rx s')"
    using inv act p(3) by (simp add: uart_inv_def rx_ok_def rs(2))
  then have "uart_inv dok view meta C s'"
    using uart_inv_rx_op [OF inv st] inv by (simp add: rs(2) uart_inv_def)
  moreover have "\<exists>a'. rx_spec_event a (rx_event n) = Some a' \<and> rx_sim a' (rx s')" if "rx_sim a (rx s)"
    using that act p(2) r by (auto simp: rx_sim_def ring_events_def rs(2) split: option.splits)
  ultimately show ?thesis using st rs(1) by blast
qed

lemma rx_pop_stopping:
  assumes inv: "uart_inv dok view meta C s" and stp: "rx_phase (rx s) = WCH_RX_STOPPING"
    and r: "rx_ring (rx s) = n # ns" and op: "rx_dispatch_pop s = (oe, s')"
  shows "uart_inv dok view meta C s' \<and> same_tx view meta C s s' \<and>
    oe = (if rx_event n = UART_RX_BUF_REQUEST then None else Some (rx_event n)) \<and>
    (rx_sim a (rx s) \<longrightarrow> (\<exists>a'. (if rx_event n = UART_RX_BUF_REQUEST then a' = a
       else rx_spec_event a (rx_event n) = Some a') \<and> rx_sim a' (rx s')))"
proof -
  have ok: "ring_wf (rx s)" "rx_stopping_ring (rx s)"
    using inv stp by (auto simp: uart_inv_def rx_ok_def)
  note p = ring_pop_items [OF ok(1) r]
  obtain pre g where pre: "n # ns = pre @ [\<lparr>rx_event = UART_RX_DISABLED, note_generation = g\<rparr>]"
    "length pre \<le> 6" "\<forall>n \<in> set pre. rx_event n \<noteq> UART_RX_DISABLED"
    using ok(2) r by (auto simp: rx_stopping_ring_def)
  have split: "pre = [] \<and> ns = [] \<and> rx_event n = UART_RX_DISABLED \<or>
      (\<exists>pre'. pre = n # pre' \<and> rx_event n \<noteq> UART_RX_DISABLED \<and>
        ns = pre' @ [\<lparr>rx_event = UART_RX_DISABLED, note_generation = g\<rparr>])"
    using pre(1,3) by (cases pre) auto
  have rs: "oe = (if rx_event n = UART_RX_BUF_REQUEST then None else Some (rx_event n))"
    "s' = s\<lparr>rx := (rx_ring_pop (rx s))\<lparr>rx_phase := (if rx_event n = UART_RX_DISABLED then WCH_RX_IDLE
       else WCH_RX_STOPPING)\<rparr>\<rparr>"
  proof -
    have same: "(rx_ring_pop (rx s))\<lparr>rx_phase := WCH_RX_STOPPING\<rparr> = rx_ring_pop (rx s)"
      using stp by (cases "rx s") (simp add: rx_ring_pop_def)
    show "oe = (if rx_event n = UART_RX_BUF_REQUEST then None else Some (rx_event n))"
      "s' = s\<lparr>rx := (rx_ring_pop (rx s))\<lparr>rx_phase := (if rx_event n = UART_RX_DISABLED then WCH_RX_IDLE
         else WCH_RX_STOPPING)\<rparr>\<rparr>"
      using op stp same unfolding rx_dispatch_pop_def Let_def p(1) by (auto split: if_splits)
  qed
  have st: "same_tx view meta C s s'" by (simp add: rs(2) same_tx_def)
  have "rx_stopping_ring (rx s')" if "rx_event n \<noteq> UART_RX_DISABLED"
    using split pre(2,3) p(2) that by (auto simp: rs(2) rx_stopping_ring_def)
  then have "rx_ok C (view (dma s') (dma_rx_channel C)) (meta (dma s') (dma_rx_channel C)) (regs s')
      (tx_callback (tx s')) (rx s')"
    using inv stp p(2,3) split by (auto simp: uart_inv_def rx_ok_def rs(2))
  then have "uart_inv dok view meta C s'"
    using uart_inv_rx_op [OF inv st] inv by (simp add: rs(2) uart_inv_def)
  moreover have "\<exists>a'. (if rx_event n = UART_RX_BUF_REQUEST then a' = a
      else rx_spec_event a (rx_event n) = Some a') \<and> rx_sim a' (rx s')" if "rx_sim a (rx s)"
    using that stp p(2) r split
    by (cases "rx_event n = UART_RX_BUF_REQUEST"; cases "rx_event n = UART_RX_DISABLED")
      (auto simp: rx_sim_def ring_events_def rs(2) split: option.splits)
  ultimately show ?thesis using st rs(1) by blast
qed

text \<open>Any round of the dispatch loop.\<close>

lemma rx_pop_section:
  assumes inv: "uart_inv dok view meta C s" and ne: "rx_count (rx s) \<noteq> 0"
    and op: "rx_dispatch_pop s = (oe, s')"
  shows "uart_inv dok view meta C s'" "same_tx view meta C s s'"
    and "oe \<noteq> None \<Longrightarrow> tx_callback (tx s) \<noteq> None"
    and "rx_sim a (rx s) \<Longrightarrow> \<exists>a'. (case oe of None \<Rightarrow> a' = a | Some ev \<Rightarrow> rx_spec_event a ev = Some a') \<and>
           rx_sim a' (rx s')"
proof -
  obtain n ns where r: "rx_ring (rx s) = n # ns"
    using ne rx_ring_Nil_iff [of "rx s"] by (cases "rx_ring (rx s)") auto
  have ph: "rx_phase (rx s) = WCH_RX_ACTIVE \<or> rx_phase (rx s) = WCH_RX_STOPPING"
    using inv r by (cases "rx_phase (rx s)") (auto simp: uart_inv_def rx_ok_def)
  have all: "uart_inv dok view meta C s' \<and> same_tx view meta C s s' \<and>
    (rx_sim a (rx s) \<longrightarrow> (\<exists>a'. (case oe of None \<Rightarrow> a' = a | Some ev \<Rightarrow> rx_spec_event a ev = Some a') \<and>
       rx_sim a' (rx s')))" for a
    using ph
  proof
    assume "rx_phase (rx s) = WCH_RX_ACTIVE"
    then show ?thesis using rx_pop_active [OF inv _ r op, of a] by auto
  next
    assume "rx_phase (rx s) = WCH_RX_STOPPING"
    then show ?thesis using rx_pop_stopping [OF inv _ r op, of a] by (auto split: if_splits)
  qed
  then show "uart_inv dok view meta C s'" "same_tx view meta C s s'"
    "rx_sim a (rx s) \<Longrightarrow> \<exists>a'. (case oe of None \<Rightarrow> a' = a | Some ev \<Rightarrow> rx_spec_event a ev = Some a') \<and>
       rx_sim a' (rx s')" by blast+
  show "tx_callback (tx s) \<noteq> None" using inv ph by (auto simp: uart_inv_def rx_ok_def)
qed

end
