(* ===== verification/Uart_System.thy ===== *)
theory Uart_System
  imports Uart_Rx_Props
begin

text \<open>
  One port in operation: application calls, the UART interrupt, the DMA channel interrupts with
  their callbacks, the timeout work item, the dispatch loop and the hardware, interleaved in
  any order.  Every critical section of the driver is one step; a step carries what the
  application observes of it.  The port's DMA calls go to a provider \<open>A\<close> with interrupt
  handler \<open>irq\<close> and hardware \<open>hw\<close>; the properties instantiate them with the WCH DMA driver.
\<close>

unbundle bit_operations_syntax

section \<open>Transmit automaton\<close>

text \<open>At most one transfer at a time, and exactly one terminal event for it.\<close>

fun tx_spec :: "(u32 \<times> u32) option \<Rightarrow> uart_obs \<Rightarrow> (u32 \<times> u32) option option" where
  "tx_spec None (TxAccepted b l) = Some (Some (b, l))"
| "tx_spec (Some (b, l)) (TxEvent (UART_TX_DONE b' n)) = (if b' = b \<and> n = l then Some None else None)"
| "tx_spec (Some (b, l)) (TxEvent (UART_TX_ABORTED b' n)) = (if b' = b \<and> n \<le> l then Some None else None)"
| "tx_spec a (RxEnabled _ _) = Some a"
| "tx_spec a (RxBuffer _ _) = Some a"
| "tx_spec a (RxEvent _) = Some a"
| "tx_spec _ _ = None"

fun tx_specs :: "(u32 \<times> u32) option \<Rightarrow> uart_obs list \<Rightarrow> (u32 \<times> u32) option option" where
  "tx_specs a [] = Some a"
| "tx_specs a (ob # obs) = (case tx_spec a ob of None \<Rightarrow> None | Some a' \<Rightarrow> tx_specs a' obs)"

lemma tx_specs_append:
  "tx_specs a (xs @ ys) = (case tx_specs a xs of None \<Rightarrow> None | Some a' \<Rightarrow> tx_specs a' ys)"
  by (induction xs arbitrary: a) (auto split: option.splits)

definition tx_abs :: "wch_uart_tx \<Rightarrow> (u32 \<times> u32) option" where
  "tx_abs t = (if tx_phase t = WCH_TX_IDLE then None else Some (tx_buffer t, tx_length t))"

section \<open>Steps\<close>

definition note_obs :: "wch_uart_tx_notification \<Rightarrow> uart_obs list" where
  "note_obs note = (case note_callback note of None \<Rightarrow> [] | Some _ \<Rightarrow> [TxEvent (note_event note)])"

text \<open>The callback a channel interrupt ends with, where it is one of this port's.\<close>

definition uart_dma_call ::
  "uart_ext \<Rightarrow> 'd dma_driver_api \<Rightarrow> usart_wch_config \<Rightarrow> dma_cb_call \<Rightarrow> 'd uart_dev \<Rightarrow>
   wch_uart_tx_notification \<times> 'd uart_dev" where
  "uart_dma_call X A C k s =
     (if call_user k \<noteq> dev_ptr C then (zero_note, s)
      else case call_cb k of
        Usart_wch_tx_dma_callback \<Rightarrow>
          usart_wch_tx_dma_callback_locked A C (dma_tx_dev C) (call_ch k) (call_status k) s
      | Usart_wch_rx_dma_callback \<Rightarrow>
          (zero_note, usart_wch_rx_dma_callback_locked X A C (dma_rx_dev C) (call_ch k) (call_status k) s)
      | Dma_callback_at _ \<Rightarrow> (zero_note, s))"

inductive uart_step ::
  "uart_ext \<Rightarrow> 'd dma_driver_api \<Rightarrow> (nat \<Rightarrow> 'd \<Rightarrow> 'd \<times> dma_cb_call option) \<Rightarrow> ('d \<Rightarrow> 'd \<Rightarrow> bool) \<Rightarrow> nat \<Rightarrow>
   usart_wch_config \<Rightarrow> 'd uart_dev \<Rightarrow> uart_obs list \<Rightarrow> 'd uart_dev \<Rightarrow> bool"
  for X A irq hw nch C where
  step_tx: "usart_wch_tx X A C buffer len timeout s = (r, s') \<Longrightarrow>
    uart_step X A irq hw nch C s (if r = Ok then [TxAccepted buffer len] else []) s'"
| step_tx_abort: "usart_wch_tx_abort_locked A C s = (r, note, s') \<Longrightarrow>
    uart_step X A irq hw nch C s (note_obs note) s'"
| step_tx_timeout: "usart_wch_tx_timeout_locked X A C s = (note, s') \<Longrightarrow>
    uart_step X A irq hw nch C s (note_obs note) s'"
| step_isr: "usart_wch_isr_locked X A C s = (note, s') \<Longrightarrow>
    uart_step X A irq hw nch C s (note_obs note) s'"
| step_dma_irq: "ch < nch \<Longrightarrow> irq ch (dma s) = (d, None) \<Longrightarrow>
    uart_step X A irq hw nch C s [] (s\<lparr>dma := d\<rparr>)"
| step_dma_call: "ch < nch \<Longrightarrow> irq ch (dma s) = (d, Some k) \<Longrightarrow>
    uart_dma_call X A C k (s\<lparr>dma := d\<rparr>) = (note, s') \<Longrightarrow>
    uart_step X A irq hw nch C s (note_obs note) s'"
| step_callback_set: "usart_wch_async_callback_set C cb user s = (r, s') \<Longrightarrow>
    uart_step X A irq hw nch C s [] s'"
| step_rx_enable: "wch_uart_dma_buffer_check buffer len = Ok \<Longrightarrow>
    usart_wch_rx_enable_locked X A C buffer len s = (r, s') \<Longrightarrow>
    uart_step X A irq hw nch C s (if r = Ok then [RxEnabled buffer len] else []) s'"
| step_rx_buf_rsp: "usart_wch_rx_buf_rsp buffer len s = (r, s') \<Longrightarrow>
    uart_step X A irq hw nch C s (if r = Ok then [RxBuffer buffer len] else []) s'"
| step_rx_disable: "usart_wch_rx_disable_locked X A C s = (r, s') \<Longrightarrow>
    uart_step X A irq hw nch C s [] s'"
| step_dispatch_enter: "\<not> dispatching (rx s) \<Longrightarrow>
    uart_step X A irq hw nch C s [] (upd_rx (\<lambda>r. r\<lparr>dispatching := True\<rparr>) s)"
| step_dispatch_pop: "dispatching (rx s) \<Longrightarrow> rx_count (rx s) \<noteq> 0 \<Longrightarrow> rx_dispatch_pop s = (oe, s') \<Longrightarrow>
    uart_step X A irq hw nch C s
      (if tx_callback (tx s) = None then [] else case oe of None \<Rightarrow> [] | Some ev \<Rightarrow> [RxEvent ev]) s'"
| step_dispatch_exit: "dispatching (rx s) \<Longrightarrow> rx_count (rx s) = 0 \<Longrightarrow>
    uart_step X A irq hw nch C s [] (upd_rx (\<lambda>r. r\<lparr>dispatching := False\<rparr>) s)"
| step_poll_out: "tx_poll_out_try b s = (r, s') \<Longrightarrow> uart_step X A irq hw nch C s [] s'"
| step_poll_in: "usart_wch_poll_in X C s = (r, s') \<Longrightarrow> uart_step X A irq hw nch C s [] s'"
| step_err_check: "usart_wch_err_check X K tick C s = (e, s') \<Longrightarrow> uart_step X A irq hw nch C s [] s'"
| step_usart_hw: "uart_step X A irq hw nch C s [] (upd_regs (\<lambda>r. r\<lparr>STATR := st, DATAR := b\<rparr>) s)"
| step_dma_hw: "hw (dma s) d \<Longrightarrow> uart_step X A irq hw nch C s [] (s\<lparr>dma := d\<rparr>)"
| step_time: "uptime_ticks s \<le> now \<Longrightarrow> uart_step X A irq hw nch C s [] (s\<lparr>uptime_ticks := now\<rparr>)"
| step_other_config: "ch \<noteq> dma_tx_channel C \<Longrightarrow> ch \<noteq> dma_rx_channel C \<Longrightarrow>
    api_config A ch oc (dma s) = (r, d) \<Longrightarrow> uart_step X A irq hw nch C s [] (s\<lparr>dma := d\<rparr>)"
| step_other_start: "ch \<noteq> dma_tx_channel C \<Longrightarrow> ch \<noteq> dma_rx_channel C \<Longrightarrow>
    api_start A ch (dma s) = (r, d) \<Longrightarrow> uart_step X A irq hw nch C s [] (s\<lparr>dma := d\<rparr>)"
| step_other_stop: "ch \<noteq> dma_tx_channel C \<Longrightarrow> ch \<noteq> dma_rx_channel C \<Longrightarrow>
    api_stop A ch (dma s) = (r, d) \<Longrightarrow> uart_step X A irq hw nch C s [] (s\<lparr>dma := d\<rparr>)"

text \<open>Runs with everything observed on the way.\<close>

inductive uart_run ::
  "uart_ext \<Rightarrow> 'd dma_driver_api \<Rightarrow> (nat \<Rightarrow> 'd \<Rightarrow> 'd \<times> dma_cb_call option) \<Rightarrow> ('d \<Rightarrow> 'd \<Rightarrow> bool) \<Rightarrow> nat \<Rightarrow>
   usart_wch_config \<Rightarrow> 'd uart_dev \<Rightarrow> uart_obs list \<Rightarrow> 'd uart_dev \<Rightarrow> bool"
  for X A irq hw nch C s where
  run_refl: "uart_run X A irq hw nch C s [] s"
| run_step: "uart_run X A irq hw nch C s obs s1 \<Longrightarrow> uart_step X A irq hw nch C s1 os s2 \<Longrightarrow>
    uart_run X A irq hw nch C s (obs @ os) s2"

text \<open>A port right after initialisation.\<close>

definition uart_fresh :: "'d uart_dev \<Rightarrow> bool" where
  "uart_fresh s \<longleftrightarrow> tx_phase (tx s) = WCH_TX_IDLE \<and> rx_phase (rx s) = WCH_RX_IDLE"

section \<open>Every step keeps the contract\<close>

text \<open>What a step promises: the invariant, and both automata advanced by the observations.\<close>

definition step_ok ::
  "('d \<Rightarrow> bool) \<Rightarrow> ('d \<Rightarrow> nat \<Rightarrow> achan) \<Rightarrow> ('d \<Rightarrow> nat \<Rightarrow> dma_meta) \<Rightarrow> usart_wch_config \<Rightarrow>
   'd uart_dev \<Rightarrow> uart_obs list \<Rightarrow> 'd uart_dev \<Rightarrow> bool" where
  "step_ok dok view meta C s os s' \<longleftrightarrow>
     uart_inv dok view meta C s' \<and> tx_specs (tx_abs (tx s)) os = Some (tx_abs (tx s')) \<and>
     (\<forall>a. rx_sim a (rx s) \<longrightarrow> (\<exists>a'. rx_specs a os = Some a' \<and> rx_sim a' (rx s')))"

lemma tx_section_ok:
  assumes "uart_inv dok view meta C s' \<and> same_rx view meta C s s' \<and> tx_outcome s note s'"
  shows "step_ok dok view meta C s (note_obs note) s'"
  using assms
  by (auto simp: step_ok_def same_rx_def tx_outcome_def note_obs_def tx_abs_def zero_note_def)

lemma rx_section_ok:
  assumes "uart_inv dok view meta C s'" "same_tx view meta C s s'"
    and "\<And>a. rx_sim a (rx s) \<Longrightarrow> rx_sim a (rx s')"
  shows "step_ok dok view meta C s [] s'"
  using assms by (auto simp: step_ok_def same_tx_def)

lemma rx_obs_ok:
  assumes "uart_inv dok view meta C s'" "same_tx view meta C s s'"
    and "\<And>a. rx_sim a (rx s) \<Longrightarrow> \<exists>a'. rx_spec a ob = Some a' \<and> rx_sim a' (rx s')"
    and "\<And>a. tx_spec a ob = Some a"
  shows "step_ok dok view meta C s [ob] s'"
  using assms by (fastforce simp: step_ok_def same_tx_def)

text \<open>A step that leaves alone what the invariant and the automata look at.\<close>

definition neutral :: "'d uart_dev \<Rightarrow> 'd uart_dev \<Rightarrow> bool" where
  "neutral s s' \<longleftrightarrow>
     dma s' = dma s \<and> CTLR1 (regs s') = CTLR1 (regs s) \<and> CTLR3 (regs s') = CTLR3 (regs s) \<and>
     (\<exists>b w. tx s' = (tx s)\<lparr>needs_tc := b, timeout_work := w\<rparr>) \<and>
     (\<exists>b. rx s' = (rx s)\<lparr>dispatching := b\<rparr>)"

lemma tx_ok_neutral: "tx_ok C a m r' (t\<lparr>needs_tc := b, timeout_work := w\<rparr>) = tx_ok C a m r t"
  if "CTLR1 r' = CTLR1 r" "CTLR3 r' = CTLR3 r"
  using that by (simp add: tx_ok_def split: wch_uart_tx_phase.splits)

lemma rx_ok_neutral: "rx_ok C a m r' cb (x\<lparr>dispatching := b\<rparr>) = rx_ok C a m r cb x"
  if "CTLR1 r' = CTLR1 r" "CTLR3 r' = CTLR3 r"
  using that
  by (simp add: rx_ok_def rx_gated_def rx_active_ring_def rx_stopping_ring_def
      split: wch_uart_rx_phase.splits)

lemma neutral_inv: "neutral s s' \<Longrightarrow> uart_inv dok view meta C s' = uart_inv dok view meta C s"
  by (auto simp: neutral_def uart_inv_def tx_ok_neutral rx_ok_neutral)

lemma rx_sim_neutral [simp]: "rx_sim a (x\<lparr>dispatching := b\<rparr>) = rx_sim a x"
  by (simp add: rx_sim_def ring_events_def split: wch_uart_rx_phase.splits)

lemma neutral_ok:
  assumes "uart_inv dok view meta C s" "neutral s s'"
  shows "step_ok dok view meta C s [] s'"
  using assms neutral_inv [OF assms(2)] by (auto simp: step_ok_def tx_abs_def neutral_def)

lemma self_update:
  "\<exists>b w. t = t\<lparr>needs_tc := b, timeout_work := w\<rparr>" "\<exists>b. r = r\<lparr>dispatching := b\<rparr>"
  "\<exists>b w. t\<lparr>needs_tc := c\<rparr> = t\<lparr>needs_tc := b, timeout_work := w\<rparr>"
  by (rule exI [of _ "needs_tc t"], rule exI [of _ "timeout_work t"], simp)
    (rule exI [of _ "dispatching r"], simp,
     rule exI [of _ c], rule exI [of _ "timeout_work t"], simp)

lemma neutral_intros:
  "neutral s (upd_rx (\<lambda>r. r\<lparr>dispatching := b\<rparr>) s)"
  "tx_poll_out_try c s = (q, s') \<Longrightarrow> neutral s s'"
  "usart_wch_poll_in X C s = (p, s') \<Longrightarrow> neutral s s'"
  "usart_wch_err_check X K tick C s = (e, s') \<Longrightarrow> neutral s s'"
  "neutral s (upd_regs (\<lambda>r. r\<lparr>STATR := st, DATAR := v\<rparr>) s)"
  "neutral s (s\<lparr>uptime_ticks := now\<rparr>)"
  by (auto simp: neutral_def tx_poll_out_try_def usart_wch_poll_in_def read_DATAR_def
      usart_wch_err_check_def Let_def split: if_splits intro: self_update)

lemma callback_set_ok:
  assumes "uart_inv dok view meta C s" "async_rx C" "usart_wch_async_callback_set C cb user s = (r, s')"
  shows "step_ok dok view meta C s [] s'"
  using assms
  by (auto simp: usart_wch_async_callback_set_def step_ok_def uart_inv_def tx_ok_def rx_ok_def tx_abs_def
      split: if_splits)

section \<open>Over any DMA provider\<close>

context dma_irq_provider
begin

lemma dma_only_ok:
  assumes "uart_inv dok view meta C s" "dok d"
    and "\<And>c. c = dma_tx_channel C \<or> c = dma_rx_channel C \<Longrightarrow> view d c = view (dma s) c \<and> meta d c = meta (dma s) c"
  shows "step_ok dok view meta C s [] (s\<lparr>dma := d\<rparr>)"
  using dma_change_inv [OF assms(1,2)] assms(3) by (simp add: step_ok_def)

text \<open>An interrupt without a callback changes neither of the port's channels.\<close>

lemma dma_irq_ok:
  assumes inv: "uart_inv dok view meta C s" and ch: "chans_ok nch C"
    and c: "c < nch" and irq: "irq c (dma s) = (d, None)"
  shows "step_ok dok view meta C s [] (s\<lparr>dma := d\<rparr>)"
proof -
  have d: "dok (dma s)" and lt: "dma_tx_channel C < nch" "dma_rx_channel C < nch"
    using inv ch by (simp_all add: uart_inv_def chans_ok_def)
  have q: "\<not> achan_busy (view (dma s) c') \<or> \<not> m_error_dis (meta (dma s) c') \<and> m_cb (meta (dma s) c') \<noteq> None"
    if "c' = dma_tx_channel C \<or> c' = dma_rx_channel C" for c'
    using inv that
    by (auto simp: uart_inv_def tx_ok_def rx_ok_def split: wch_uart_tx_phase.splits wch_uart_rx_phase.splits)
  show ?thesis
  proof (rule dma_only_ok [OF inv irq_dok [OF d c irq]])
    fix c' assume c': "c' = dma_tx_channel C \<or> c' = dma_rx_channel C"
    then have "meta d c' = meta (dma s) c'" using irq_meta [OF d c irq] lt by blast
    moreover have "view d c' = view (dma s) c'"
      using irq_other [OF d c irq, of c'] irq_idle [OF d c irq] irq_quiet [OF d c irq] q [OF c'] by metis
    ultimately show "view d c' = view (dma s) c' \<and> meta d c' = meta (dma s) c'" by blast
  qed
qed

text \<open>An interrupt that ends in a callback: the port's own channels, or somebody else's.\<close>

lemma dma_call_ok:
  assumes inv: "uart_inv dok view meta C s" and ch: "chans_ok nch C"
    and c: "c < nch" and irq: "irq c (dma s) = (d, Some k)"
    and op: "uart_dma_call X api C k (s\<lparr>dma := d\<rparr>) = (note, s')"
  shows "step_ok dok view meta C s (note_obs note) s'"
proof -
  have d: "dok (dma s)" using inv by (simp add: uart_inv_def)
  note call = irq_call [OF d c irq]
  have cc: "call_ch k = c" "m_cb (meta (dma s) c) = Some (call_cb k)" "call_user k = m_user (meta (dma s) c)"
    using call by simp_all
  have busy: "achan_busy (view (dma s) c)" using irq_idle [OF d c irq] by auto
  consider (tx) "c = dma_tx_channel C" | (rx) "c = dma_rx_channel C"
    | (other) "c \<noteq> dma_tx_channel C" "c \<noteq> dma_rx_channel C" by blast
  then show ?thesis
  proof cases
    case tx
    then have "m_cb (meta (dma s) c) = Some Usart_wch_tx_dma_callback" "m_user (meta (dma s) c) = dev_ptr C"
      using inv busy by (auto simp: uart_inv_def tx_ok_def split: wch_uart_tx_phase.splits)
    then have "usart_wch_tx_dma_callback_locked api C (dma_tx_dev C) (call_ch k) (call_status k)
        (s\<lparr>dma := d\<rparr>) = (note, s')"
      using op cc by (simp add: uart_dma_call_def)
    then show ?thesis using tx_section_ok tx_irq_section [OF inv ch] irq tx by blast
  next
    case rx
    then have "m_cb (meta (dma s) c) = Some Usart_wch_rx_dma_callback" "m_user (meta (dma s) c) = dev_ptr C"
      using inv busy by (auto simp: uart_inv_def rx_ok_def split: wch_uart_rx_phase.splits)
    then have "note = zero_note" and s': "s' = usart_wch_rx_dma_callback_locked X api C (dma_rx_dev C)
        (call_ch k) (call_status k) (s\<lparr>dma := d\<rparr>)"
      using op cc by (simp_all add: uart_dma_call_def)
    then show ?thesis
      using rx_irq_section [OF inv ch irq [unfolded rx] s'] rx_section_ok [of dok view meta C s' s]
      by (simp add: note_obs_def zero_note_def)
  next
    case other
    then have "note = zero_note" "s' = s\<lparr>dma := d\<rparr>"
      using op cc(1) by (auto simp: uart_dma_call_def usart_wch_tx_dma_callback_locked_def
          usart_wch_rx_dma_callback_locked_def split: dma_callback.splits if_splits)
    moreover have "step_ok dok view meta C s [] (s\<lparr>dma := d\<rparr>)"
      using other ch irq_other [OF d c irq] irq_meta [OF d c irq]
      by (intro dma_only_ok [OF inv irq_dok [OF d c irq]]) (auto simp: chans_ok_def)
    ultimately show ?thesis by (simp add: note_obs_def zero_note_def)
  qed
qed

lemma progress_ready: "achan_progress a a' \<Longrightarrow> \<not> achan_busy a \<Longrightarrow> a' = a"
  by (auto simp: achan_progress_def)

lemma progress_running:
  "achan_progress a a' \<Longrightarrow> \<exists>l. a = ARunning t l \<and> l \<le> t \<Longrightarrow> \<exists>l. a' = ARunning t l \<and> l \<le> t"
  by (auto simp: achan_progress_def)

lemma dma_hw_ok:
  assumes inv: "uart_inv dok view meta C s" and ch: "chans_ok nch C" and hw: "hw (dma s) d"
  shows "step_ok dok view meta C s [] (s\<lparr>dma := d\<rparr>)"
proof -
  have d: "dok (dma s)" and lt: "dma_tx_channel C < nch" "dma_rx_channel C < nch"
    using inv ch by (simp_all add: uart_inv_def chans_ok_def)
  note p = hw_view [OF d hw lt(1)] hw_view [OF d hw lt(2)]
    and m = hw_meta [OF d hw lt(1)] hw_meta [OF d hw lt(2)]
  have "tx_ok C (view d (dma_tx_channel C)) (meta d (dma_tx_channel C)) (regs s) (tx s)"
    using inv m(1) progress_ready [OF p(1)] progress_running [OF p(1)]
    by (cases "tx_phase (tx s)") (auto simp: uart_inv_def tx_ok_def)
  moreover have "rx_ok C (view d (dma_rx_channel C)) (meta d (dma_rx_channel C)) (regs s)
      (tx_callback (tx s)) (rx s)"
    using inv m(2) progress_ready [OF p(2)] progress_running [OF p(2)]
    by (cases "rx_phase (rx s)") (auto simp: uart_inv_def rx_ok_def)
  ultimately have "uart_inv dok view meta C (s\<lparr>dma := d\<rparr>)"
    using hw_dok [OF d hw] by (simp add: uart_inv_def)
  then show ?thesis by (simp add: step_ok_def)
qed

lemma tx_step_ok:
  assumes inv: "uart_inv dok view meta C s" and ch: "chans_ok nch C"
    and op: "usart_wch_tx X api C buffer len timeout s = (r, s')"
  shows "step_ok dok view meta C s (if r = Ok then [TxAccepted buffer len] else []) s'"
  using tx_call [OF inv ch op] by (auto simp: step_ok_def tx_abs_def same_rx_def)

lemma isr_step_ok:
  assumes inv: "uart_inv dok view meta C s" and ch: "chans_ok nch C" and arx: "async_rx C"
    and op: "usart_wch_isr_locked X api C s = (note, s')"
  shows "step_ok dok view meta C s (note_obs note) s'"
proof -
  let ?u = "usart_wch_rx_isr_locked X api C s"
  have rx: "uart_inv dok view meta C ?u \<and> same_tx view meta C s ?u \<and> (\<forall>a. rx_sim a (rx s) \<longrightarrow> rx_sim a (rx ?u))"
    using rx_isr_section [OF inv ch refl] .
  have "uart_inv dok view meta C s' \<and> same_rx view meta C ?u s' \<and> tx_outcome ?u note s'"
    using op arx rx by (intro tx_isr_part [OF _ ch]) (simp_all add: usart_wch_isr_locked_def Let_def)
  then have "step_ok dok view meta C ?u (note_obs note) s'" by (rule tx_section_ok)
  then show ?thesis using rx by (auto simp: step_ok_def same_tx_def)
qed

lemma enable_step_ok:
  assumes inv: "uart_inv dok view meta C s" and ch: "chans_ok nch C"
    and chk: "wch_uart_dma_buffer_check buffer len = Ok"
    and op: "usart_wch_rx_enable_locked X api C buffer len s = (r, s')"
  shows "step_ok dok view meta C s (if r = Ok then [RxEnabled buffer len] else []) s'"
proof (cases "r = Ok")
  case True
  then show ?thesis
    using rx_enable_section [OF inv ch chk op] rx_obs_ok [of dok view meta C s' s "RxEnabled buffer len"]
    by fastforce
next
  case False
  then have "s' = s" using rx_enable_section(3) [OF inv ch chk op] by blast
  then show ?thesis using False inv by (simp add: step_ok_def)
qed

lemma buf_rsp_step_ok:
  assumes inv: "uart_inv dok view meta C s" and op: "usart_wch_rx_buf_rsp buffer len s = (r, s')"
  shows "step_ok dok view meta C s (if r = Ok then [RxBuffer buffer len] else []) s'"
proof (cases "r = Ok")
  case True
  then show ?thesis
    using rx_buf_rsp_section [OF inv op] rx_obs_ok [of dok view meta C s' s "RxBuffer buffer len"] by simp
next
  case False
  then have "s' = s" using rx_buf_rsp_section(3) [OF inv op] by blast
  then show ?thesis using False inv by (simp add: step_ok_def)
qed

lemma pop_step_ok:
  assumes inv: "uart_inv dok view meta C s" and ne: "rx_count (rx s) \<noteq> 0"
    and op: "rx_dispatch_pop s = (oe, s')"
  shows "step_ok dok view meta C s
    (if tx_callback (tx s) = None then [] else case oe of None \<Rightarrow> [] | Some ev \<Rightarrow> [RxEvent ev]) s'"
proof (cases oe)
  case None
  then show ?thesis
    using rx_pop_section [OF inv ne op] rx_section_ok [of dok view meta C s' s] by simp
next
  case (Some ev)
  then show ?thesis
    using rx_pop_section [OF inv ne op] rx_obs_ok [of dok view meta C s' s "RxEvent ev"] by auto
qed

text \<open>Every step.\<close>

lemma uart_step_ok:
  assumes "uart_step X api irq hw nch C s os s'" "uart_inv dok view meta C s" "chans_ok nch C" "async_rx C"
  shows "step_ok dok view meta C s os s'"
  using assms(1)
proof cases
  case (step_tx buffer len timeout r)
  then show ?thesis using tx_step_ok [OF assms(2,3)] by blast
next
  case (step_tx_abort r n)
  then show ?thesis using tx_section_ok [OF tx_abort_section [OF assms(2,3)]] by blast
next
  case (step_tx_timeout n)
  then show ?thesis using tx_section_ok [OF tx_timeout_section [OF assms(2,3)]] by blast
next
  case (step_isr n)
  then show ?thesis using isr_step_ok [OF assms(2-4)] by blast
next
  case (step_dma_irq ch d)
  then show ?thesis using dma_irq_ok [OF assms(2,3)] by blast
next
  case (step_dma_call ch d k n)
  then show ?thesis using dma_call_ok [OF assms(2,3)] by blast
next
  case (step_callback_set cb user r)
  then show ?thesis using callback_set_ok [OF assms(2,4)] by blast
next
  case (step_rx_enable buffer len r)
  then show ?thesis using enable_step_ok [OF assms(2,3)] by blast
next
  case (step_rx_buf_rsp buffer len r)
  then show ?thesis using buf_rsp_step_ok [OF assms(2)] by blast
next
  case (step_rx_disable r)
  then show ?thesis using rx_disable_section(1) [OF assms(2,3)] rx_section_ok by blast
next
  case (step_dispatch_pop oe)
  then show ?thesis using pop_step_ok [OF assms(2)] by blast
next
  case (step_dma_hw d)
  then show ?thesis using dma_hw_ok [OF assms(2,3)] by blast
next
  case (step_other_config ch oc r d)
  have d: "dok (dma s)" using assms(2) by (simp add: uart_inv_def)
  show ?thesis
    unfolding step_other_config(1,2)
    using step_other_config(3,4) config_dok [OF d step_other_config(5)]
      config_other [OF d step_other_config(5)] config_meta_other [OF d step_other_config(5)]
    by (intro dma_only_ok [OF assms(2)]) auto
next
  case (step_other_start ch r d)
  have d: "dok (dma s)" using assms(2) by (simp add: uart_inv_def)
  show ?thesis
    unfolding step_other_start(1,2)
    using step_other_start(3-5) start_dok [OF d] start_other [OF d] start_meta [OF d] assms(3)
    by (intro dma_only_ok [OF assms(2)]) (auto simp: chans_ok_def)
next
  case (step_other_stop ch r d)
  have d: "dok (dma s)" using assms(2) by (simp add: uart_inv_def)
  show ?thesis
    unfolding step_other_stop(1,2)
    using step_other_stop(3-5) stop_dok [OF d] stop_other [OF d] stop_meta [OF d] assms(3)
    by (intro dma_only_ok [OF assms(2)]) (auto simp: chans_ok_def)
next
  case (step_poll_out b r)
  then show ?thesis using neutral_ok [OF assms(2) neutral_intros(2)] by blast
next
  case (step_poll_in r)
  then show ?thesis using neutral_ok [OF assms(2) neutral_intros(3)] by blast
next
  case (step_err_check K tick e)
  then show ?thesis using neutral_ok [OF assms(2) neutral_intros(4)] by blast
qed (simp_all add: neutral_ok [OF assms(2)] neutral_intros(1,5,6))

text \<open>Every run: the invariant holds and both automata accept what was observed.\<close>

lemma uart_run_ok:
  assumes "uart_run X api irq hw nch C s obs s'" "uart_inv dok view meta C s" "chans_ok nch C" "async_rx C"
    and "uart_fresh s"
  shows "uart_inv dok view meta C s' \<and> tx_specs None obs = Some (tx_abs (tx s')) \<and>
    (\<exists>a. rx_specs RxIdle obs = Some a \<and> rx_sim a (rx s'))"
  using assms(1)
proof induction
  case run_refl
  then show ?case using assms by (simp add: uart_fresh_def tx_abs_def rx_sim_def)
next
  case (run_step obs s1 os s2)
  then have "step_ok dok view meta C s1 os s2" using uart_step_ok assms(3,4) by blast
  with run_step.IH show ?case
    by (fastforce simp: step_ok_def tx_specs_append rx_specs_append)
qed

end

end
