(* ===== verification/Uart_Props.thy ===== *)
theory Uart_Props
  imports Uart_System
begin

text \<open>
  The properties of a UART port that drives its DMA channels through the WCH DMA driver.  They
  are the provider-generic facts of \<open>Uart_Tx_Props\<close>, \<open>Uart_Rx_Props\<close> and \<open>Uart_System\<close>
  at the interpretation \<open>wch_irq\<close>.
\<close>

unbundle bit_operations_syntax

abbreviation wch_inv :: "dma_wch_cfg \<Rightarrow> usart_wch_config \<Rightarrow> dma_dev uart_dev \<Rightarrow> bool" where
  "wch_inv D \<equiv> uart_inv (dma_inv D) chan_view chan_meta"

abbreviation wch_run ::
  "uart_ext \<Rightarrow> dma_wch_cfg \<Rightarrow> usart_wch_config \<Rightarrow> dma_dev uart_dev \<Rightarrow> uart_obs list \<Rightarrow> dma_dev uart_dev \<Rightarrow> bool" where
  "wch_run X D \<equiv> uart_run X (dma_wch_driver_api D) dma_wch_isr (dma_hw D) (num_channels D)"

text \<open>A port with both directions on a DMA controller, freshly initialised.\<close>

definition wch_port :: "dma_wch_cfg \<Rightarrow> usart_wch_config \<Rightarrow> dma_dev uart_dev \<Rightarrow> bool" where
  "wch_port D C s \<longleftrightarrow> wch_inv D C s \<and> uart_fresh s \<and> chans_ok (num_channels D) C \<and> async_rx C"

lemma wch_run_ok:
  assumes "wch_port D C s" "wch_run X D C s obs s'"
  shows "wch_inv D C s'" "tx_specs None obs = Some (tx_abs (tx s'))"
    "\<exists>a. rx_specs RxIdle obs = Some a \<and> rx_sim a (rx s')"
  using wch_irq.uart_run_ok [OF assms(2)] assms(1) by (auto simp: wch_port_def)

section \<open>A concrete port\<close>

definition zero_tx :: wch_uart_tx where
  "zero_tx = \<lparr>tx_phase = WCH_TX_IDLE, tx_callback = None, tx_user_data = 0, tx_uart = 0, tx_buffer = 0,
     tx_length = 0, tx_block = zero_block, tx_dma = zero_dma_config, timeout_work = None, deadline = 0,
     reserved = False, needs_tc = False\<rparr>"

definition zero_rx_note :: wch_uart_rx_note where
  "zero_rx_note = \<lparr>rx_event = UART_RX_DISABLED, note_generation = 0\<rparr>"

definition zero_rx :: wch_uart_rx where
  "zero_rx = \<lparr>rx_phase = WCH_RX_IDLE, rx_buffer = 0, rx_length = 0, rx_next = 0, rx_next_length = 0,
     rx_block = zero_block, rx_dma = zero_dma_config, request_open = False, dispatching = False,
     generation = 0, rx_notes = replicate RX_NOTES zero_rx_note, rx_head = 0, rx_count = 0\<rparr>"

definition zero_trace :: wch_irq_port_trace where
  "zero_trace = \<lparr>t_regs = 0, t_baud = 0, irq_count = 0, rx_bytes = 0, tx_bytes = 0, api_error_or = 0,
     fifo_error_or = 0, api_error_reads = 0, fifo_error_reads = 0, max_isr_ticks = 0, slow_isrs = 0,
     max_rx_service_ticks = 0, rx_service_over_char = 0, entry_tick = 0, last_status = 0,
     events_written = 0, frozen = 0, first_error_site = 0, first_error_status = 0, first_error_tick = 0,
     first_error_rx = 0, first_error_tx = 0, char_ticks = 0, timing_samples = 0, sample_countdown = 0,
     events = replicate WCH_TRACE_EVENTS \<lparr>ev_tick = 0, ev_kind = 0, ev_status = 0, ev_irq = 0, ev_rx = 0,
       ev_tx = 0, ev_duration = 0, ev_detail = 0\<rparr>\<rparr>"

definition demo_ext :: uart_ext where
  "demo_ext = \<lparr>ERROR_OVERRUN = 1, ERROR_PARITY = 2, ERROR_FRAMING = 4, ERROR_NOISE = 16, ERROR_BREAK = 8,
     UART_CFG_PARITY_NONE = 0, UART_CFG_STOP_BITS_1 = 1,
     datar_read = (\<lambda>st. st AND NOT (USART_STATR_PE OR USART_STATR_FE OR USART_STATR_NE OR
        USART_STATR_ORE OR USART_STATR_RXNE)),
     us_to_ticks = (\<lambda>us. us div 100), work_reschedule = (\<lambda>_. 1)\<rparr>"

definition demo_uart :: usart_wch_config where
  "demo_uart = \<lparr>regs_addr = 0x40013800, dev_ptr = 0x20000100, current_speed = 115200, parity = 0,
     stop_bits = 1, data_bits = 8, hw_flow_control = False, dma_tx_dev = 0x40020000,
     dma_rx_dev = 0x40020000, dma_tx_channel = 3, dma_rx_channel = 4, dma_prepare = True,
     async_tx = True, async_rx = True, interrupt_driven = False, irq_trace = False\<rparr>"

text \<open>The port after initialisation and \<^verbatim>\<open>uart_callback_set\<close>.\<close>

definition demo_port :: "dma_dev uart_dev" where
  "demo_port = \<lparr>regs = \<lparr>STATR = USART_STATR_TXE OR USART_STATR_TC, DATAR = 0, BRR = 1250,
       CTLR1 = USART_CTLR1_TE OR USART_CTLR1_RE OR USART_CTLR1_UE, CTLR2 = 0, CTLR3 = 0\<rparr>,
     trace = zero_trace, irq_cb = None, irq_user_data = 0,
     tx = zero_tx\<lparr>tx_uart := 0x20000100, reserved := True, tx_callback := Some 0x08001000\<rparr>,
     rx = zero_rx, dma = demo_dev, uptime_ticks = 0, irq_connected = True\<rparr>"

lemma demo_view: "chan_view demo_dev 3 = AFree" "chan_view demo_dev 4 = AFree"
  by (simp_all add: chan_view_def demo_dev_def zero_channel_def Let_def)

lemma demo_chans: "chans_ok (num_channels demo_cfg) demo_uart" "async_rx demo_uart"
  by (simp_all add: chans_ok_def demo_cfg_def demo_uart_def)

lemma demo_port_inv: "wch_inv demo_cfg demo_uart demo_port"
  by (simp add: uart_inv_def demo_port_def demo_uart_def demo_dev_inv demo_view tx_ok_def
      rx_ok_def zero_tx_def zero_rx_def ring_wf_def rx_ring_def RX_NOTES_def rx_gated_def wch_bits)

lemma demo_port_ok: "wch_port demo_cfg demo_uart demo_port"
  using demo_chans demo_port_inv
  by (simp add: wch_port_def uart_fresh_def demo_port_def zero_tx_def zero_rx_def)

text \<open>A transmission accepted and reception opened, as a run.\<close>

definition demo_sending :: "dma_dev uart_dev" where
  "demo_sending = snd (usart_wch_tx demo_ext (dma_wch_driver_api demo_cfg) demo_uart 0x20000200 64 1000 demo_port)"

definition demo_receiving :: "dma_dev uart_dev" where
  "demo_receiving =
     snd (usart_wch_rx_enable_locked demo_ext (dma_wch_driver_api demo_cfg) demo_uart 0x20000300 32 demo_sending)"

lemma demo_tx_ok:
  "usart_wch_tx demo_ext (dma_wch_driver_api demo_cfg) demo_uart 0x20000200 64 1000 demo_port = (Ok, demo_sending)"
proof -
  obtain r where r: "usart_wch_tx demo_ext (dma_wch_driver_api demo_cfg) demo_uart 0x20000200 64 1000 demo_port
      = (r, demo_sending)" by (metis demo_sending_def prod.collapse)
  have "r = tx_result demo_ext 0x20000200 64 1000 demo_port"
    using wch_irq.tx_call(3) [OF demo_port_inv demo_chans(1) r] .
  then show ?thesis using r by (simp add: tx_result_def demo_port_def zero_tx_def demo_ext_def)
qed

lemmas demo_sending_facts = wch_irq.tx_call [OF demo_port_inv demo_chans(1) demo_tx_ok]

lemma demo_rx_ok:
  "usart_wch_rx_enable_locked demo_ext (dma_wch_driver_api demo_cfg) demo_uart 0x20000300 32 demo_sending
     = (Ok, demo_receiving)"
proof -
  have chk: "wch_uart_dma_buffer_check 0x20000300 32 = Ok" by (simp add: dma_buffer_check_Ok_iff)
  obtain r where r: "usart_wch_rx_enable_locked demo_ext (dma_wch_driver_api demo_cfg) demo_uart 0x20000300 32
      demo_sending = (r, demo_receiving)" by (metis demo_receiving_def prod.collapse)
  have "rx demo_sending = zero_rx" "tx_callback (tx demo_sending) = Some 0x08001000" "reserved (tx demo_sending)"
    using demo_sending_facts(2) by (simp_all add: same_rx_def demo_sending_def) (simp_all add: demo_port_def)
  then show ?thesis
    using r wch_irq.rx_enable_section(2) [OF demo_sending_facts(1) demo_chans(1) chk r]
    by (simp add: zero_rx_def)
qed

lemma demo_run:
  "wch_run demo_ext demo_cfg demo_uart demo_port [TxAccepted 0x20000200 64, RxEnabled 0x20000300 32] demo_receiving"
proof -
  have chk: "wch_uart_dma_buffer_check 0x20000300 32 = Ok" by (simp add: dma_buffer_check_Ok_iff)
  have "wch_run demo_ext demo_cfg demo_uart demo_port [TxAccepted 0x20000200 64] demo_sending"
    using uart_run.run_step [OF uart_run.run_refl uart_step.step_tx [OF demo_tx_ok]] by simp
  from uart_run.run_step [OF this uart_step.step_rx_enable [OF chk demo_rx_ok]] show ?thesis by simp
qed

section \<open>Transmission over whole runs\<close>

text \<open>
  (C1) Over any run of a port (application calls, interrupts, timeouts, hardware, in any order),
  accepted transmissions and terminal events alternate: an accepted buffer gets exactly one
  event, \<open>DONE\<close> with its full length or \<open>ABORTED\<close> with at most its length, before the next
  buffer is accepted; and a transfer is outstanding exactly when the driver is not idle.
\<close>

theorem uart_tx_exactly_once:
  assumes "wch_port D C s" "wch_run X D C s obs s'"
  shows "tx_specs None obs = Some (tx_abs (tx s'))"
  using wch_run_ok(2) [OF assms] .

theorem uart_tx_exactly_once_witness:
  "tx_specs None [TxAccepted 0x20000200 64, RxEnabled 0x20000300 32] = Some (tx_abs (tx demo_receiving))"
  using uart_tx_exactly_once [OF demo_port_ok demo_run] .

section \<open>Reception over whole runs\<close>

lemma spec_events_idle: "rx_spec_events RxIdle es = Some a \<longleftrightarrow> es = [] \<and> a = RxIdle"
  by (cases es) auto

text \<open>The automaton is idle exactly when the driver is.\<close>

lemma rx_sim_idle:
  assumes "uart_inv dok view meta C s" "rx_sim a (rx s)"
  shows "a = RxIdle \<longleftrightarrow> rx_phase (rx s) = WCH_RX_IDLE"
  using assms
  by (cases "rx_phase (rx s)")
    (auto simp: rx_sim_def spec_events_idle uart_inv_def rx_ok_def rx_stopping_ring_def ring_events_def)

text \<open>
  (C2) Over any run the receive observations follow the receive automaton: buffers on loan,
  requests, data, errors, releases and the final event come in an order it accepts, and the
  session is over for the application exactly when the driver is idle again.
\<close>

theorem uart_rx_follows_spec:
  assumes "wch_port D C s" "wch_run X D C s obs s'"
  shows "\<exists>a. rx_specs RxIdle obs = Some a \<and> (a = RxIdle \<longleftrightarrow> rx_phase (rx s') = WCH_RX_IDLE)"
  using wch_run_ok(3) [OF assms] rx_sim_idle [OF wch_run_ok(1) [OF assms]] by blast

theorem uart_rx_follows_spec_witness:
  "\<exists>a. rx_specs RxIdle [TxAccepted 0x20000200 64, RxEnabled 0x20000300 32] = Some a \<and>
     (a = RxIdle \<longleftrightarrow> rx_phase (rx demo_receiving) = WCH_RX_IDLE)"
  using uart_rx_follows_spec [OF demo_port_ok demo_run] .

text \<open>Buffers lent to the driver and buffers given back, in order.\<close>

fun lent :: "uart_obs list \<Rightarrow> u32 list" where
  "lent [] = []"
| "lent (RxEnabled b _ # obs) = b # lent obs"
| "lent (RxBuffer b _ # obs) = b # lent obs"
| "lent (_ # obs) = lent obs"

fun released :: "uart_obs list \<Rightarrow> u32 list" where
  "released [] = []"
| "released (RxEvent (UART_RX_BUF_RELEASED b) # obs) = b # released obs"
| "released (_ # obs) = released obs"

fun on_loan :: "rx_state \<Rightarrow> (u32 \<times> u32) list" where
  "on_loan RxIdle = []"
| "on_loan (RxSession ls _ _ _) = ls"

lemma rx_spec_event_loans:
  "rx_spec_event a e = Some a' \<Longrightarrow> map fst (on_loan a) = released [RxEvent e] @ map fst (on_loan a')"
  by (cases "(a, e)" rule: rx_spec_event.cases) (auto split: if_splits)

lemma released_Cons: "released (ob # obs) = released [ob] @ released obs"
  by (cases ob) (auto split: uart_event.splits, rename_tac e, case_tac e, auto)

lemma rx_specs_loans:
  "rx_specs a obs = Some a' \<Longrightarrow> map fst (on_loan a) @ lent obs = released obs @ map fst (on_loan a')"
proof (induction obs arbitrary: a)
  case (Cons ob obs)
  then obtain b where b: "rx_spec a ob = Some b" "rx_specs b obs = Some a'"
    by (auto split: option.splits)
  have "map fst (on_loan a) @ lent [ob] = released [ob] @ map fst (on_loan b)"
    using b(1) by (cases "(a, ob)" rule: rx_spec.cases)
      (auto split: if_splits simp: rx_spec_event_loans)
  moreover have "lent (ob # obs) = lent [ob] @ lent obs" by (cases ob) auto
  ultimately show ?case using Cons.IH [OF b(2)] released_Cons [of ob obs] by (metis append.assoc)
qed simp

lemma rx_spec_event_two:
  "rx_spec_event a e = Some a' \<Longrightarrow> length (on_loan a) \<le> 2 \<Longrightarrow> length (on_loan a') \<le> 2"
  by (cases "(a, e)" rule: rx_spec_event.cases) (auto split: if_splits)

lemma rx_specs_two: "rx_specs a obs = Some a' \<Longrightarrow> length (on_loan a) \<le> 2 \<Longrightarrow> length (on_loan a') \<le> 2"
proof (induction obs arbitrary: a)
  case (Cons ob obs)
  then obtain b where b: "rx_spec a ob = Some b" "rx_specs b obs = Some a'"
    by (auto split: option.splits)
  have "length (on_loan b) \<le> 2"
    using b(1) Cons.prems(2) by (cases "(a, ob)" rule: rx_spec.cases)
      (auto split: if_splits dest: rx_spec_event_two)
  then show ?case using Cons.IH [OF b(2)] by blast
qed simp

text \<open>
  (C3) Every receive buffer the driver accepts comes back exactly once and in the order lent:
  the buffers lent are those released followed by at most two still on loan, and none is on
  loan once the driver is idle.
\<close>

theorem uart_rx_buffers_returned:
  assumes "wch_port D C s" "wch_run X D C s obs s'"
  shows "\<exists>held. lent obs = released obs @ held \<and> length held \<le> 2 \<and>
    (rx_phase (rx s') = WCH_RX_IDLE \<longrightarrow> held = [])"
proof -
  obtain a where a: "rx_specs RxIdle obs = Some a" "rx_sim a (rx s')"
    using wch_run_ok(3) [OF assms] by blast
  have "lent obs = released obs @ map fst (on_loan a)" using rx_specs_loans [OF a(1)] by simp
  moreover have "length (map fst (on_loan a)) \<le> 2" using rx_specs_two [OF a(1)] by simp
  moreover have "rx_phase (rx s') = WCH_RX_IDLE \<longrightarrow> map fst (on_loan a) = []"
    using a(2) by (auto simp: rx_sim_def)
  ultimately show ?thesis by blast
qed

theorem uart_rx_buffers_returned_witness:
  "\<exists>held. lent [TxAccepted 0x20000200 64, RxEnabled 0x20000300 32] =
     released [TxAccepted 0x20000200 64, RxEnabled 0x20000300 32] @ held \<and> length held \<le> 2"
  using uart_rx_buffers_returned [OF demo_port_ok demo_run] by blast

text \<open>
  (C7) The event ring never holds more than seven of its twelve entries, so the assertion in
  \<^verbatim>\<open>usart_wch_rx_queue\<close> never fires; the index stays inside the array.
\<close>

theorem uart_rx_ring_bounded:
  assumes "wch_port D C s" "wch_run X D C s obs s'"
  shows "unat (rx_count (rx s')) \<le> 7 \<and> unat (rx_head (rx s')) < length (rx_notes (rx s')) \<and>
    length (rx_notes (rx s')) = 12"
proof -
  have inv: "wch_inv D C s'" using wch_run_ok(1) [OF assms] .
  then have "length (rx_ring (rx s')) \<le> 7"
    using active_ring_bound [of "rx s'"]
    by (cases "rx_phase (rx s')") (auto simp: uart_inv_def rx_ok_def rx_stopping_ring_def
        simp del: rx_ring_length split: if_splits)
  then show ?thesis
    using inv by (auto simp: uart_inv_def rx_ok_def ring_wf_def RX_NOTES_def)
qed

theorem uart_rx_ring_bounded_witness:
  "unat (rx_count (rx demo_receiving)) \<le> 7 \<and> unat (rx_head (rx demo_receiving)) < length (rx_notes (rx demo_receiving)) \<and>
   length (rx_notes (rx demo_receiving)) = 12"
  using uart_rx_ring_bounded [OF demo_port_ok demo_run] .

section \<open>DMA stays inside borrowed memory\<close>

lemma rx_spec_events_loans_sub:
  "rx_spec_events a es = Some a' \<Longrightarrow> set (on_loan a') \<subseteq> set (on_loan a)"
proof (induction es arbitrary: a)
  case (Cons e es)
  then obtain b where b: "rx_spec_event a e = Some b" "rx_spec_events b es = Some a'"
    by (auto split: option.splits)
  have "set (on_loan b) \<subseteq> set (on_loan a)"
    using b(1) by (cases "(a, e)" rule: rx_spec_event.cases) (auto split: if_splits)
  then show ?case using Cons.IH [OF b(2)] by blast
qed simp

lemma enabled_running:
  assumes "dma_inv D d" "ch < num_channels D" "has (CFGR (reg d ch)) DMA_CFGR1_EN"
  shows "achan_busy (chan_view d ch) \<and> chan_view d ch = ARunning (unat (ch_length (chan d ch)))
     (unat (CNTR (reg d ch)) * unat (width (chan d ch)))"
  using dma_inv_chan [OF assms(1,2)] assms(3) by (simp add: chan_ok_def chan_view_def Let_def)

lemma rx_running_buffer:
  assumes "wch_inv D C s"
    and "chan_view (dma s) (dma_rx_channel C) = ARunning (unat (ch_length (chan (dma s) (dma_rx_channel C)))) left"
  shows "rx_phase (rx s) = WCH_RX_ACTIVE" "rx_length (rx s) = ch_length (chan (dma s) (dma_rx_channel C))"
    and "rx_buffer (rx s) = MADDR (reg (dma s) (dma_rx_channel C))"
proof -
  show a: "rx_phase (rx s) = WCH_RX_ACTIVE"
    using assms by (cases "rx_phase (rx s)") (simp_all add: uart_inv_def rx_ok_def)
  show "rx_length (rx s) = ch_length (chan (dma s) (dma_rx_channel C))"
    "rx_buffer (rx s) = MADDR (reg (dma s) (dma_rx_channel C))"
    using assms a by (auto simp: uart_inv_def rx_ok_def chan_meta_def word_unat_eq_iff)
qed

text \<open>
  (C4) In any state of any run, a channel of the port that is enabled in hardware moves data of a
  buffer the application has lent and not got back: an enabled receive channel writes exactly
  the current receive buffer, which is on loan, an enabled transmit channel reads exactly the
  buffer of the outstanding transmission.
\<close>

theorem uart_dma_confined:
  assumes "wch_port D C s" "wch_run X D C s obs s'"
  shows "(has (CFGR (reg (dma s') (dma_rx_channel C))) DMA_CFGR1_EN \<longrightarrow>
      (\<exists>a. rx_specs RxIdle obs = Some a \<and>
        (MADDR (reg (dma s') (dma_rx_channel C)), ch_length (chan (dma s') (dma_rx_channel C)))
          \<in> set (on_loan a))) \<and>
    (has (CFGR (reg (dma s') (dma_tx_channel C))) DMA_CFGR1_EN \<longrightarrow>
      tx_specs None obs =
        Some (Some (MADDR (reg (dma s') (dma_tx_channel C)), ch_length (chan (dma s') (dma_tx_channel C)))))"
proof -
  have inv: "wch_inv D C s'" using wch_run_ok(1) [OF assms] .
  have d: "dma_inv D (dma s')" and c: "dma_rx_channel C < num_channels D" "dma_tx_channel C < num_channels D"
    using inv assms(1) by (auto simp: uart_inv_def wch_port_def chans_ok_def)
  note en = enabled_running [OF d c(1)] enabled_running [OF d c(2)]
  obtain a where a: "rx_specs RxIdle obs = Some a" "rx_sim a (rx s')"
    using wch_run_ok(3) [OF assms] by blast
  have "(MADDR (reg (dma s') (dma_rx_channel C)), ch_length (chan (dma s') (dma_rx_channel C))) \<in> set (on_loan a)"
    if "has (CFGR (reg (dma s') (dma_rx_channel C))) DMA_CFGR1_EN"
  proof -
    have v: "rx_phase (rx s') = WCH_RX_ACTIVE" "rx_length (rx s') = ch_length (chan (dma s') (dma_rx_channel C))"
      "rx_buffer (rx s') = MADDR (reg (dma s') (dma_rx_channel C))"
      by (rule rx_running_buffer [OF inv], use en(1) [OF that] in simp)+
    then obtain ls q where "rx_spec_events a (ring_events (rx s')) =
        Some (RxSession ((MADDR (reg (dma s') (dma_rx_channel C)), ch_length (chan (dma s') (dma_rx_channel C))) # ls)
          q False False)"
      using a(2) unfolding rx_sim_def by simp
    from rx_spec_events_loans_sub [OF this] show ?thesis by simp
  qed
  moreover have "tx_abs (tx s') =
      Some (MADDR (reg (dma s') (dma_tx_channel C)), ch_length (chan (dma s') (dma_tx_channel C)))"
    if "has (CFGR (reg (dma s') (dma_tx_channel C))) DMA_CFGR1_EN"
    using inv en(2) [OF that]
    by (cases "tx_phase (tx s')") (auto simp: uart_inv_def tx_ok_def tx_abs_def chan_meta_def word_unat_eq_iff)
  ultimately show ?thesis using a(1) wch_run_ok(2) [OF assms] by auto
qed

lemma rx_start_active:
  "usart_wch_rx_start A C s = (Ok, s') \<Longrightarrow> rx_phase (rx s') = WCH_RX_ACTIVE \<and> \<not> request_open (rx s')"
  by (auto simp: usart_wch_rx_start_def Let_def case_prod_unfold split: if_splits)

lemma demo_receiving_facts:
  "wch_inv demo_cfg demo_uart demo_receiving" "rx_phase (rx demo_receiving) = WCH_RX_ACTIVE"
  "\<not> request_open (rx demo_receiving)"
proof -
  have chk: "wch_uart_dma_buffer_check 0x20000300 32 = Ok" by (simp add: dma_buffer_check_Ok_iff)
  show "wch_inv demo_cfg demo_uart demo_receiving"
    using wch_irq.rx_enable_section(1) [OF demo_sending_facts(1) demo_chans(1) chk demo_rx_ok] by blast
  show "rx_phase (rx demo_receiving) = WCH_RX_ACTIVE" "\<not> request_open (rx demo_receiving)"
    using demo_rx_ok rx_start_active
    by (auto simp: usart_wch_rx_enable_locked_def Let_def split: if_splits prod.splits)
qed

lemma demo_rx_enabled: "has (CFGR (reg (dma demo_receiving) 4)) DMA_CFGR1_EN"
proof -
  have d: "dma_inv demo_cfg (dma demo_receiving)" and c: "4 < num_channels demo_cfg"
    using demo_receiving_facts(1) by (simp_all add: uart_inv_def demo_cfg_def)
  have "dma_rx_channel demo_uart = 4" by (simp add: demo_uart_def)
  then obtain t l where "chan_view (dma demo_receiving) 4 = ARunning t l"
    using demo_receiving_facts by (auto simp: uart_inv_def rx_ok_def)
  then show ?thesis
    using dma_inv_chan [OF d c]
    by (simp add: chan_view_def Let_def chan_ok_def split: dma_wch_state.splits)
qed

theorem uart_dma_confined_witness:
  "\<exists>a. rx_specs RxIdle [TxAccepted 0x20000200 64, RxEnabled 0x20000300 32] = Some a \<and>
     (MADDR (reg (dma demo_receiving) 4), ch_length (chan (dma demo_receiving) 4)) \<in> set (on_loan a)"
proof -
  have "dma_rx_channel demo_uart = 4" by (simp add: demo_uart_def)
  then show ?thesis using uart_dma_confined [OF demo_port_ok demo_run] demo_rx_enabled by simp
qed

end
