(* ===== verification/Uart_Ops.thy ===== *)
theory Uart_Ops
  imports Uart_Props
begin

text \<open>
  What single operations of the UART driver do on every branch, with the WCH DMA driver
  underneath: return codes, byte counts, hand-over, deadlines, and that the loops end.
\<close>

unbundle bit_operations_syntax

abbreviation wch_api :: "dma_wch_cfg \<Rightarrow> dma_dev dma_driver_api" where
  "wch_api \<equiv> dma_wch_driver_api"

text \<open>Bytes a channel still has to move, from its registers.\<close>

abbreviation bytes_left :: "dma_dev \<Rightarrow> nat \<Rightarrow> nat" where
  "bytes_left d ch \<equiv> unat (CNTR (reg d ch)) * unat (width (chan d ch))"

lemma view_left:
  "chan_view d ch = ARunning t l \<or> chan_view d ch = AReady t l \<Longrightarrow> l = bytes_left d ch"
  by (auto simp: chan_view_def Let_def split: dma_wch_state.splits)

lemma idle_not_enabled:
  assumes "wch_inv D C s" "chans_ok (num_channels D) C"
  shows "tx_phase (tx s) = WCH_TX_IDLE \<Longrightarrow> \<not> has (CFGR (reg (dma s) (dma_tx_channel C))) DMA_CFGR1_EN"
    and "rx_phase (rx s) \<noteq> WCH_RX_ACTIVE \<Longrightarrow> \<not> has (CFGR (reg (dma s) (dma_rx_channel C))) DMA_CFGR1_EN"
proof -
  have d: "dma_inv D (dma s)" and c: "dma_tx_channel C < num_channels D" "dma_rx_channel C < num_channels D"
    using assms by (auto simp: uart_inv_def chans_ok_def)
  show "\<not> has (CFGR (reg (dma s) (dma_tx_channel C))) DMA_CFGR1_EN" if "tx_phase (tx s) = WCH_TX_IDLE"
    using that assms(1) enabled_running [OF d c(1)] by (auto simp: uart_inv_def tx_ok_def)
  show "\<not> has (CFGR (reg (dma s) (dma_rx_channel C))) DMA_CFGR1_EN" if "rx_phase (rx s) \<noteq> WCH_RX_ACTIVE"
    using that assms(1) enabled_running [OF d c(2)]
    by (cases "rx_phase (rx s)") (auto simp: uart_inv_def rx_ok_def)
qed

section \<open>Transmit\<close>

text \<open>
  (C23) The return code of a transmit call is a function of its arguments and the port: argument
  errors first, then busy, then not set up, then a failed deadline; the DMA calls it makes
  cannot fail.  A failed call leaves no transfer, no borrowed buffer and the transmit channel
  disabled if it was idle; a successful one has borrowed the buffer and set its deadline.
\<close>

theorem usart_wch_tx_outcomes:
  assumes inv: "wch_inv D C s" and ch: "chans_ok (num_channels D) C"
    and call: "usart_wch_tx X (wch_api D) C buffer len timeout s = (r, s')"
  shows "r = tx_result X buffer len timeout s \<and>
    (if r = Ok
     then tx_phase (tx s') = WCH_TX_DMA \<and> tx_buffer (tx s') = buffer \<and> tx_length (tx s') = len \<and>
       deadline (tx s') = (if timeout = SYS_FOREVER_US then 0
         else uptime_ticks s + max 1 (us_to_ticks X timeout))
     else tx_phase (tx s') = tx_phase (tx s) \<and> tx_buffer (tx s') = tx_buffer (tx s) \<and>
       tx_length (tx s') = tx_length (tx s) \<and> needs_tc (tx s') = needs_tc (tx s) \<and>
       \<not> (tx_phase (tx s) = WCH_TX_IDLE \<and> has (CFGR (reg (dma s') (dma_tx_channel C))) DMA_CFGR1_EN))"
  using wch_irq.tx_call [OF inv ch call] idle_not_enabled(1) [OF _ ch, of s'] by auto

theorem usart_wch_tx_outcomes_witness:
  "tx_result demo_ext 0x20000200 64 1000 demo_port = Ok \<and> tx_phase (tx demo_sending) = WCH_TX_DMA \<and>
   tx_length (tx demo_sending) = 64 \<and> deadline (tx demo_sending) = 10"
  using usart_wch_tx_outcomes [OF demo_port_inv demo_chans(1) demo_tx_ok]
  by (simp add: demo_port_def demo_ext_def)

text \<open>
  (C21) Aborting a transfer in either phase succeeds, reports exactly the bytes DMA had taken
  from the buffer, stops the channel and closes the request gate; and until the transmitter has
  drained, the next transmit call is refused exactly when some byte had been taken and the
  transmission-complete flag is not set.
\<close>

theorem usart_wch_tx_abort_counts:
  assumes inv: "wch_inv D C s" and ch: "chans_ok (num_channels D) C"
    and ph: "tx_phase (tx s) \<noteq> WCH_TX_IDLE"
    and op: "usart_wch_tx_abort_locked (wch_api D) C s = (r, note, s')"
  shows "r = Ok \<and> tx_phase (tx s') = WCH_TX_IDLE \<and>
    \<not> has (CFGR (reg (dma s') (dma_tx_channel C))) DMA_CFGR1_EN \<and>
    \<not> has (CTLR3 (regs s')) USART_CTLR3_DMAT \<and>
    (\<exists>n. note_event note = UART_TX_ABORTED (tx_buffer (tx s)) n \<and>
      unat n + bytes_left (dma s) (dma_tx_channel C) = unat (tx_length (tx s)) \<and>
      needs_tc (tx s') = (n \<noteq> 0 \<and> \<not> has (STATR (regs s)) USART_STATR_TC))"
proof -
  have fin: "usart_wch_tx_finish_locked (wch_api D) C TYPE_TX_ABORTED s = (note, s')" and r: "r = Ok"
    using op ph by (auto simp: usart_wch_tx_abort_locked_def)
  have d: "dma_inv D (dma s)" using inv by (simp add: uart_inv_def)
  obtain left where left: "left \<le> unat (tx_length (tx s))"
    "chan_view (dma s) (dma_tx_channel C) = ARunning (unat (tx_length (tx s))) left \<or>
     chan_view (dma s) (dma_tx_channel C) = AReady (unat (tx_length (tx s))) left"
    using wch_irq.tx_ok_transfer [OF inv ph] by blast
  have inv': "wch_inv D C s'" using wch_irq.tx_finish_inv [OF inv ch fin] .
  have idle: "tx_phase (tx s') = WCH_TX_IDLE" using wch_irq.tx_finish(4) [OF d ch fin] .
  then have "\<not> has (CTLR3 (regs s')) USART_CTLR3_DMAT" using inv' by (simp add: uart_inv_def tx_ok_def)
  moreover obtain n where "note_event note = UART_TX_ABORTED (tx_buffer (tx s)) n"
      "unat n = unat (tx_length (tx s)) - left"
      "needs_tc (tx s') = (n \<noteq> 0 \<and> \<not> has (STATR (regs s)) USART_STATR_TC)"
    using wch_irq.tx_finish_aborted [OF d ch left(2,1) fin] by blast
  ultimately show ?thesis
    using r idle idle_not_enabled(1) [OF inv' ch idle] left view_left [OF left(2)] by auto
qed

lemma demo_sending_busy: "tx_phase (tx demo_sending) = WCH_TX_DMA"
  using demo_sending_facts(4) by simp

theorem usart_wch_tx_abort_counts_witness:
  "fst (usart_wch_tx_abort_locked (wch_api demo_cfg) demo_uart demo_sending) = Ok \<and>
   (\<exists>n. note_event (fst (snd (usart_wch_tx_abort_locked (wch_api demo_cfg) demo_uart demo_sending))) =
       UART_TX_ABORTED (tx_buffer (tx demo_sending)) n \<and>
     unat n + bytes_left (dma demo_sending) 3 = unat (tx_length (tx demo_sending)))"
proof -
  obtain r n s' where op: "usart_wch_tx_abort_locked (wch_api demo_cfg) demo_uart demo_sending = (r, n, s')"
    by (metis prod_cases3)
  have ph: "tx_phase (tx demo_sending) \<noteq> WCH_TX_IDLE" and c: "dma_tx_channel demo_uart = 3"
    by (simp_all add: demo_sending_busy demo_uart_def)
  show ?thesis
    using usart_wch_tx_abort_counts [OF demo_sending_facts(1) demo_chans(1) ph op]
    unfolding op c fst_conv snd_conv by blast
qed

text \<open>
  (C25) The timeout handler ends the transfer exactly when the transfer it finds has a deadline that
  has passed: at or after the deadline it aborts, before it re-arms itself for exactly the
  remaining ticks, and a wakeup left over from an earlier transfer (no transfer, or one
  without deadline) does nothing.
\<close>

theorem usart_wch_tx_timeout_deadline:
  assumes inv: "wch_inv D C s" and ch: "chans_ok (num_channels D) C"
    and op: "usart_wch_tx_timeout_locked X (wch_api D) C s = (note, s')"
  shows "if tx_phase (tx s) = WCH_TX_IDLE \<or> deadline (tx s) = 0 then note = zero_note \<and> s' = s
    else if uptime_ticks s < deadline (tx s)
    then note = zero_note \<and> tx_phase (tx s') = tx_phase (tx s) \<and> dma s' = dma s \<and>
      (0 \<le> work_reschedule X (deadline (tx s) - uptime_ticks s) \<longrightarrow>
         timeout_work (tx s') = Some (deadline (tx s) - uptime_ticks s))
    else tx_phase (tx s') = WCH_TX_IDLE \<and> note_callback note = tx_callback (tx s) \<and>
      (\<exists>n \<le> tx_length (tx s). note_event note = UART_TX_ABORTED (tx_buffer (tx s)) n)"
proof (cases "tx_phase (tx s) = WCH_TX_IDLE \<or> deadline (tx s) = 0 \<or> uptime_ticks s < deadline (tx s)")
  case True
  then show ?thesis
    using op by (auto simp: usart_wch_tx_timeout_locked_def Let_def arm_timeout_def split: if_splits)
next
  case False
  then have fin: "usart_wch_tx_finish_locked (wch_api D) C TYPE_TX_ABORTED s = (note, s')"
    using op by (simp add: usart_wch_tx_timeout_locked_def)
  have d: "dma_inv D (dma s)" using inv by (simp add: uart_inv_def)
  obtain left where left: "left \<le> unat (tx_length (tx s))"
    "chan_view (dma s) (dma_tx_channel C) = ARunning (unat (tx_length (tx s))) left \<or>
     chan_view (dma s) (dma_tx_channel C) = AReady (unat (tx_length (tx s))) left"
    using wch_irq.tx_ok_transfer [OF inv] False by blast
  show ?thesis
    using wch_irq.tx_finish_aborted [OF d ch left(2,1) fin] wch_irq.tx_finish(4,5) [OF d ch fin] False
    by (auto simp: word_le_nat_alt)
qed

theorem usart_wch_tx_timeout_deadline_witness:
  "tx_phase (tx (snd (usart_wch_tx_timeout_locked demo_ext (wch_api demo_cfg) demo_uart demo_sending)))
     = WCH_TX_DMA \<and>
   timeout_work (tx (snd (usart_wch_tx_timeout_locked demo_ext (wch_api demo_cfg) demo_uart demo_sending)))
     = Some 10"
proof -
  have dl: "deadline (tx demo_sending) = 10"
    using demo_sending_facts(4) by (simp add: demo_ext_def demo_port_def)
  have up: "uptime_ticks demo_sending = 0"
    unfolding demo_sending_def by simp (simp add: demo_port_def)
  show ?thesis
    using usart_wch_tx_timeout_deadline [OF demo_sending_facts(1) demo_chans(1) prod.collapse [symmetric],
        of demo_ext] dl up
    by (simp add: demo_sending_busy demo_ext_def)
qed

section \<open>Receive\<close>

text \<open>
  (C22) Disabling an active session gates and stops the receive channel and queues, in this order,
  an error event if the receiver flags one, the data event for exactly the bytes DMA has
  written, the release of the current and of the next buffer, and the final event.
\<close>

theorem usart_wch_rx_disable_counts:
  assumes inv: "wch_inv D C s" and ch: "chans_ok (num_channels D) C"
    and act: "rx_phase (rx s) = WCH_RX_ACTIVE"
    and op: "usart_wch_rx_disable_locked X (wch_api D) C s = (r, s')"
  shows "r = Ok \<and> rx_phase (rx s') = WCH_RX_STOPPING \<and>
    \<not> has (CFGR (reg (dma s') (dma_rx_channel C))) DMA_CFGR1_EN \<and>
    \<not> has (CTLR3 (regs s')) USART_CTLR3_DMAR \<and>
    (\<exists>n. unat n + bytes_left (dma s) (dma_rx_channel C) = unat (rx_length (rx s)) \<and>
      ring_events (rx s') = ring_events (rx s) @
        finish_events n (usart_wch_rx_errors X (STATR (regs s))) (rx s))"
proof -
  let ?e = "usart_wch_rx_errors X (STATR (regs s))" and ?g = "usart_wch_rx_gate (wch_api D) C s"
  obtain n e where c: "usart_wch_rx_count X (wch_api D) C ?g ?e = (n, e)" by force
  have r: "r = Ok" and s': "s' = usart_wch_rx_finish X n e ?g"
    using op act c by (auto simp: usart_wch_rx_disable_locked_def)
  obtain left where left: "chan_view (dma s) (dma_rx_channel C) = ARunning (unat (rx_length (rx s))) left"
    "left \<le> unat (rx_length (rx s))" and ring: "ring_wf (rx ?g)" "rx_active_ring (rx ?g)"
    using inv act by (auto simp: uart_inv_def rx_ok_def)
  have d: "dma_inv D (dma s)" using inv by (simp add: uart_inv_def)
  have n: "unat n = unat (rx_length (rx s)) - left" "e = ?e"
    using wch_irq.rx_count_exact [OF d ch left c] by auto
  have inv': "wch_inv D C s'" using wch_irq.rx_disable_section(1) [OF inv ch op] by blast
  have ph: "rx_phase (rx s') = WCH_RX_STOPPING" by (simp add: s')
  then have "\<not> has (CTLR3 (regs s')) USART_CTLR3_DMAR"
    using inv' by (simp add: uart_inv_def rx_ok_def rx_gated_def)
  moreover have "ring_events (rx s') = ring_events (rx s) @ finish_events n ?e (rx s)"
    using finish_ring_items(2) [OF ring, of X n e] by (simp add: s' ring_events_def n comp_def)
  ultimately show ?thesis
    using r ph idle_not_enabled(2) [OF inv' ch] n(1) left view_left [OF disjI1, OF left(1)]
    by (auto intro!: exI [of _ n])
qed

theorem usart_wch_rx_disable_counts_witness:
  "fst (usart_wch_rx_disable_locked demo_ext (wch_api demo_cfg) demo_uart demo_receiving) = Ok \<and>
   (\<exists>n :: u32. unat n + bytes_left (dma demo_receiving) 4 = unat (rx_length (rx demo_receiving)))"
proof -
  obtain r s' where op: "usart_wch_rx_disable_locked demo_ext (wch_api demo_cfg) demo_uart demo_receiving = (r, s')"
    by force
  have c: "dma_rx_channel demo_uart = 4" by (simp add: demo_uart_def)
  show ?thesis
    using usart_wch_rx_disable_counts [OF demo_receiving_facts(1) demo_chans(1) demo_receiving_facts(2) op]
    unfolding op c fst_conv by blast
qed

text \<open>
  (C24) The return code of a buffer response: argument errors, no session, no open request or a
  buffer already queued, and the overlap test, which refuses exactly the buffers whose address
  range meets the buffer in use; an accepted buffer becomes the next one and closes the
  request, a refused one changes nothing.
\<close>

theorem usart_wch_rx_buf_rsp_accepts:
  assumes inv: "wch_inv D C s" and op: "usart_wch_rx_buf_rsp buffer len s = (r, s')"
  shows "r = (if buffer = 0 \<or> len = 0 then Err EINVAL
      else if unat len > 65535 then Err EMSGSIZE
      else if rx_phase (rx s) \<noteq> WCH_RX_ACTIVE then Err EACCES
      else if rx_next (rx s) \<noteq> 0 \<or> \<not> request_open (rx s) then Err EBUSY
      else if \<not> ranges_disjoint (rx_buffer (rx s)) (rx_length (rx s)) buffer len then Err EINVAL
      else Ok) \<and>
    (if r = Ok then rx_next (rx s') = buffer \<and> rx_next_length (rx s') = len \<and> \<not> request_open (rx s')
     else s' = s)"
proof -
  have l: "rx_phase (rx s) = WCH_RX_ACTIVE \<Longrightarrow> rx_length (rx s) \<noteq> 0"
    using inv by (simp add: uart_inv_def rx_ok_def)
  have e: "(r, s') = (if buffer = 0 \<or> len = 0 then (Err EINVAL, s)
      else if unat len > 65535 then (Err EMSGSIZE, s)
      else if rx_phase (rx s) \<noteq> WCH_RX_ACTIVE then (Err EACCES, s)
      else if rx_next (rx s) \<noteq> 0 \<or> \<not> request_open (rx s) then (Err EBUSY, s)
      else if \<not> ranges_disjoint (rx_buffer (rx s)) (rx_length (rx s)) buffer len then (Err EINVAL, s)
      else (Ok, upd_rx (\<lambda>r. r\<lparr>rx_next := buffer, rx_next_length := len, request_open := False\<rparr>) s))"
    unfolding op [symmetric] usart_wch_rx_buf_rsp_def wch_uart_dma_buffer_check_def WCH_UART_DMA_MAX_BYTES_def
    using overlap_iff [of "rx_length (rx s)" len buffer "rx_buffer (rx s)"] l by simp
  show ?thesis using e by (auto split: if_splits)
qed

theorem usart_wch_rx_buf_rsp_accepts_witness:
  "fst (usart_wch_rx_buf_rsp 0x20000310 16 demo_receiving) = Err EBUSY \<and>
   snd (usart_wch_rx_buf_rsp 0x20000310 16 demo_receiving) = demo_receiving"
proof -
  obtain r s' where op: "usart_wch_rx_buf_rsp 0x20000310 16 demo_receiving = (r, s')" by force
  show ?thesis
    using usart_wch_rx_buf_rsp_accepts [OF demo_receiving_facts(1) op] demo_receiving_facts(2,3)
    unfolding op by simp
qed

text \<open>
  (C20) A receive completion without line errors while a next buffer is queued hands over inside
  the interrupt: reception is running again into the next buffer before any callback, and the
  queue holds the full first buffer's data, its release, and a request for another buffer.
\<close>

theorem usart_wch_rx_handoff:
  assumes inv: "wch_inv D C s" and ch: "chans_ok (num_channels D) C"
    and irq: "dma_wch_isr (dma_rx_channel C) (dma s) = (d, Some k)"
    and cmp: "call_status k = DMA_STATUS_COMPLETE" and err: "usart_wch_rx_errors X (STATR (regs s)) = 0"
    and nx: "rx_next (rx s) \<noteq> 0"
    and s': "s' = usart_wch_rx_dma_callback_locked X (wch_api D) C (dma_rx_dev C) (call_ch k) (call_status k)
               (s\<lparr>dma := d\<rparr>)"
  shows "rx_phase (rx s') = WCH_RX_ACTIVE \<and> rx_buffer (rx s') = rx_next (rx s) \<and>
    rx_length (rx s') = rx_next_length (rx s) \<and> rx_next (rx s') = 0 \<and>
    has (CFGR (reg (dma s') (dma_rx_channel C))) DMA_CFGR1_EN \<and>
    MADDR (reg (dma s') (dma_rx_channel C)) = rx_next (rx s) \<and>
    ring_events (rx s') = [UART_RX_RDY (rx_buffer (rx s)) 0 (rx_length (rx s)),
      UART_RX_BUF_RELEASED (rx_buffer (rx s)), UART_RX_BUF_REQUEST]"
proof -
  let ?r = "dma_rx_channel C" and ?u = "s\<lparr>dma := d\<rparr>"
  have c: "?r < num_channels D" "dma_tx_channel C < num_channels D" "dma_tx_channel C \<noteq> ?r"
    and dk: "dma_inv D (dma s)" using ch inv by (auto simp: chans_ok_def uart_inv_def)
  have act: "rx_phase (rx s) = WCH_RX_ACTIVE"
    using wch_irq.irq_idle [OF dk c(1) irq] inv nx
    by (cases "rx_phase (rx s)") (auto simp: uart_inv_def rx_ok_def)
  have cc: "call_ch k = ?r" using wch_irq.irq_call [OF dk c(1) irq] by blast
  have d: "dma_inv D (dma ?u)" using wch_irq.irq_dok [OF dk c(1) irq] by simp
  have st: "same_tx chan_view chan_meta C s ?u"
    using wch_irq.irq_meta [OF dk c(1) irq c(2)] wch_irq.irq_other [OF dk c(1) irq c(3)]
    by (simp add: same_tx_def)
  obtain w where w: "usart_wch_rx_start (wch_api D) C (upd_rx rx_handoff (usart_wch_rx_gate (wch_api D) C ?u)) = (Ok, w)"
    "wch_inv D C w" "rx_phase (rx w) = WCH_RX_ACTIVE" "rx_buffer (rx w) = rx_next (rx s)"
    "rx_length (rx w) = rx_next_length (rx s)" "rx_next (rx w) = 0"
    "ring_events (rx w) = [UART_RX_RDY (rx_buffer (rx s)) 0 (rx_length (rx s)),
      UART_RX_BUF_RELEASED (rx_buffer (rx s)), UART_RX_BUF_REQUEST]"
    using wch_irq.rx_handoff_section [OF inv ch d st] act nx by simp blast
  have "s' = w"
    using s' cmp err act nx cc w(1) by (simp add: usart_wch_rx_dma_callback_locked_def Let_def)
  then show ?thesis
    using w dma_inv_chan [of D "dma w" ?r] c(1)
    by (auto simp: uart_inv_def rx_ok_def chan_meta_def chan_view_def Let_def chan_ok_def
        split: dma_wch_state.splits)
qed

text \<open>A port whose first receive buffer is full, with a second one queued.\<close>

definition demo_full_dma :: dma_dev where
  "demo_full_dma =
     upd_chan 4 (\<lambda>_. \<lparr>user_data = 0x20000100, dma_cb = Some Usart_wch_rx_dma_callback,
        ch_state = DMA_WCH_RUNNING, ch_length = 32, width = 1, error_callback_dis = False\<rparr>)
    (upd_reg 4 (\<lambda>_. \<lparr>CFGR = DMA_CFGR1_MINC OR DMA_CFGR1_TCIE OR DMA_CFGR1_TEIE OR DMA_CFGR1_EN, CNTR = 0,
        PADDR = 0x40013804, MADDR = 0x20000300\<rparr>) demo_dev)"

definition demo_full :: "dma_dev uart_dev" where
  "demo_full = demo_port\<lparr>dma := dma_raise 4 DMA_TCIF1 demo_full_dma,
     regs := (regs demo_port)\<lparr>CTLR3 := USART_CTLR3_DMAR\<rparr>,
     rx := zero_rx\<lparr>rx_phase := WCH_RX_ACTIVE, rx_buffer := 0x20000300, rx_length := 32,
       rx_next := 0x20000400, rx_next_length := 16\<rparr>\<rparr>"

lemma demo_full_dma_inv: "dma_inv demo_cfg demo_full_dma"
proof (rule dma_inv_only_chan [OF demo_dev_inv, of 4])
  show "only_chan 4 demo_dev demo_full_dma"
    unfolding demo_full_dma_def by (intro only_chan_intros)
  show "chan_ok (reg demo_full_dma 4) (chan demo_full_dma 4)"
    by (simp add: demo_full_dma_def demo_dev_def chan_ok_def upd_reg_def upd_chan_def wch_bits bit_simps)
qed

lemma demo_full_views:
  "chan_view (dma demo_full) 3 = AFree" "chan_view (dma demo_full) 4 = ARunning 32 0"
  "chan_meta (dma demo_full) 4 = \<lparr>m_cyclic = False, m_error_dis = False,
     m_cb = Some Usart_wch_rx_dma_callback, m_user = 0x20000100, m_mem = 0x20000300\<rparr>"
  by (simp_all add: demo_full_def demo_full_dma_def demo_dev_def chan_view_def chan_meta_def zero_channel_def
      Let_def upd_reg_def upd_chan_def wch_bits bit_simps)

lemma demo_full_inv: "wch_inv demo_cfg demo_uart demo_full"
proof -
  have d: "dma_inv demo_cfg (dma demo_full)"
    using raise_inv [OF demo_full_dma_inv] by (simp add: demo_full_def)
  have c: "dma_tx_channel demo_uart = 3" "dma_rx_channel demo_uart = 4" by (simp_all add: demo_uart_def)
  show ?thesis
    unfolding uart_inv_def c demo_full_views
    by (simp add: d) (simp add: demo_full_def demo_port_def tx_ok_def rx_ok_def zero_tx_def zero_rx_def ring_wf_def
        rx_ring_def RX_NOTES_def rx_active_ring_def demo_uart_def wch_bits)
qed

lemma demo_full_irq:
  "\<exists>d k. dma_wch_isr 4 (dma demo_full) = (d, Some k) \<and> call_status k = DMA_STATUS_COMPLETE"
proof -
  have "dma_wch_get_ip demo_full_dma 4 = 0"
    by (simp add: demo_full_dma_def demo_dev_def dma_wch_get_ip_def upd_reg_def upd_chan_def)
  then show ?thesis
    unfolding dma_wch_isr_def Let_def
    by (simp add: demo_full_def wch_bits bit_simps raise_ip_bit)
      (simp add: demo_full_dma_def demo_dev_def upd_reg_def upd_chan_def wch_bits bit_simps)
qed

theorem usart_wch_rx_handoff_witness:
  "\<exists>d k s'. dma_wch_isr 4 (dma demo_full) = (d, Some k) \<and>
     s' = usart_wch_rx_dma_callback_locked demo_ext (wch_api demo_cfg) demo_uart 0x40020000 (call_ch k)
            (call_status k) (demo_full\<lparr>dma := d\<rparr>) \<and>
     rx_buffer (rx s') = 0x20000400 \<and> MADDR (reg (dma s') 4) = 0x20000400 \<and>
     ring_events (rx s') = [UART_RX_RDY 0x20000300 0 32, UART_RX_BUF_RELEASED 0x20000300, UART_RX_BUF_REQUEST]"
proof -
  obtain d k where irq: "dma_wch_isr 4 (dma demo_full) = (d, Some k)"
    and cmp: "call_status k = DMA_STATUS_COMPLETE"
    using demo_full_irq by blast
  have c: "dma_rx_channel demo_uart = 4" "dma_rx_dev demo_uart = 0x40020000" by (simp_all add: demo_uart_def)
  have err: "usart_wch_rx_errors demo_ext (STATR (regs demo_full)) = 0"
    by (simp add: usart_wch_rx_errors_def demo_full_def demo_port_def wch_bits)
  have r: "rx_next (rx demo_full) = 0x20000400" "rx_buffer (rx demo_full) = 0x20000300"
      "rx_length (rx demo_full) = 32"
    by (simp_all add: demo_full_def)
  have nx: "rx_next (rx demo_full) \<noteq> 0" by (simp add: r)
  show ?thesis
    using usart_wch_rx_handoff [OF demo_full_inv demo_chans(1) _ cmp err nx refl] irq
    unfolding c r by blast
qed

section \<open>Loops\<close>

text \<open>A callback that adds no event: the ring is no fuller after it.\<close>

lemma rx_pop_count:
  assumes "rx_dispatch_pop s = (oe, s')" "rx_count (rx s) \<noteq> 0"
  shows "unat (rx_count (rx s')) = unat (rx_count (rx s)) - 1" "tx s' = tx s"
proof -
  have "1 \<le> rx_count (rx s)" using assms(2) by (simp add: word_le_nat_alt Suc_le_eq unat_gt_0)
  then show "unat (rx_count (rx s')) = unat (rx_count (rx s)) - 1"
    using assms by (auto simp: rx_dispatch_pop_def rx_ring_pop_def Let_def unat_sub_le split: if_splits)
  show "tx s' = tx s" using assms by (auto simp: rx_dispatch_pop_def Let_def split: if_splits)
qed

lemma rx_dispatch_loop_drains:
  assumes "\<And>cb ev u s. unat (rx_count (rx (app cb ev u s))) \<le> unat (rx_count (rx s))"
  shows "unat (rx_count (rx s)) < fuel \<Longrightarrow>
    \<exists>s'. rx_dispatch_loop fuel app s = Some s' \<and> rx_count (rx s') = 0"
proof (induction fuel arbitrary: s)
  case (Suc fuel)
  show ?case
  proof (cases "rx_count (rx s) = 0")
    case False
    obtain oe s1 where p: "rx_dispatch_pop s = (oe, s1)" by force
    have lt: "unat (rx_count (rx s1)) < fuel"
      using rx_pop_count(1) [OF p False] Suc.prems False unat_gt_0 [of "rx_count (rx s)"] by linarith
    have "unat (rx_count (rx (app cb ev u s1))) < fuel" for cb ev u
      using assms [of cb ev u s1] lt by simp
    then show ?thesis using Suc.IH lt False p by (auto split: option.splits)
  qed simp
qed simp

text \<open>
  (C26) Dispatching ends: when the callback itself queues nothing, a dispatch with fuel for one
  round more than the queued events returns with the ring empty and the dispatcher free; a
  dispatch entered while another is running returns at once and changes nothing, so events
  are delivered by one dispatcher at a time.
\<close>

theorem usart_wch_rx_dispatch_ends:
  assumes app: "\<And>cb ev u s. unat (rx_count (rx (app cb ev u s))) \<le> unat (rx_count (rx s))"
    and fuel: "unat (rx_count (rx s)) < fuel"
  shows "\<exists>s'. usart_wch_rx_dispatch fuel app s = Some s' \<and>
    (if dispatching (rx s) then s' = s else rx_count (rx s') = 0 \<and> \<not> dispatching (rx s'))"
proof (cases "dispatching (rx s)")
  case False
  have "unat (rx_count (rx (upd_rx (\<lambda>r. r\<lparr>dispatching := True\<rparr>) s))) < fuel" using fuel by simp
  from rx_dispatch_loop_drains [of app, OF app this] show ?thesis
    using False by (auto simp: usart_wch_rx_dispatch_def)
qed (simp add: usart_wch_rx_dispatch_def)

theorem usart_wch_rx_dispatch_ends_witness:
  "\<exists>s'. usart_wch_rx_dispatch 300 (\<lambda>cb ev u s. s) demo_receiving = Some s' \<and>
    (if dispatching (rx demo_receiving) then s' = demo_receiving
     else rx_count (rx s') = 0 \<and> \<not> dispatching (rx s'))"
proof -
  have "unat (rx_count (rx demo_receiving)) < 300"
    using unsigned_less [of "rx_count (rx demo_receiving)", where 'a = nat] by simp
  then show ?thesis using usart_wch_rx_dispatch_ends [of "\<lambda>cb ev u s. s" demo_receiving 300] by simp
qed

end
