(* ===== verification/Uart_Init.thy ===== *)
theory Uart_Init
  imports Uart_Props
begin

text \<open>
  Initialisation of a UART port on an initialised DMA controller, and polling output.
\<close>

unbundle bit_operations_syntax

section \<open>Initialisation\<close>

text \<open>\<^verbatim>\<open>dma_request_channel\<close> claims a bit of the DMA context; registers and channel data stay.\<close>

definition alloc_ok :: "dma_dev dma_alloc \<Rightarrow> bool" where
  "alloc_ok R \<longleftrightarrow> (\<forall>p ch d. snd (request R p ch d) = d)"

lemma dma_init_free:
  assumes "length (chan_regs d0) = DMA_WCH_MAX_CHAN" "channels d0 = replicate (num_channels D) zero_channel"
    and "dma_wch_init D ready clk d0 = (Ok, d)" "ch < num_channels D"
  shows "chan_view d ch = AFree"
proof -
  have "channels d = replicate (num_channels D) zero_channel"
    using assms init_loop [of "num_channels D" d0]
    by (auto simp: dma_wch_init_def dma_wch_irq_config_def Let_def split: if_splits)
  then show ?thesis using assms(4) by (simp add: chan_view_def zero_channel_def)
qed

lemma dt_check_chans:
  assumes "WCH_UART_DMA_DT_CHECK n" "dt_dma_channels n = num_channels D"
  shows "chans_ok (num_channels D) (dt_dma_config n C)"
  using assms by (simp add: WCH_UART_DMA_DT_CHECK_def chans_ok_def dt_dma_config_def)

lemma tx_init_cases:
  assumes "alloc_ok R" "usart_wch_tx_init R C s = (r, s')"
  shows "r = Ok \<Longrightarrow> s' = upd_tx (\<lambda>t. t\<lparr>tx_uart := dev_ptr C, reserved := True, timeout_work := None\<rparr>) s"
    and "r \<noteq> Ok \<Longrightarrow> regs s' = regs s \<and> tx s' = tx s \<and> rx s' = rx s"
proof -
  obtain c1 c2 where c: "request R (dma_tx_dev C) (dma_tx_channel C) (dma s) = (c1, dma s)"
    "request R (dma_rx_dev C) (dma_rx_channel C) (dma s) = (c2, dma s)"
    using assms(1) by (metis alloc_ok_def prod.collapse)
  show "r = Ok \<Longrightarrow> s' = upd_tx (\<lambda>t. t\<lparr>tx_uart := dev_ptr C, reserved := True, timeout_work := None\<rparr>) s"
    "r \<noteq> Ok \<Longrightarrow> regs s' = regs s \<and> tx s' = tx s \<and> rx s' = rx s"
    using assms(2) by (auto simp: usart_wch_tx_init_def c Let_def split: if_splits)
qed

text \<open>
  (C27) Initialising a port whose device-tree node passes the build-time checks, on a DMA controller
  that has been initialised, either fails and leaves the UART's registers and both halves of the
  driver's data as they were, or succeeds with the nearest divisor programmed and the transmitter
  and receiver on, and yields a port in the state from which the properties of all later runs
  hold.
\<close>

theorem usart_wch_init_establishes:
  assumes node: "WCH_UART_DMA_DT_CHECK n" "dt_dma_channels n = num_channels D" "C = dt_dma_config n C0"
    and build: "async_tx C0" "async_rx C0" and R: "alloc_ok R"
    and dma0: "length (chan_regs d0) = DMA_WCH_MAX_CHAN" "channels d0 = replicate (num_channels D) zero_channel"
      "dma_wch_init D ready clk d0 = (Ok, d)"
    and s: "tx s = zero_tx" "rx s = zero_rx" "dma s = d" and init: "usart_wch_init X K E R C s = (r, s')"
  shows "(r \<noteq> Ok \<longrightarrow> regs s' = regs s \<and> tx s' = tx s \<and> rx s' = rx s) \<and>
    (r = Ok \<longrightarrow> wch_port D C s' \<and> irq_connected s' \<and>
       CTLR1 (regs s') = USART_CTLR1_TE OR USART_CTLR1_RE OR USART_CTLR1_UE \<and>
       (\<exists>divn. wch_uart_brr True (clock_rate E) (current_speed C) = Inr divn \<and> BRR (regs s') = ucast divn))"
proof -
  have C: "async_tx C" "async_rx C" using build by (simp_all add: node(3) dt_dma_config_def)
  have ch: "chans_ok (num_channels D) C" using dt_check_chans [OF node(1,2)] by (simp add: node(3))
  then have v: "chan_view d (dma_tx_channel C) = AFree" "chan_view d (dma_rx_channel C) = AFree"
    using dma_init_free [OF dma0] by (simp_all add: chans_ok_def)
  obtain rt t where t: "usart_wch_tx_init R C s = (rt, t)" by force
  note c = tx_init_cases [OF R t]
  have bad: "regs s' = regs s \<and> tx s' = tx s \<and> rx s' = rx s" if "r \<noteq> Ok"
    using init that c C(1) t by (auto simp: usart_wch_init_def Let_def split: if_splits sum.splits)
  have good: "wch_port D C s' \<and> irq_connected s' \<and> CTLR1 (regs s') = USART_CTLR1_TE OR USART_CTLR1_RE OR USART_CTLR1_UE \<and>
       (\<exists>divn. wch_uart_brr True (clock_rate E) (current_speed C) = Inr divn \<and> BRR (regs s') = ucast divn)" if r: "r = Ok"
  proof -
    obtain divn where d: "wch_uart_brr True (clock_rate E) (current_speed C) = Inr divn" and rt: "rt = Ok"
      and f: "regs s' = usart_init_regs divn (regs t)" "tx s' = tx t" "rx s' = rx t" "dma s' = dma t" "irq_connected s'"
      using init r C t by (auto simp: usart_wch_init_def Let_def split: if_splits sum.splits)
    note t' = c(1) [OF rt]
    have "wch_inv D C s'"
      using v init_inv [OF dma0] s
      by (simp add: uart_inv_def f t' tx_ok_def rx_ok_def zero_tx_def zero_rx_def ring_wf_def rx_ring_def RX_NOTES_def rx_gated_def
          usart_init_regs_def wch_bits)
    then show ?thesis
      using ch C f s d by (simp add: wch_port_def uart_fresh_def t' zero_tx_def zero_rx_def usart_init_regs_def)
  qed
  show ?thesis using bad good by blast
qed

text \<open>USART1 of the CH32V203 with its DMA channels, a 144 MHz clock and 115200 baud.\<close>

definition demo_node :: dma_dt_node where
  "demo_node = \<lparr>dt_has_tx_rx = True, dt_dmas_len = 2, dt_reg_addr = WCH_UART1_ADDR, dt_ctlr_tx = 0x40020000,
     dt_ctlr_rx = 0x40020000, dt_ctlr_okay = True, dt_ctlr_wch = True, dt_dma_channels = 7, dt_ch_tx = 3, dt_ch_rx = 4\<rparr>"

definition demo_init_env :: uart_init_env where
  "demo_init_env = \<lparr>clock_ready = True, dma_tx_ready = True, dma_rx_ready = True, clock_on = 0, clock_get_rate = 0,
     clock_rate = 144000000, pinctrl_apply = 0\<rparr>"

definition demo_alloc :: "dma_dev dma_alloc" where
  "demo_alloc = \<lparr>request = (\<lambda>p ch d. (int ch, d)), release = (\<lambda>p ch d. d)\<rparr>"

definition demo_trace_conf :: wch_trace_kconfig where
  "demo_trace_conf = \<lparr>HW_CYCLES_PER_SEC = 144000000, TICKS_PER_SEC = 10000, SLOW_US = 50, SAMPLE_INTERVAL = 3\<rparr>"

definition demo_cold_port :: "dma_dev uart_dev" where
  "demo_cold_port = demo_port\<lparr>regs := \<lparr>STATR = 0, DATAR = 0, BRR = 0, CTLR1 = 0, CTLR2 = 0, CTLR3 = 0\<rparr>, tx := zero_tx,
     dma := snd (dma_wch_init demo_cfg True 0 demo_dev), irq_connected := False\<rparr>"

theorem usart_wch_init_establishes_witness:
  "wch_port demo_cfg (dt_dma_config demo_node demo_uart)
     (snd (usart_wch_init demo_ext demo_trace_conf demo_init_env demo_alloc (dt_dma_config demo_node demo_uart) demo_cold_port))"
proof -
  have h: "WCH_UART_DMA_DT_CHECK demo_node" "dt_dma_channels demo_node = num_channels demo_cfg" "async_tx demo_uart" "async_rx demo_uart"
    "alloc_ok demo_alloc" "length (chan_regs demo_dev) = DMA_WCH_MAX_CHAN" "channels demo_dev = replicate (num_channels demo_cfg) zero_channel"
    by (simp_all add: WCH_UART_DMA_DT_CHECK_def demo_node_def demo_cfg_def demo_uart_def alloc_ok_def demo_alloc_def demo_dev_def DMA_WCH_MAX_CHAN_def)
  have d: "dma_wch_init demo_cfg True 0 demo_dev = (Ok, dma demo_cold_port)"
    by (simp add: demo_cold_port_def dma_wch_init_def demo_cfg_def DMA_WCH_MAX_CHAN_def Let_def)
  have z: "tx demo_cold_port = zero_tx" "rx demo_cold_port = zero_rx" by (simp_all add: demo_cold_port_def demo_port_def)
  have b: "wch_uart_brr True 144000000 115200 = Inr 1250" by code_simp
  have "fst (usart_wch_init demo_ext demo_trace_conf demo_init_env demo_alloc (dt_dma_config demo_node demo_uart) demo_cold_port) = Ok"
    by (simp add: usart_wch_init_def demo_ext_def demo_init_env_def dt_dma_config_def demo_node_def demo_uart_def b
        usart_wch_tx_init_def demo_alloc_def Let_def)
  then show ?thesis
    using usart_wch_init_establishes [OF h(1,2) refl h(3-7) d z refl prod.collapse [symmetric],
        of demo_ext demo_trace_conf demo_init_env] by blast
qed

section \<open>Polling output\<close>

text \<open>When the polling loop may write the byte.\<close>

definition poll_out_ready :: "usart_wch_config \<Rightarrow> 'd uart_dev \<Rightarrow> bool" where
  "poll_out_ready C s \<longleftrightarrow> has (STATR (regs s)) USART_STATR_TXE \<and> (async_tx C \<longrightarrow> tx_phase (tx s) = WCH_TX_IDLE)"

text \<open>What interrupts and the hardware make of the state in the first \<open>k\<close> rounds of the loop.\<close>

abbreviation polled :: "nat \<Rightarrow> (nat \<Rightarrow> 'd uart_dev \<Rightarrow> 'd uart_dev) \<Rightarrow> nat \<Rightarrow> 'd uart_dev \<Rightarrow> 'd uart_dev" where
  "polled fuel env k s \<equiv> fold env (rev [fuel - k..<fuel]) s"

lemma poll_out_step:
  "usart_wch_poll_out C (Suc fuel) env ch s =
     (if poll_out_ready C s
      then Some ((if async_tx C then upd_tx (\<lambda>t. t\<lparr>needs_tc := True\<rparr>) else id) (upd_regs (\<lambda>r. r\<lparr>DATAR := ucast ch\<rparr>) s))
      else usart_wch_poll_out C fuel env ch (env fuel s))"
  by (simp add: usart_wch_poll_out_def poll_out_ready_def tx_poll_out_try_def)

text \<open>
  (C28) Polling output writes the byte and returns as soon as a round finds the transmitter empty (and,
  with asynchronous transmission built in, no transfer of it in progress), whatever interrupts and
  hardware do between the rounds; it writes to that state, once, and marks the byte to be
  drained before the next transfer.  It keeps waiting only while no round finds it so.
\<close>

theorem usart_wch_poll_out_returns:
  "case usart_wch_poll_out C fuel env ch s of
     None \<Rightarrow> (\<forall>k < fuel. \<not> poll_out_ready C (polled fuel env k s))
   | Some s' \<Rightarrow> (\<exists>k < fuel. poll_out_ready C (polled fuel env k s) \<and> (\<forall>j < k. \<not> poll_out_ready C (polled fuel env j s)) \<and>
       regs s' = (regs (polled fuel env k s))\<lparr>DATAR := ucast ch\<rparr> \<and> dma s' = dma (polled fuel env k s) \<and>
       tx s' = (tx (polled fuel env k s))\<lparr>needs_tc := async_tx C \<or> needs_tc (tx (polled fuel env k s))\<rparr>)"
proof (induction fuel arbitrary: s)
  case (Suc fuel)
  have step: "polled (Suc fuel) env (Suc k) s = polled fuel env k (env fuel s)" for k by simp
  show ?case
  proof (cases "poll_out_ready C s")
    case True
    then show ?thesis by (auto simp: poll_out_step intro!: exI [of _ 0])
  next
    case False
    have all: "(\<forall>k < Suc m. P k) \<longleftrightarrow> P 0 \<and> (\<forall>k < m. P (Suc k))" for m P
      by (metis less_Suc_eq_0_disj)
    show ?thesis
    proof (cases "usart_wch_poll_out C fuel env ch (env fuel s)")
      case None
      then show ?thesis using Suc.IH [of "env fuel s"] False unfolding all poll_out_step step by simp
    next
      case (Some s')
      with Suc.IH [of "env fuel s"] obtain k where k: "k < fuel" "poll_out_ready C (polled fuel env k (env fuel s))"
        "\<forall>j < k. \<not> poll_out_ready C (polled fuel env j (env fuel s))"
        "regs s' = (regs (polled fuel env k (env fuel s)))\<lparr>DATAR := ucast ch\<rparr>" "dma s' = dma (polled fuel env k (env fuel s))"
        "tx s' = (tx (polled fuel env k (env fuel s)))\<lparr>needs_tc := async_tx C \<or> needs_tc (tx (polled fuel env k (env fuel s)))\<rparr>"
        by auto
      have before: "\<forall>j < Suc k. \<not> poll_out_ready C (polled (Suc fuel) env j s)"
        unfolding all step using k(3) False by simp
      show ?thesis
        unfolding poll_out_step if_not_P [OF False] Some option.case
        by (rule exI [of _ "Suc k"]) (use k before in \<open>simp only: step Suc_less_eq simp_thms\<close>)
    qed
  qed
qed (simp add: usart_wch_poll_out_def)

text \<open>The transmitter empties in the second round.\<close>

definition demo_full_port :: "dma_dev uart_dev" where
  "demo_full_port = demo_port\<lparr>regs := (regs demo_port)\<lparr>STATR := 0\<rparr>\<rparr>"

definition demo_drain :: "nat \<Rightarrow> dma_dev uart_dev \<Rightarrow> dma_dev uart_dev" where
  "demo_drain k s = (if k = 3 then upd_regs (\<lambda>r. r\<lparr>STATR := USART_STATR_TXE\<rparr>) s else s)"

theorem usart_wch_poll_out_returns_witness:
  "\<exists>s'. usart_wch_poll_out demo_uart 5 demo_drain 0x41 demo_full_port = Some s' \<and> DATAR (regs s') = 0x41"
proof -
  note spec5 = usart_wch_poll_out_returns [where C = demo_uart and fuel = 5 and env = demo_drain and ch = "0x41" and s = demo_full_port]
  have ready: "poll_out_ready demo_uart (polled 5 demo_drain 2 demo_full_port)" by code_simp
  show ?thesis
  proof (cases "usart_wch_poll_out demo_uart 5 demo_drain 0x41 demo_full_port")
    case None
    with spec5 have "\<forall>k < 5. \<not> poll_out_ready demo_uart (polled 5 demo_drain k demo_full_port)"
      unfolding None option.case by blast
    moreover have "(2::nat) < 5" by simp
    ultimately show ?thesis using ready by blast
  next
    case (Some s')
    with spec5 show ?thesis by auto
  qed
qed

end
