(* ===== verification/Uart_Trace.thy ===== *)
theory Uart_Trace
  imports Uart_Init
begin

text \<open>
  The interrupt trace over whole runs of the interrupt-driven build: API calls and interrupts in
  any order, with a callback that makes API calls of its own.
\<close>

unbundle bit_operations_syntax

section \<open>Runs\<close>

text \<open>
  What a call observes of the hardware: a byte taken from or given to the data register, and a
  status register read at a place (3 for the error check, 4 for reading a byte) and time.
\<close>

datatype irq_obs = RxByte | TxByte | Status u32 u16 u32

text \<open>A call of the interrupt-driven API with its observations, or a change of the registers by the hardware.\<close>

inductive irq_call ::
  "uart_ext \<Rightarrow> usart_hal \<Rightarrow> wch_trace_kconfig \<Rightarrow> usart_wch_config \<Rightarrow> irq_obs list \<Rightarrow> 'd uart_dev \<Rightarrow> 'd uart_dev \<Rightarrow> bool"
  for X H K C where
  err_check: "irq_call X H K C [Status 3 (STATR (regs s)) tick] s (snd (usart_wch_err_check X K tick C s))"
| fifo_fill: "irq_call X H K C (if len = 0 \<or> \<not> has (STATR (regs s)) USART_STATR_TXE then [] else [TxByte])
    s (snd (usart_wch_fifo_fill C b len s))"
| fifo_read: "irq_call X H K C
    (if sz = 0 then [] else (if has (STATR (regs s)) USART_STATR_RXNE then [RxByte] else []) @ [Status 4 (STATR (regs s)) tick'])
    s (snd (usart_wch_fifo_read X K C tick tick' sz s))"
| poll_in: "irq_call X H K C [] s (snd (usart_wch_poll_in X C s))"
| tx_enable: "irq_call X H K C [] s (usart_wch_irq_tx_enable H s)"
| tx_disable: "irq_call X H K C [] s (usart_wch_irq_tx_disable H s)"
| rx_enable: "irq_call X H K C [] s (usart_wch_irq_rx_enable H s)"
| rx_disable: "irq_call X H K C [] s (usart_wch_irq_rx_disable H s)"
| err_enable: "irq_call X H K C [] s (usart_wch_irq_err_enable H s)"
| err_disable: "irq_call X H K C [] s (usart_wch_irq_err_disable H s)"
| callback_set: "irq_call X H K C [] s (usart_wch_irq_callback_set cb user s)"
| hardware: "irq_call X H K C [] s (upd_regs f s)"

inductive irq_calls ::
  "uart_ext \<Rightarrow> usart_hal \<Rightarrow> wch_trace_kconfig \<Rightarrow> usart_wch_config \<Rightarrow> irq_obs list \<Rightarrow> 'd uart_dev \<Rightarrow> 'd uart_dev \<Rightarrow> bool"
  for X H K C where
  none: "irq_calls X H K C [] s s"
| more: "irq_calls X H K C l s s1 \<Longrightarrow> irq_call X H K C k s1 s2 \<Longrightarrow> irq_calls X H K C (l @ k) s s2"

text \<open>The handler's callback, if one is installed, makes calls with observations \<open>k\<close>.\<close>

definition callback_calls ::
  "uart_ext \<Rightarrow> usart_hal \<Rightarrow> wch_trace_kconfig \<Rightarrow> usart_wch_config \<Rightarrow> (u32 \<Rightarrow> u32 \<Rightarrow> 'd uart_dev \<Rightarrow> 'd uart_dev) \<Rightarrow>
   irq_obs list \<Rightarrow> 'd uart_dev \<Rightarrow> bool" where
  "callback_calls X H K C app k s \<longleftrightarrow> (case irq_cb s of None \<Rightarrow> k = []
     | Some cb \<Rightarrow> irq_calls X H K C k s (app cb (irq_user_data s) s))"

abbreviation isr_entered :: "wch_trace_kconfig \<Rightarrow> usart_wch_config \<Rightarrow> u32 \<Rightarrow> 'd uart_dev \<Rightarrow> 'd uart_dev" where
  "isr_entered K C tick s \<equiv> (if irq_trace C then s\<lparr>trace := wch_trace_enter K tick (trace s)\<rparr> else s)"

text \<open>A run with \<open>n\<close> interrupts and the observations of its calls and callbacks.\<close>

inductive irq_run ::
  "uart_ext \<Rightarrow> usart_hal \<Rightarrow> wch_trace_kconfig \<Rightarrow> usart_wch_config \<Rightarrow> nat \<Rightarrow> irq_obs list \<Rightarrow> 'd uart_dev \<Rightarrow> 'd uart_dev \<Rightarrow> bool"
  for X H K C where
  start: "irq_run X H K C 0 [] s s"
| call: "irq_run X H K C n l s s1 \<Longrightarrow> irq_call X H K C k s1 s2 \<Longrightarrow> irq_run X H K C n (l @ k) s s2"
| isr: "irq_run X H K C n l s s1 \<Longrightarrow> callback_calls X H K C app k (isr_entered K C tick s1) \<Longrightarrow>
    irq_run X H K C (Suc n) (l @ k) s (usart_wch_isr_irq K C tick tick' app s1)"

text \<open>What a call does to the trace record.\<close>

inductive trace_op :: "wch_trace_kconfig \<Rightarrow> irq_obs list \<Rightarrow> wch_irq_port_trace \<Rightarrow> wch_irq_port_trace \<Rightarrow> bool" for K where
  keep: "trace_op K [] t t"
| count: "trace_op K [TxByte] t (t\<lparr>tx_bytes := tx_bytes t + 1\<rparr>)"
| status: "site = 3 \<or> site = 4 \<Longrightarrow> trace_op K [Status site st tick] t (wch_trace_status K tick (ucast st) site t)"
| byte: "trace_op K [RxByte, Status 4 st tick'] t (fifo_read_trace K tick tick' (ucast st) t)"

inductive trace_ops :: "wch_trace_kconfig \<Rightarrow> irq_obs list \<Rightarrow> wch_irq_port_trace \<Rightarrow> wch_irq_port_trace \<Rightarrow> bool" for K where
  nil: "trace_ops K [] t t"
| snoc: "trace_ops K l t t1 \<Longrightarrow> trace_op K k t1 t2 \<Longrightarrow> trace_ops K (l @ k) t t2"

lemma upd_regs_trace [simp]: "trace (upd_regs f s) = trace s"
  by (simp add: upd_regs_def)

lemma irq_call_trace:
  assumes "irq_call X H K C l s s'" "irq_trace C"
  shows "trace_op K l (trace s) (trace s')"
  using assms(1)
proof cases
  case (err_check tick)
  then show ?thesis using assms(2) by (simp add: usart_wch_err_check_def Let_def trace_op.status)
next
  case (fifo_fill len b)
  then show ?thesis
    using assms(2) trace_op.keep [of K "trace s"] trace_op.count [of K "trace s"] by (auto simp: usart_wch_fifo_fill_def Let_def)
next
  case (fifo_read sz tick' tick)
  then show ?thesis
    using assms(2) trace_op.keep [of K "trace s"] trace_op.status [of 4 K "STATR (regs s)" tick' "trace s"]
      trace_op.byte [of K "STATR (regs s)" tick' "trace s" tick]
    by (auto simp: usart_wch_fifo_read_def read_DATAR_def Let_def)
next
  case poll_in
  then show ?thesis by (auto simp: usart_wch_poll_in_def read_DATAR_def intro: trace_op.keep)
qed (simp_all add: usart_wch_irq_tx_enable_def usart_wch_irq_tx_disable_def usart_wch_irq_rx_enable_def
    usart_wch_irq_rx_disable_def usart_wch_irq_err_enable_def usart_wch_irq_err_disable_def
    usart_wch_irq_callback_set_def trace_op.keep)

text \<open>Induction over a run, by the trace record alone.\<close>

lemma irq_calls_trace:
  assumes "irq_calls X H K C l s s'" "irq_trace C"
  shows "trace_ops K l (trace s) (trace s')"
  using assms(1)
proof (induction rule: irq_calls.induct)
  case (more l s s1 k s2)
  then show ?case using irq_call_trace [OF more(2) assms(2)] by (blast intro: trace_ops.snoc)
qed (rule trace_ops.nil)

lemma irq_isr_trace:
  assumes "callback_calls X H K C app k (isr_entered K C tick s)" "irq_trace C"
  shows "\<exists>t. trace_ops K k (wch_trace_enter K tick (trace s)) t \<and>
    trace (usart_wch_isr_irq K C tick tick' app s) = wch_trace_exit K tick' t"
proof (cases "irq_cb s")
  case None
  then show ?thesis using assms by (auto simp: callback_calls_def usart_wch_isr_irq_def Let_def intro: trace_ops.nil)
next
  case (Some cb)
  then show ?thesis
    using assms irq_calls_trace [of X H K C k "isr_entered K C tick s"]
    by (fastforce simp: callback_calls_def usart_wch_isr_irq_def Let_def)
qed

lemma irq_run_trace_induct [consumes 2, case_names start op isr]:
  assumes "irq_run X H K C n l s s'" "irq_trace C"
    and "P 0 [] (trace s)" and op: "\<And>n l k t t'. P n l t \<Longrightarrow> trace_op K k t t' \<Longrightarrow> P n (l @ k) t'"
    and isr: "\<And>n l k t t' tick tick'. P n l t \<Longrightarrow> trace_ops K k (wch_trace_enter K tick t) t' \<Longrightarrow>
      P (Suc n) (l @ k) (wch_trace_exit K tick' t')"
  shows "P n l (trace s')"
  using assms(1,3)
proof (induction rule: irq_run.induct)
  case (call n l s s1 k s2)
  then show ?case using op irq_call_trace [OF call(2) assms(2)] by blast
next
  case (isr n l s s1 app k tick tick')
  from irq_isr_trace [OF isr(2) assms(2), of tick'] obtain t
    where "trace_ops K k (wch_trace_enter K tick (trace s1)) t"
      "trace (usart_wch_isr_irq K C tick tick' app s1) = wch_trace_exit K tick' t" by blast
  with assms(5) [OF isr(3) [OF isr(4)]] show ?case by simp
qed

section \<open>The first error\<close>

text \<open>The reference for the record: what the observations say, without the record.\<close>

definition status_error :: "u16 \<Rightarrow> bool" where
  "status_error st \<longleftrightarrow> has st USART_STATR_PE \<or> has st USART_STATR_FE \<or> has st USART_STATR_NE \<or> has st USART_STATR_ORE \<or>
     has st USART_STATR_LBD"

definition error_bits :: "u16 \<Rightarrow> u32" where
  "error_bits st = ucast (st AND (USART_STATR_PE OR USART_STATR_FE OR USART_STATR_NE OR USART_STATR_ORE OR USART_STATR_LBD))"

fun is_error :: "irq_obs \<Rightarrow> bool" where
  "is_error (Status site st tick) = status_error st"
| "is_error _ = False"

fun error_reads :: "u32 \<Rightarrow> irq_obs list \<Rightarrow> u32 list" where
  "error_reads site [] = []"
| "error_reads site (Status w st tick # l) =
     (if w = site \<and> status_error st then error_bits st # error_reads site l else error_reads site l)"
| "error_reads site (_ # l) = error_reads site l"

abbreviation before_error :: "irq_obs list \<Rightarrow> irq_obs list" where
  "before_error \<equiv> takeWhile (\<lambda>x. \<not> is_error x)"

text \<open>
  The record shows the observations \<open>l\<close>: how many bytes and erroneous statuses each place read, which
  errors they had, and of the first of them the place, status, time and the bytes until then, in the
  snapshot and as the ring's last event; it is frozen exactly once there was one.
\<close>

definition trace_shows :: "irq_obs list \<Rightarrow> wch_irq_port_trace \<Rightarrow> bool" where
  "trace_shows l t \<longleftrightarrow> length (events t) = WCH_TRACE_EVENTS \<and>
     rx_bytes t = of_nat (count_list l RxByte) \<and> tx_bytes t = of_nat (count_list l TxByte) \<and>
     api_error_reads t = of_nat (length (error_reads 3 l)) \<and> fifo_error_reads t = of_nat (length (error_reads 4 l)) \<and>
     api_error_or t = fold (OR) (error_reads 3 l) 0 \<and> fifo_error_or t = fold (OR) (error_reads 4 l) 0 \<and>
     (case find is_error l of
        None \<Rightarrow> frozen t = 0
      | Some (Status site st tick) \<Rightarrow>
          (let e = events t ! (unat (events_written t - 1) mod WCH_TRACE_EVENTS)
           in frozen t = 1 \<and>
              first_error_site t = site \<and> first_error_status t = ucast st \<and> first_error_tick t = tick \<and>
              first_error_rx t = of_nat (count_list (before_error l) RxByte) \<and>
              first_error_tx t = of_nat (count_list (before_error l) TxByte) \<and>
              ev_kind e = site \<and> ev_status e = ucast st \<and> ev_tick e = tick \<and>
              ev_rx e = first_error_rx t \<and> ev_tx e = first_error_tx t)
      | Some _ \<Rightarrow> False)"

text \<open>What the debugger reads of the error.\<close>

definition trace_record :: "wch_irq_port_trace \<Rightarrow> wch_irq_event list \<times> u32 list" where
  "trace_record t = (events t, [events_written t, frozen t, first_error_site t, first_error_status t, first_error_tick t,
     first_error_rx t, first_error_tx t])"

lemma error_mask: "(ucast st :: u32) AND WCH_TRACE_ERROR_MASK = error_bits st"
  by (simp add: WCH_TRACE_ERROR_MASK_def error_bits_def unsigned_and_eq)

lemma u16_ucast: "(ucast (ucast (x :: u16) :: u32) :: u16) = x"
  by (rule bit_word_eqI) (simp add: bit_simps)

lemma error_bits_iff: "error_bits st = 0 \<longleftrightarrow> \<not> status_error st"
proof -
  have "error_bits st = 0 \<longleftrightarrow> st AND (USART_STATR_PE OR USART_STATR_FE OR USART_STATR_NE OR USART_STATR_ORE OR USART_STATR_LBD) = 0"
    unfolding error_bits_def using u16_ucast by (metis unsigned_0)
  then show ?thesis by (auto simp: status_error_def bit.conj_disj_distrib or_eq_0_iff)
qed

lemma error_reads_append [simp]: "error_reads site (l @ k) = error_reads site l @ error_reads site k"
  by (induction site l rule: error_reads.induct) simp_all

lemma find_snoc: "find P (l @ [x]) = (case find P l of None \<Rightarrow> if P x then Some x else None | Some y \<Rightarrow> Some y)"
  by (induction l) auto

lemma before_error_snoc:
  "find is_error l = Some y \<Longrightarrow> before_error (l @ k) = before_error l"
  "find is_error l = None \<Longrightarrow> before_error (l @ [x]) = (if is_error x then l else l @ [x])"
  by (induction l) (auto split: if_splits)

lemma find_is_error: "find is_error l = Some x \<Longrightarrow> \<exists>site st tick. x = Status site st tick"
  by (induction l) (auto split: if_splits elim: is_error.elims)


text \<open>One observation more.\<close>

lemma status_record: "frozen t \<noteq> 0 \<Longrightarrow> trace_record (wch_trace_status K tick st site t) = trace_record t"
  by (simp add: trace_record_def wch_trace_status_def Let_def)

lemma status_freezes:
  assumes "status_error st" "frozen t = 0" "length (events t) = WCH_TRACE_EVENTS" "r = wch_trace_status K tick (ucast st) site t"
  shows "frozen r = 1" "first_error_site r = site" "first_error_status r = ucast st" "first_error_tick r = tick"
    "first_error_rx r = rx_bytes t" "first_error_tx r = tx_bytes t"
    and "let e = events r ! (unat (events_written r - 1) mod WCH_TRACE_EVENTS)
      in ev_kind e = site \<and> ev_status e = ucast st \<and> ev_tick e = tick \<and> ev_rx e = rx_bytes t \<and> ev_tx e = tx_bytes t"
proof -
  have "error_bits st \<noteq> 0" using assms(1) by (simp add: error_bits_iff)
  then obtain u where r: "r = trace_first_error K tick (ucast st) site u"
    and u: "frozen u = 0" "events u = events t" "rx_bytes u = rx_bytes t" "tx_bytes u = tx_bytes t"
    using assms(2,4) by (simp add: wch_trace_status_def error_mask Let_def split: if_splits)
  then show "frozen r = 1" "first_error_site r = site" "first_error_status r = ucast st" "first_error_tick r = tick"
    "first_error_rx r = rx_bytes t" "first_error_tx r = tx_bytes t"
    "let e = events r ! (unat (events_written r - 1) mod WCH_TRACE_EVENTS)
      in ev_kind e = site \<and> ev_status e = ucast st \<and> ev_tick e = tick \<and> ev_rx e = rx_bytes t \<and> ev_tx e = tx_bytes t"
    using assms(3) by (simp_all add: trace_first_error_def wch_trace_event_def Let_def WCH_TRACE_EVENTS_def)
qed

lemma status_counts:
  assumes "status_error st" "r = wch_trace_status K tick (ucast st) site t"
  shows "length (events r) = length (events t)" "rx_bytes r = rx_bytes t" "tx_bytes r = tx_bytes t"
    "api_error_reads r = api_error_reads t + (if site = 3 then 1 else 0)"
    "fifo_error_reads r = fifo_error_reads t + (if site = 3 then 0 else 1)"
    "api_error_or r = (if site = 3 then error_bits st OR api_error_or t else api_error_or t)"
    "fifo_error_or r = (if site = 3 then fifo_error_or t else error_bits st OR fifo_error_or t)"
proof -
  have "error_bits st \<noteq> 0" using assms(1) by (simp add: error_bits_iff)
  then show "length (events r) = length (events t)" "rx_bytes r = rx_bytes t" "tx_bytes r = tx_bytes t"
    "api_error_reads r = api_error_reads t + (if site = 3 then 1 else 0)"
    "fifo_error_reads r = fifo_error_reads t + (if site = 3 then 0 else 1)"
    "api_error_or r = (if site = 3 then error_bits st OR api_error_or t else api_error_or t)"
    "fifo_error_or r = (if site = 3 then fifo_error_or t else error_bits st OR fifo_error_or t)"
    by (simp_all add: assms(2) wch_trace_status_def trace_first_error_def wch_trace_event_def error_mask Let_def or.commute)
qed

lemma status_shows:
  assumes t: "trace_shows l t" and site: "site = 3 \<or> site = 4"
  shows "trace_shows (l @ [Status site st tick]) (wch_trace_status K tick (ucast st) site t)"
proof (cases "status_error st")
  case False
  then have "wch_trace_status K tick (ucast st) site t = (if entry_tick t \<noteq> UINT32_MAX then t\<lparr>last_status := ucast st\<rparr> else t)"
    by (simp add: wch_trace_status_def error_mask error_bits_iff)
  then show ?thesis
    using t False by (auto simp: trace_shows_def find_snoc before_error_snoc split: option.splits irq_obs.splits)
next
  case True
  define r where "r = wch_trace_status K tick (ucast st) site t"
  note c = status_counts [OF True r_def]
  have "trace_shows (l @ [Status site st tick]) r"
  proof (cases "find is_error l")
    case None
    then have z: "frozen t = 0" "length (events t) = WCH_TRACE_EVENTS" using t by (simp_all add: trace_shows_def)
    note f = status_freezes [OF True z r_def]
    show ?thesis
      using t site None True f by (auto simp: trace_shows_def c find_snoc before_error_snoc Let_def)
  next
    case (Some y)
    then obtain w v k where y: "y = Status w v k" using find_is_error by blast
    then have "frozen t \<noteq> 0" using t Some by (simp add: trace_shows_def Let_def)
    then have "trace_record r = trace_record t" unfolding r_def by (rule status_record)
    then show ?thesis
      using t site Some y True by (auto simp: trace_shows_def trace_record_def c find_snoc before_error_snoc Let_def)
  qed
  then show ?thesis by (simp add: r_def)
qed

lemma rx_byte_shows:
  "trace_shows l t \<Longrightarrow> trace_shows (l @ [RxByte]) (t\<lparr>rx_bytes := rx_bytes t + 1\<rparr>)"
  by (auto simp: trace_shows_def find_snoc before_error_snoc split: option.splits irq_obs.splits)

lemma tx_byte_shows:
  "trace_shows l t \<Longrightarrow> trace_shows (l @ [TxByte]) (t\<lparr>tx_bytes := tx_bytes t + 1\<rparr>)"
  by (auto simp: trace_shows_def find_snoc before_error_snoc split: option.splits irq_obs.splits)

text \<open>The fields the reference determines; nothing else of the record matters to it.\<close>

definition shown :: "wch_irq_port_trace \<Rightarrow> (wch_irq_event list \<times> u32 list) \<times> u32 list" where
  "shown t = (trace_record t, [rx_bytes t, tx_bytes t, api_error_reads t, fifo_error_reads t, api_error_or t, fifo_error_or t])"

lemma shown_shows:
  assumes "shown t' = shown t"
  shows "trace_shows l t' \<longleftrightarrow> trace_shows l t"
proof -
  have "events t' = events t" "events_written t' = events_written t" "frozen t' = frozen t" "first_error_site t' = first_error_site t"
    "first_error_status t' = first_error_status t" "first_error_tick t' = first_error_tick t" "first_error_rx t' = first_error_rx t"
    "first_error_tx t' = first_error_tx t" "rx_bytes t' = rx_bytes t" "tx_bytes t' = tx_bytes t"
    "api_error_reads t' = api_error_reads t" "fifo_error_reads t' = fifo_error_reads t"
    "api_error_or t' = api_error_or t" "fifo_error_or t' = fifo_error_or t"
    using assms by (simp_all add: shown_def trace_record_def)
  then show ?thesis unfolding trace_shows_def by (simp only:)
qed

lemma fifo_read_status:
  "\<exists>u. fifo_read_trace K tick tick' st t = wch_trace_status K tick' st 4 u \<and> shown u = shown (t\<lparr>rx_bytes := rx_bytes t + 1\<rparr>)"
  unfolding fifo_read_trace_def Let_def by (rule exI, rule conjI, rule refl) (simp add: shown_def trace_record_def)

lemma op_shows: "trace_op K k t t' \<Longrightarrow> trace_shows l t \<Longrightarrow> trace_shows (l @ k) t'"
proof (induction rule: trace_op.induct)
  case (byte st tick' t tick)
  obtain u where u: "fifo_read_trace K tick tick' (ucast st) t = wch_trace_status K tick' (ucast st) 4 u"
    "shown u = shown (t\<lparr>rx_bytes := rx_bytes t + 1\<rparr>)" using fifo_read_status by blast
  have "trace_shows (l @ [RxByte]) u" using rx_byte_shows [OF byte] shown_shows [OF u(2)] by blast
  from status_shows [OF this, of 4 st tick'] show ?case by (simp add: u(1))
qed (simp_all add: status_shows tx_byte_shows)

lemma ops_shows: "trace_ops K k t t' \<Longrightarrow> trace_shows l t \<Longrightarrow> trace_shows (l @ k) t'"
  by (induction rule: trace_ops.induct) (simp_all add: op_shows flip: append_assoc)

lemma enter_shows: "trace_shows l (wch_trace_enter K tick t) \<longleftrightarrow> trace_shows l t"
  by (rule shown_shows) (simp add: shown_def trace_record_def wch_trace_enter_def Let_def)

lemma event_shows:
  assumes "trace_shows l t"
  shows "trace_shows l (wch_trace_event kind st tick d t)"
proof (cases "frozen t = 0")
  case True
  then have "find is_error l = None"
    using assms by (auto simp: trace_shows_def Let_def split: option.splits irq_obs.splits)
  then show ?thesis using assms by (simp add: trace_shows_def wch_trace_event_def)
qed (use assms in \<open>simp add: wch_trace_event_def\<close>)

lemma exit_shows:
  assumes "trace_shows l t"
  shows "trace_shows l (wch_trace_exit K tick t)"
proof -
  have s: "trace_shows l (t\<lparr>max_isr_ticks := m\<rparr>)" "trace_shows l (t\<lparr>slow_isrs := n\<rparr>)"
    "trace_shows l (t\<lparr>max_isr_ticks := m, slow_isrs := n\<rparr>)" for m n
    by (rule iffD2 [OF shown_shows assms], simp add: shown_def trace_record_def)+
  show ?thesis using assms s by (auto simp: wch_trace_exit_def Let_def intro!: event_shows)
qed

lemma op_record: "trace_op K k t t' \<Longrightarrow> frozen t \<noteq> 0 \<Longrightarrow> trace_record t' = trace_record t"
proof (induction rule: trace_op.induct)
  case (byte st tick' t tick)
  then show ?case by (simp add: fifo_read_trace_def Let_def status_record) (simp add: trace_record_def)
qed (simp_all add: status_record, simp add: trace_record_def)

lemma record_frozen: "trace_record t' = trace_record t \<Longrightarrow> frozen t' = frozen t"
  by (simp add: trace_record_def)

lemma ops_record:
  assumes "trace_ops K k t t'" "frozen t \<noteq> 0"
  shows "trace_record t' = trace_record t"
  using assms
proof (induction rule: trace_ops.induct)
  case (snoc l t u k v)
  have "frozen u \<noteq> 0" using record_frozen [OF snoc(3) [OF snoc(4)]] snoc(4) by simp
  from op_record [OF snoc(2) this] snoc(3) [OF snoc(4)] show ?case by (rule trans)
qed (rule refl)

lemma enter_record: "trace_record (wch_trace_enter K tick t) = trace_record t"
  by (simp add: trace_record_def wch_trace_enter_def Let_def)

lemma exit_record: "frozen t \<noteq> 0 \<Longrightarrow> trace_record (wch_trace_exit K tick t) = trace_record t"
  by (simp add: trace_record_def wch_trace_exit_def wch_trace_event_def Let_def)

text \<open>
  (C29) From a port's initialised trace record on, whatever calls and interrupts follow, the record shows
  exactly what the calls observed: how many bytes were read and written, how many statuses with an
  error the error check and the byte reads each saw and which errors.  It is frozen exactly when some
  call, at either place, read a status with an error, and then holds of the first such reading the
  place, the status, the time and the bytes read and written until then, in the snapshot and as the
  last event of the ring; this part stays as it is through every later call and interrupt.
\<close>

theorem irq_trace_first_error:
  assumes C: "irq_trace C" and t0: "trace s = usart_init_trace K C zero_trace"
    and run: "irq_run X H K C n l s s1" "irq_run X H K C m k s1 s2"
  shows "trace_shows l (trace s1) \<and> (find is_error l \<noteq> None \<longrightarrow> trace_record (trace s2) = trace_record (trace s1))"
proof
  show shows1: "trace_shows l (trace s1)"
    using run(1) C
  proof (induction rule: irq_run_trace_induct)
    case start
    show ?case unfolding t0 by (simp add: usart_init_trace_def zero_trace_def trace_shows_def)
  next
    case (op n l k t t')
    then show ?case by (simp add: op_shows)
  next
    case (isr n l k t t' tick tick')
    from isr(1) have "trace_shows l (wch_trace_enter K tick t)" by (simp only: enter_shows)
    from ops_shows [OF isr(2) this] show ?case by (rule exit_shows)
  qed
  show "find is_error l \<noteq> None \<longrightarrow> trace_record (trace s2) = trace_record (trace s1)"
  proof
    assume "find is_error l \<noteq> None"
    then obtain site st tick where "find is_error l = Some (Status site st tick)" using find_is_error by blast
    then have f: "frozen (trace s1) \<noteq> 0" using shows1 by (simp add: trace_shows_def Let_def)
    then have still: "frozen t \<noteq> 0" if "trace_record t = trace_record (trace s1)" for t
      using record_frozen [OF that] by simp
    from run(2) C show "trace_record (trace s2) = trace_record (trace s1)"
    proof (induction rule: irq_run_trace_induct)
      case (op n l k t t')
      then show ?case using op_record still by metis
    next
      case (isr n l k t t' tick tick')
      then show ?case using ops_record exit_record enter_record still by metis
    qed simp
  qed
qed

section \<open>Sampled durations\<close>

definition sample_ok :: "wch_trace_kconfig \<Rightarrow> nat \<Rightarrow> wch_irq_port_trace \<Rightarrow> bool" where
  "sample_ok K n t \<longleftrightarrow> (let I = unat (SAMPLE_INTERVAL K)
     in irq_count t = of_nat n \<and> timing_samples t = of_nat ((n + I - 1) div I) \<and>
        sample_countdown t = of_nat ((I - n mod I) mod I))"

definition timing_of :: "wch_irq_port_trace \<Rightarrow> u32 list" where
  "timing_of t = [irq_count t, timing_samples t, sample_countdown t, entry_tick t, max_isr_ticks t, slow_isrs t]"

lemma op_timing: "trace_op K k t t' \<Longrightarrow> timing_of t' = timing_of t"
  by (induction rule: trace_op.induct) (simp_all add: timing_of_def wch_trace_status_def trace_first_error_def wch_trace_event_def fifo_read_trace_def Let_def)

lemma ops_timing: "trace_ops K k t t' \<Longrightarrow> timing_of t' = timing_of t"
  by (induction rule: trace_ops.induct) (auto simp: op_timing)

lemma sample_ok_timing: "timing_of t' = timing_of t \<Longrightarrow> sample_ok K n t \<Longrightarrow> sample_ok K n t'"
  by (simp add: timing_of_def sample_ok_def Let_def)

lemma sample_ok_exit: "sample_ok K n t \<Longrightarrow> sample_ok K n (wch_trace_exit K tick t)"
  by (simp add: sample_ok_def wch_trace_exit_def wch_trace_event_def Let_def)

lemma sample_arith:
  assumes "(0::nat) < I"
  shows "I dvd n \<Longrightarrow> (n + I) div I = Suc ((n + I - 1) div I)" "I dvd n \<Longrightarrow> (I - n mod I) mod I = 0"
    "I dvd n \<Longrightarrow> (I - Suc n mod I) mod I = I - 1"
    "\<not> I dvd n \<Longrightarrow> (n + I) div I = (n + I - 1) div I"
    "\<not> I dvd n \<Longrightarrow> (I - n mod I) mod I = Suc ((I - Suc n mod I) mod I)"
proof -
  let ?q = "n div I" and ?r = "n mod I"
  have n: "n = ?r + ?q * I" and r: "?r < I" using assms by simp_all
  have d: "(n + I - 1) div I = ?q + (?r + I - 1) div I"
  proof -
    have "n + I - 1 = (?r + I - 1) + ?q * I" using n assms by linarith
    then show ?thesis using assms by (metis add.commute div_mult_self1 less_irrefl)
  qed
  show "I dvd n \<Longrightarrow> (n + I) div I = Suc ((n + I - 1) div I)" "I dvd n \<Longrightarrow> (I - n mod I) mod I = 0"
    using d assms by (simp_all add: dvd_eq_mod_eq_0)
  show "I dvd n \<Longrightarrow> (I - Suc n mod I) mod I = I - 1"
    using assms by (cases "I = 1") (auto simp: dvd_eq_mod_eq_0 mod_Suc)
  show "(n + I) div I = (n + I - 1) div I" if "\<not> I dvd n"
  proof -
    have "0 < ?r" using that by (simp add: dvd_eq_mod_eq_0)
    then have "(?r + I - 1) div I = 1" by (intro div_nat_eqI) (use r in simp_all)
    then show ?thesis using d assms div_add_self2 [of I n] by simp
  qed
  show "(I - n mod I) mod I = Suc ((I - Suc n mod I) mod I)" if "\<not> I dvd n"
  proof -
    have "0 < ?r" using that by (simp add: dvd_eq_mod_eq_0)
    moreover have "Suc n mod I = (if Suc ?r = I then 0 else Suc ?r)" by (rule mod_Suc)
    ultimately show ?thesis using r by (cases "Suc ?r = I") simp_all
  qed
qed

lemma u32_lt: "unat (x :: u32) < 4294967296"
  using unsigned_less [of x] by simp

lemma u32_of_nat: "x < 4294967296 \<Longrightarrow> unat (of_nat x :: u32) = x"
  by (simp add: unsigned_of_nat take_bit_nat_eq_self)

lemma sample_ok_enter:
  assumes "0 < SAMPLE_INTERVAL K" "sample_ok K n t"
  shows "sample_ok K (Suc n) (wch_trace_enter K tick t)" "sample_countdown t = 0 \<longleftrightarrow> unat (SAMPLE_INTERVAL K) dvd n"
proof -
  let ?I = "unat (SAMPLE_INTERVAL K)"
  have I: "0 < ?I" using assms(1) by (simp add: unat_gt_0 word_neq_0_conv)
  have c: "sample_countdown t = of_nat ((?I - n mod ?I) mod ?I)" and n: "irq_count t = of_nat n"
    "timing_samples t = of_nat ((n + ?I - 1) div ?I)" using assms(2) by (simp_all add: sample_ok_def Let_def)
  have "(?I - n mod ?I) mod ?I < 4294967296"
    using mod_less_divisor [OF I] u32_lt [of "SAMPLE_INTERVAL K"] by (rule order.strict_trans)
  then have "unat (sample_countdown t) = (?I - n mod ?I) mod ?I" unfolding c by (rule u32_of_nat)
  then have z: "sample_countdown t = 0 \<longleftrightarrow> (?I - n mod ?I) mod ?I = 0" by (metis unat_eq_zero)
  then show d: "sample_countdown t = 0 \<longleftrightarrow> ?I dvd n" using sample_arith(2,5) [OF I] by fastforce
  show "sample_ok K (Suc n) (wch_trace_enter K tick t)"
  proof (cases "?I dvd n")
    case True
    then show ?thesis
      using d n sample_arith(1-3) [OF I True] I
      by (simp add: sample_ok_def wch_trace_enter_def Let_def add.commute of_nat_diff)
  next
    case False
    then show ?thesis
      using d n c sample_arith(4,5) [OF I False]
      by (simp add: sample_ok_def wch_trace_enter_def Let_def add.commute)
  qed
qed

text \<open>The duration is exact when it is shorter than one period of the counter.\<close>

lemma trace_delta_exact:
  fixes a e :: nat
  assumes "e < unat (period_ticks K)"
  shows "wch_trace_delta K (of_nat ((a + e) mod unat (period_ticks K))) (of_nat (a mod unat (period_ticks K))) = of_nat e"
    and "(of_nat (a mod unat (period_ticks K)) :: u32) \<noteq> UINT32_MAX"
proof -
  let ?P = "unat (period_ticks K)"
  define b where "b = a mod ?P"
  have P: "?P < 4294967296" by (rule u32_lt)
  have b: "b < ?P" unfolding b_def using assms by simp
  have m: "(a + e) mod ?P = (if b + e < ?P then b + e else b + e - ?P)"
  proof -
    have "(a + e) mod ?P = (b + e) mod ?P" by (simp add: b_def mod_add_left_eq)
    moreover have "(b + e) mod ?P = b + e - ?P" if "\<not> b + e < ?P"
      using that assms b by (simp add: le_mod_geq)
    ultimately show ?thesis by simp
  qed
  have w: "unat (of_nat x :: u32) = x" if "x \<le> ?P" for x using that P by (simp add: u32_of_nat)
  have le: "(of_nat b :: u32) \<le> of_nat x \<longleftrightarrow> b \<le> x" if "x \<le> ?P" for x
    using w [OF that] w [of b] b by (simp add: word_le_nat_alt)
  have "wch_trace_delta K (of_nat ((a + e) mod ?P)) (of_nat b) = of_nat e"
  proof (cases "b + e < ?P")
    case True
    then have "(of_nat b :: u32) \<le> of_nat (b + e)" using le [of "b + e"] by simp
    then show ?thesis using True by (simp add: m wch_trace_delta_def)
  next
    case False
    then have "\<not> (of_nat b :: u32) \<le> of_nat (b + e - ?P)" using le [of "b + e - ?P"] assms b by simp
    then show ?thesis using False by (simp add: m wch_trace_delta_def of_nat_diff)
  qed
  then show "wch_trace_delta K (of_nat ((a + e) mod ?P)) (of_nat (a mod ?P)) = of_nat e" by (simp only: b_def)
  have "unat (of_nat b :: u32) < 4294967295" using b P w by simp
  then show "(of_nat (a mod ?P) :: u32) \<noteq> UINT32_MAX" unfolding b_def [symmetric] by (auto simp: UINT32_MAX_def)
qed

lemma exit_timing:
  "max_isr_ticks (wch_trace_exit K tick t) =
     (if entry_tick t = UINT32_MAX then max_isr_ticks t else max (max_isr_ticks t) (wch_trace_delta K tick (entry_tick t)))"
  "slow_isrs (wch_trace_exit K tick t) =
     slow_isrs t + (if entry_tick t \<noteq> UINT32_MAX \<and> slow_ticks K \<le> wch_trace_delta K tick (entry_tick t) then 1 else 0)"
  "timing_samples (wch_trace_exit K tick t) = timing_samples t" "irq_count (wch_trace_exit K tick t) = irq_count t"
  by (simp_all add: wch_trace_exit_def wch_trace_event_def Let_def max_def less_imp_le)

lemma enter_timing:
  "entry_tick (wch_trace_enter K tick t) = (if sample_countdown t = 0 then tick else UINT32_MAX)"
  "max_isr_ticks (wch_trace_enter K tick t) = max_isr_ticks t" "slow_isrs (wch_trace_enter K tick t) = slow_isrs t"
  by (simp_all add: wch_trace_enter_def Let_def)

text \<open>
  (C30) Of the interrupts since initialisation, exactly every \<^verbatim>\<open>SAMPLE_INTERVAL\<close>-th is timed, beginning
  with the first, and the sample count says how many.  The handler's time in a timed interrupt is
  the exact number of counter cycles, over at most one wrap of the counter, as long as it is
  shorter than the counter's period: it updates the maximum and counts as slow if it reaches the
  limit.  An untimed interrupt changes neither.
\<close>

theorem irq_trace_sampling:
  fixes a e :: nat
  assumes C: "irq_trace C" and t0: "trace s = usart_init_trace K C zero_trace" and run: "irq_run X H K C n l s s'"
    and I: "0 < SAMPLE_INTERVAL K" and app: "callback_calls X H K C app k (isr_entered K C tick s')"
    and e: "e < unat (period_ticks K)" and tick: "tick = of_nat (a mod unat (period_ticks K))"
      "tick' = of_nat ((a + e) mod unat (period_ticks K))"
    and t: "t = trace s'" and t': "t' = trace (usart_wch_isr_irq K C tick tick' app s')"
  shows "irq_count t' = of_nat (Suc n) \<and> timing_samples t' = of_nat (n div unat (SAMPLE_INTERVAL K) + 1) \<and>
    (if unat (SAMPLE_INTERVAL K) dvd n
     then max_isr_ticks t' = max (max_isr_ticks t) (of_nat e) \<and>
       slow_isrs t' = slow_isrs t + (if slow_ticks K \<le> of_nat e then 1 else 0)
     else max_isr_ticks t' = max_isr_ticks t \<and> slow_isrs t' = slow_isrs t)"
proof -
  let ?I = "unat (SAMPLE_INTERVAL K)"
  have I0: "0 < ?I" using I by (simp add: unat_gt_0 word_neq_0_conv)
  have ok: "sample_ok K n t"
    unfolding t using run C
  proof (induction rule: irq_run_trace_induct)
    case start
    show ?case unfolding t0 using I0 by (simp add: usart_init_trace_def zero_trace_def sample_ok_def)
  next
    case (op n l k t t')
    then show ?case using sample_ok_timing op_timing by metis
  next
    case (isr n l k t t' tick tick')
    then show ?case using sample_ok_exit sample_ok_timing ops_timing sample_ok_enter(1) [OF I] by metis
  qed
  obtain u where u: "timing_of u = timing_of (wch_trace_enter K tick t)" "t' = wch_trace_exit K tick' u"
    using irq_isr_trace [OF app C, of tick'] ops_timing t t' by metis
  have "sample_ok K (Suc n) u" using sample_ok_enter(1) [OF I ok] u(1) sample_ok_timing by blast
  moreover have "(n + ?I) div ?I = n div ?I + 1" using I0 by (simp add: div_add_self2)
  ultimately have counts: "irq_count t' = of_nat (Suc n)" "timing_samples t' = of_nat (n div ?I + 1)"
    unfolding u(2) exit_timing by (simp_all add: sample_ok_def Let_def)
  have "entry_tick u = (if ?I dvd n then tick else UINT32_MAX)" "max_isr_ticks u = max_isr_ticks t" "slow_isrs u = slow_isrs t"
    using u(1) sample_ok_enter(2) [OF I ok] by (simp_all add: timing_of_def enter_timing)
  with counts trace_delta_exact [OF e, of a] show ?thesis
    unfolding u(2) exit_timing(1,2) by (simp add: tick u(2))
qed

section \<open>A run with an error\<close>

text \<open>
  A traced port whose callback reads the byte that raised the interrupt; the byte comes with an
  overrun.
\<close>

definition demo_irq_conf :: usart_wch_config where
  "demo_irq_conf = demo_uart\<lparr>async_tx := False, async_rx := False, interrupt_driven := True, irq_trace := True\<rparr>"

definition demo_hal :: usart_hal where
  "demo_hal = \<lparr>CTLR1_TXEIE = 0x80, CTLR1_RXNEIE = 0x20, CTLR1_IDLEIE = 0x10, CTLR2_LBDIE = 0x40, CTLR3_CTSIE = 0x400,
     STATR_IDLE = 0x10, STATR_CTS = 0x200\<rparr>"

definition demo_app :: "u32 \<Rightarrow> u32 \<Rightarrow> dma_dev uart_dev \<Rightarrow> dma_dev uart_dev" where
  "demo_app cb user u = snd (usart_wch_fifo_read demo_ext demo_trace_conf demo_irq_conf 14300 14310 1 u)"

definition demo_traced :: "dma_dev uart_dev" where
  "demo_traced = demo_port\<lparr>trace := usart_init_trace demo_trace_conf demo_irq_conf zero_trace, irq_cb := Some 0x08002000\<rparr>"

definition demo_overrun :: "dma_dev uart_dev" where
  "demo_overrun = usart_wch_isr_irq demo_trace_conf demo_irq_conf 14290 3 demo_app
     (upd_regs (\<lambda>r. r\<lparr>STATR := USART_STATR_RXNE OR USART_STATR_ORE, DATAR := 0x41\<rparr>) demo_traced)"

text \<open>Then the error check sees a parity error.\<close>

definition demo_parity :: "dma_dev uart_dev" where
  "demo_parity = snd (usart_wch_err_check demo_ext demo_trace_conf 700 demo_irq_conf
     (upd_regs (\<lambda>r. r\<lparr>STATR := USART_STATR_TXE OR USART_STATR_PE\<rparr>) demo_overrun))"

abbreviation demo_overrun_obs :: "irq_obs list" where
  "demo_overrun_obs \<equiv> [RxByte, Status 4 (USART_STATR_RXNE OR USART_STATR_ORE) 14310]"

lemma demo_callback:
  assumes "irq_cb u = Some cb"
  shows "callback_calls demo_ext demo_hal demo_trace_conf demo_irq_conf demo_app
    ((if has (STATR (regs u)) USART_STATR_RXNE then [RxByte] else []) @ [Status 4 (STATR (regs u)) 14310]) u"
  using irq_calls.more [OF irq_calls.none irq_call.fifo_read [of demo_ext demo_hal demo_trace_conf demo_irq_conf 1 u 14310 14300]] assms
  by (simp add: callback_calls_def demo_app_def)

lemma demo_overrun_run: "irq_run demo_ext demo_hal demo_trace_conf demo_irq_conf 1 demo_overrun_obs demo_traced demo_overrun"
proof -
  let ?s = "upd_regs (\<lambda>r. r\<lparr>STATR := USART_STATR_RXNE OR USART_STATR_ORE, DATAR := 0x41\<rparr>) demo_traced"
  have h: "has (USART_STATR_RXNE OR USART_STATR_ORE) USART_STATR_RXNE" by (simp add: usart_flag_defs)
  let ?u = "isr_entered demo_trace_conf demo_irq_conf 14290 ?s"
  have u: "irq_cb ?u = Some 0x08002000" "STATR (regs ?u) = USART_STATR_RXNE OR USART_STATR_ORE"
    by (simp_all add: demo_traced_def upd_regs_def)
  have "callback_calls demo_ext demo_hal demo_trace_conf demo_irq_conf demo_app demo_overrun_obs ?u"
    using demo_callback [OF u(1)] unfolding u(2) if_P [OF h] append.simps .
  from irq_run.isr [OF irq_run.call [OF irq_run.start irq_call.hardware] this, of 3] show ?thesis
    by (simp add: demo_overrun_def)
qed

lemma demo_traced_init: "irq_trace demo_irq_conf"
  "trace demo_traced = usart_init_trace demo_trace_conf demo_irq_conf zero_trace"
  by (simp_all add: demo_irq_conf_def demo_traced_def)

theorem irq_trace_first_error_witness:
  "frozen (trace demo_overrun) = 1 \<and> first_error_site (trace demo_overrun) = 4 \<and> first_error_tick (trace demo_overrun) = 14310 \<and>
   first_error_rx (trace demo_overrun) = 1 \<and> fifo_error_reads (trace demo_overrun) = 1 \<and>
   trace_record (trace demo_parity) = trace_record (trace demo_overrun) \<and> api_error_reads (trace demo_parity) = 1"
proof -
  have e: "is_error (Status 4 (USART_STATR_RXNE OR USART_STATR_ORE) 14310)" "status_error (USART_STATR_TXE OR USART_STATR_PE)"
    by (simp_all add: status_error_def usart_flag_defs)
  let ?s = "upd_regs (\<lambda>r. r\<lparr>STATR := USART_STATR_TXE OR USART_STATR_PE\<rparr>) demo_overrun"
  have c: "irq_call demo_ext demo_hal demo_trace_conf demo_irq_conf [Status 3 (USART_STATR_TXE OR USART_STATR_PE) 700] ?s demo_parity"
    using irq_call.err_check [of demo_ext demo_hal demo_trace_conf demo_irq_conf ?s 700] by (simp add: demo_parity_def upd_regs_def)
  note p = irq_run.call [OF irq_run.call [OF irq_run.start irq_call.hardware] c]
  note q = irq_run.call [OF irq_run.call [OF demo_overrun_run irq_call.hardware] c]
  from irq_trace_first_error [OF demo_traced_init demo_overrun_run p] irq_trace_first_error [OF demo_traced_init q irq_run.start] e
  show ?thesis by (simp add: trace_shows_def Let_def)
qed

text \<open>The interrupt after it is the second, untimed; the very first took 114 cycles across the wrap.\<close>

theorem irq_trace_sampling_witness:
  "max_isr_ticks (trace demo_overrun) = 114 \<and>
   timing_samples (trace (usart_wch_isr_irq demo_trace_conf demo_irq_conf 5 25 demo_app demo_overrun)) = 1 \<and>
   max_isr_ticks (trace (usart_wch_isr_irq demo_trace_conf demo_irq_conf 5 25 demo_app demo_overrun)) = 114"
proof -
  have p: "unat (period_ticks demo_trace_conf) = 14401" and i: "0 < SAMPLE_INTERVAL demo_trace_conf"
    "unat (SAMPLE_INTERVAL demo_trace_conf) = 3"
    by (simp_all add: period_ticks_def demo_trace_conf_def)
  have m: "max_isr_ticks (trace demo_overrun) = 114" "irq_cb demo_overrun = Some 0x08002000" by code_simp+
  let ?u = "isr_entered demo_trace_conf demo_irq_conf 5 demo_overrun"
  have "irq_cb ?u = Some 0x08002000" using m(2) by simp
  from irq_trace_sampling [OF demo_traced_init demo_overrun_run i(1) demo_callback [OF this] _ _ _ refl refl, of 20 5 25]
  show ?thesis by (simp add: p i m)
qed

end
