(* ===== verification/Udc_Dev.thy ===== *)
theory Udc_Dev
  imports Wch_Prelude
begin

text \<open>
  The state of the USB device controller driver \<^verbatim>\<open>drivers/usb/udc_wch.c\<close>: the byte
  registers of the USBFS block, the driver's data, the four endpoint configurations, and the
  state \<open>'z\<close> of the Zephyr USB stack, which the driver reaches only through the functions
  collected in the record \<open>udc_ext\<close>.
\<close>

unbundle bit_operations_syntax

section \<open>Registers and tokens\<close>

definition WCH_CTRL :: nat where "WCH_CTRL = 0x00"
definition WCH_PORT :: nat where "WCH_PORT = 0x01"
definition WCH_INT_EN :: nat where "WCH_INT_EN = 0x02"
definition WCH_ADDR :: nat where "WCH_ADDR = 0x03"
definition WCH_MIS_ST :: nat where "WCH_MIS_ST = 0x05"
definition WCH_INT_FG :: nat where "WCH_INT_FG = 0x06"
definition WCH_INT_ST :: nat where "WCH_INT_ST = 0x07"
definition WCH_RX_LEN :: nat where "WCH_RX_LEN = 0x08"
definition WCH_MODE1 :: nat where "WCH_MODE1 = 0x0c"
definition WCH_MODE2 :: nat where "WCH_MODE2 = 0x0d"
definition WCH_DMA :: "nat \<Rightarrow> nat" where "WCH_DMA ep = 0x10 + ep * 4"
definition WCH_TX_LEN :: "nat \<Rightarrow> nat" where "WCH_TX_LEN ep = 0x30 + ep * 4"
definition WCH_TX_CTL :: "nat \<Rightarrow> nat" where "WCH_TX_CTL ep = 0x32 + ep * 4"
definition WCH_RX_CTL :: "nat \<Rightarrow> nat" where "WCH_RX_CTL ep = 0x33 + ep * 4"
definition WCH_RESET :: u8 where "WCH_RESET = 1"
definition WCH_TRANSFER :: u8 where "WCH_TRANSFER = 2"
definition WCH_SUSPEND :: u8 where "WCH_SUSPEND = 4"
definition WCH_FIFO_OV :: u8 where "WCH_FIFO_OV = 16"
definition WCH_IRQS :: u8 where
  "WCH_IRQS = WCH_RESET OR WCH_TRANSFER OR WCH_SUSPEND OR WCH_FIFO_OV"
definition WCH_ACK :: u8 where "WCH_ACK = 0"
definition WCH_NAK :: u8 where "WCH_NAK = 2"
definition WCH_STALL :: u8 where "WCH_STALL = 3"
definition WCH_TOGGLE :: u8 where "WCH_TOGGLE = 4"
definition WCH_TOG_OK :: u8 where "WCH_TOG_OK = 64"
definition WCH_TOKEN_OUT :: u8 where "WCH_TOKEN_OUT = 0x00"
definition WCH_TOKEN_IN :: u8 where "WCH_TOKEN_IN = 0x20"
definition WCH_TOKEN_SETUP :: u8 where "WCH_TOKEN_SETUP = 0x30"
definition WCH_PACKET :: nat where "WCH_PACKET = 64"

text \<open>Endpoint addresses: bit 7 is the direction, the low four bits the number (USB 2.0, 9.6.6).\<close>

abbreviation USB_EP_DIR_IN :: u8 where "USB_EP_DIR_IN \<equiv> 0x80"

definition USB_EP_DIR_IS_IN :: "u8 \<Rightarrow> bool" where
  "USB_EP_DIR_IS_IN ep \<longleftrightarrow> has ep USB_EP_DIR_IN"

definition USB_EP_GET_IDX :: "u8 \<Rightarrow> nat" where
  "USB_EP_GET_IDX ep = unat (ep AND 0x0F)"

section \<open>Driver state\<close>

text \<open>The fields of Zephyr's \<^verbatim>\<open>struct udc_ep_config\<close> the driver uses; \<open>stat_busy\<close> is the flag behind
  \<^verbatim>\<open>udc_ep_is_busy\<close> and \<^verbatim>\<open>udc_ep_set_busy\<close>.\<close>

record udc_ep_config =
  addr :: u8
  mps :: u16
  stat_enabled :: bool
  stat_halted :: bool
  stat_busy :: bool
  caps_mps :: u16
  caps_in :: bool
  caps_out :: bool
  caps_control :: bool
  caps_bulk :: bool

text \<open>The two registers outside the USB block that preparation changes, and the calls made to the
  clock driver, newest last (\<open>True\<close> for on).\<close>

record udc_soc =
  RCC_CFGR0 :: u32
  AFIO_PCFR1 :: u32
  clock_calls :: "(bool \<times> u32) list"

text \<open>Zephyr's control packet size enumeration; the driver only ever sets the one value.\<close>

datatype udc_mps0 = UDC_MPS0_UNSET | UDC_MPS0_64

text \<open>\<open>mmio\<close> are the byte registers by offset; \<open>work_submitted\<close> is set while the work item is
  queued; \<open>setup_pending\<close>, \<open>setup_valid\<close> and \<open>caps_mps0\<close> are fields of \<^verbatim>\<open>struct udc_data\<close>.\<close>

record 'z udc_dev =
  mmio :: "nat \<Rightarrow> u8"
  eps :: "udc_ep_config list"
  packet :: "u8 list list" \<comment> \<open>\<^verbatim>\<open>packet[3][WCH_PACKET]\<close>\<close>
  in_length :: "u8 list"
  running :: bool
  saved_sdi :: u32
  saved_usbpre :: u32
  work_submitted :: bool
  setup_pending :: bool
  setup_valid :: bool
  caps_mps0 :: udc_mps0
  irq_on :: bool
  soc :: udc_soc
  stack :: 'z

section \<open>Outside the repository\<close>

datatype udc_event_type = UDC_EVT_RESET | UDC_EVT_ERROR | UDC_EVT_SUSPEND | UDC_EVT_RESUME

text \<open>
  Zephyr's UDC helper functions and network buffers.  An endpoint pointer is its index in the
  array of endpoint configurations, a buffer pointer a number; the error argument of an event is
  \<open>None\<close> for 0.  \<^verbatim>\<open>udc_ep_enable_internal\<close> and \<^verbatim>\<open>udc_ep_disable_internal\<close> call the
  driver back through its function table, so they take that function (their
  endpoint type and interval arguments are the same in every call and left out); they and
  \<^verbatim>\<open>udc_setup_received\<close> may change the device's data.
\<close>

record 'z udc_ext =
  udc_buf_peek :: "nat \<Rightarrow> 'z \<Rightarrow> nat option"
  udc_buf_get :: "nat \<Rightarrow> 'z \<Rightarrow> nat option \<times> 'z"
  udc_buf_put :: "nat \<Rightarrow> nat \<Rightarrow> 'z \<Rightarrow> 'z"
  buf_data :: "nat \<Rightarrow> 'z \<Rightarrow> u8 list" \<comment> \<open>\<^verbatim>\<open>buf->data\<close>, of length \<^verbatim>\<open>buf->len\<close>\<close>
  net_buf_tailroom :: "nat \<Rightarrow> 'z \<Rightarrow> nat"
  net_buf_pull :: "nat \<Rightarrow> nat \<Rightarrow> 'z \<Rightarrow> 'z"
  net_buf_add_mem :: "nat \<Rightarrow> u8 list \<Rightarrow> 'z \<Rightarrow> 'z"
  buf_info_setup :: "nat \<Rightarrow> 'z \<Rightarrow> bool" \<comment> \<open>\<^verbatim>\<open>udc_get_buf_info(buf)->setup\<close>\<close>
  udc_ep_buf_has_zlp :: "nat \<Rightarrow> 'z \<Rightarrow> bool"
  udc_ep_buf_clear_zlp :: "nat \<Rightarrow> 'z \<Rightarrow> 'z"
  udc_submit_ep_event :: "nat \<Rightarrow> errno option \<Rightarrow> 'z \<Rightarrow> 'z"
  udc_submit_event :: "udc_event_type \<Rightarrow> errno option \<Rightarrow> 'z \<Rightarrow> 'z"
  udc_ep_cancel_queued :: "nat \<Rightarrow> 'z \<Rightarrow> 'z"
  udc_is_suspended :: "'z \<Rightarrow> bool"
  udc_set_suspended :: "bool \<Rightarrow> 'z \<Rightarrow> 'z"
  udc_get_ep_cfg :: "u8 \<Rightarrow> 'z \<Rightarrow> nat option"
  udc_register_ep :: "nat \<Rightarrow> u8 \<Rightarrow> 'z \<Rightarrow> int \<times> 'z"
  udc_setup_received :: "u8 list option \<Rightarrow> 'z udc_dev \<Rightarrow> 'z udc_dev"
  udc_ep_enable_internal :: "(nat \<Rightarrow> 'z udc_dev \<Rightarrow> unit res \<times> 'z udc_dev) \<Rightarrow> u8 \<Rightarrow> u16 \<Rightarrow>
     'z udc_dev \<Rightarrow> unit res \<times> 'z udc_dev"
  udc_ep_disable_internal :: "(nat \<Rightarrow> 'z udc_dev \<Rightarrow> unit res \<times> 'z udc_dev) \<Rightarrow> u8 \<Rightarrow>
     'z udc_dev \<Rightarrow> unit res \<times> 'z udc_dev"

text \<open>The function pointers of \<^verbatim>\<open>struct wch_udc_config\<close>, the addresses of the staging buffers
  and the SoC settings.\<close>

record 'z wch_udc_config =
  prepare :: "'z udc_dev \<Rightarrow> unit res \<times> 'z udc_dev"
  unprepare :: "'z udc_dev \<Rightarrow> 'z udc_dev"
  irq_config :: "'z udc_dev \<Rightarrow> 'z udc_dev"
  packet_addr :: "nat \<Rightarrow> u32"
  clock_id :: u32
  pll_hz :: u32
  release_sdi :: bool

section \<open>State access\<close>

definition set_mmio :: "nat \<Rightarrow> u8 \<Rightarrow> 'z udc_dev \<Rightarrow> 'z udc_dev" where
  "set_mmio off v s = s\<lparr>mmio := (mmio s)(off := v)\<rparr>"

definition upd_ep :: "nat \<Rightarrow> (udc_ep_config \<Rightarrow> udc_ep_config) \<Rightarrow> 'z udc_dev \<Rightarrow> 'z udc_dev" where
  "upd_ep i f s = s\<lparr>eps := (eps s)[i := f (eps s ! i)]\<rparr>"

definition upd_stack :: "('z \<Rightarrow> 'z) \<Rightarrow> 'z udc_dev \<Rightarrow> 'z udc_dev" where
  "upd_stack f s = s\<lparr>stack := f (stack s)\<rparr>"

definition udc_ep_set_busy :: "nat \<Rightarrow> bool \<Rightarrow> 'z udc_dev \<Rightarrow> 'z udc_dev" where
  "udc_ep_set_busy i b = upd_ep i (\<lambda>c. c\<lparr>stat_busy := b\<rparr>)"

definition sys_read16 :: "nat \<Rightarrow> 'z udc_dev \<Rightarrow> u16" where
  "sys_read16 off s = ucast (mmio s off) OR push_bit 8 (ucast (mmio s (off + 1)))"

definition sys_write16 :: "u16 \<Rightarrow> nat \<Rightarrow> 'z udc_dev \<Rightarrow> 'z udc_dev" where
  "sys_write16 v off s = set_mmio (off + 1) (ucast (drop_bit 8 v)) (set_mmio off (ucast v) s)"

definition sys_write32 :: "u32 \<Rightarrow> nat \<Rightarrow> 'z udc_dev \<Rightarrow> 'z udc_dev" where
  "sys_write32 v off s =
     set_mmio (off + 3) (ucast (drop_bit 24 v)) (set_mmio (off + 2) (ucast (drop_bit 16 v))
    (set_mmio (off + 1) (ucast (drop_bit 8 v)) (set_mmio off (ucast v) s)))"

text \<open>\<^verbatim>\<open>memcpy(priv->packet[idx], xs, len)\<close>: the rest of the staging buffer is kept.\<close>

definition copy_to_packet :: "nat \<Rightarrow> u8 list \<Rightarrow> 'z udc_dev \<Rightarrow> 'z udc_dev" where
  "copy_to_packet idx xs s =
     s\<lparr>packet := (packet s)[idx := xs @ drop (length xs) (packet s ! idx)]\<rparr>"

end
