(* ===== verification/Udc_Wch.thy ===== *)
theory Udc_Wch
  imports Udc_Dev
begin

text \<open>
  \<^verbatim>\<open>drivers/usb/udc_wch.c\<close>, function by function.  The API functions run under the UDC
  mutex and \<^verbatim>\<open>wch_quiesce\<close> with interrupts locked, so each is one state transformer; the
  only place where hardware acts inside one is the busy wait of \<^verbatim>\<open>wch_quiesce\<close>, where
  \<open>env\<close> is what it does in one microsecond.
\<close>

unbundle bit_operations_syntax

section \<open>Register access\<close>

definition wch_read :: "nat \<Rightarrow> 'z udc_dev \<Rightarrow> u8" where
  "wch_read off s = mmio s off"

definition wch_write :: "nat \<Rightarrow> u8 \<Rightarrow> 'z udc_dev \<Rightarrow> 'z udc_dev" where
  "wch_write off v s = set_mmio off v s"

text \<open>Writing one to a bit of INT_FG clears it.\<close>

definition wch_ack :: "u8 \<Rightarrow> 'z udc_dev \<Rightarrow> 'z udc_dev" where
  "wch_ack flags s = wch_write WCH_INT_FG (wch_read WCH_INT_FG s AND NOT flags) s"

text \<open>The control register of an endpoint address.\<close>

definition ep_ctl :: "u8 \<Rightarrow> nat" where
  "ep_ctl ep = (if USB_EP_DIR_IS_IN ep then WCH_TX_CTL (USB_EP_GET_IDX ep)
                else WCH_RX_CTL (USB_EP_GET_IDX ep))"

definition wch_response :: "u8 \<Rightarrow> u8 \<Rightarrow> 'z udc_dev \<Rightarrow> 'z udc_dev" where
  "wch_response ep response s =
     wch_write (ep_ctl ep) ((wch_read (ep_ctl ep) s AND WCH_TOGGLE) OR response) s"

definition wch_setup_pending :: "'z udc_dev \<Rightarrow> bool" where
  "wch_setup_pending s \<longleftrightarrow>
     has (wch_read WCH_INT_FG s) WCH_TRANSFER \<and> wch_read WCH_INT_ST s AND 0x3f = WCH_TOKEN_SETUP"

section \<open>Transfers\<close>

text \<open>Staging an IN packet.\<close>

definition kick_stage_in :: "'z udc_ext \<Rightarrow> nat \<Rightarrow> udc_ep_config \<Rightarrow> nat \<Rightarrow> 'z udc_dev \<Rightarrow> 'z udc_dev" where
  "kick_stage_in Z idx cfg buf s =
     (let len = min (length (buf_data Z buf (stack s))) (unat (mps cfg));
          s1 = copy_to_packet idx (take len (buf_data Z buf (stack s))) s;
          s2 = s1\<lparr>in_length := (in_length s1)[idx := of_nat len]\<rparr>
      in sys_write16 (of_nat len) (WCH_TX_LEN idx) s2)"

definition wch_kick :: "'z udc_ext \<Rightarrow> nat \<Rightarrow> 'z udc_dev \<Rightarrow> 'z udc_dev" where
  "wch_kick Z i s =
     (let cfg = eps s ! i;
          idx = USB_EP_GET_IDX (addr cfg)
      in case udc_buf_peek Z i (stack s) of
           None \<Rightarrow> s
         | Some buf \<Rightarrow>
             if \<not> running s \<or> \<not> stat_enabled cfg \<or> stat_halted cfg \<or> stat_busy cfg \<or>
                (idx = 0 \<and> wch_setup_pending s) then s
             else if buf_info_setup Z buf (stack s) then s
             else let s1 = (if USB_EP_DIR_IS_IN (addr cfg) then kick_stage_in Z idx cfg buf s else s)
                  in wch_response (addr cfg) WCH_ACK (udc_ep_set_busy i True s1))"

definition wch_complete :: "'z udc_ext \<Rightarrow> nat \<Rightarrow> errno option \<Rightarrow> 'z udc_dev \<Rightarrow> 'z udc_dev" where
  "wch_complete Z i err s =
     (let (obuf, z) = udc_buf_get Z i (stack s);
          s1 = udc_ep_set_busy i False (s\<lparr>stack := z\<rparr>)
      in case obuf of None \<Rightarrow> s1 | Some buf \<Rightarrow> upd_stack (udc_submit_ep_event Z buf err) s1)"

text \<open>A SETUP token supersedes both EP0 directions.\<close>

definition clear_halted :: "nat option \<Rightarrow> 'z udc_dev \<Rightarrow> 'z udc_dev" where
  "clear_halted oi s = (case oi of None \<Rightarrow> s | Some i \<Rightarrow> upd_ep i (\<lambda>c. c\<lparr>stat_halted := False\<rparr>) s)"

definition transfer_setup :: "'z udc_ext \<Rightarrow> 'z udc_dev \<Rightarrow> 'z udc_dev" where
  "transfer_setup Z s =
     (let s1 = wch_write (WCH_RX_CTL 0) (WCH_TOGGLE OR WCH_NAK)
                 (wch_write (WCH_TX_CTL 0) (WCH_TOGGLE OR WCH_NAK) s);
          s2 = clear_halted (udc_get_ep_cfg Z 0 (stack s)) (clear_halted (udc_get_ep_cfg Z 0x80 (stack s)) s1)
      in udc_setup_received Z (if sys_read16 WCH_RX_LEN s2 = 8 then Some (packet s2 ! 0) else None) s2)"

text \<open>An IN packet was taken by the host: the request advances by its length.\<close>

definition transfer_in :: "'z udc_ext \<Rightarrow> nat \<Rightarrow> nat \<Rightarrow> nat \<Rightarrow> 'z udc_dev \<Rightarrow> 'z udc_dev" where
  "transfer_in Z i idx buf s =
     (let s1 = upd_stack (net_buf_pull Z buf (unat (in_length s ! idx))) s
      in if buf_data Z buf (stack s1) = [] \<and> udc_ep_buf_has_zlp Z buf (stack s1)
         then let s2 = upd_stack (udc_ep_buf_clear_zlp Z buf) s1
              in if unat (in_length s ! idx) = unat (mps (eps s ! i))
                 then wch_kick Z i (udc_ep_set_busy i False s2)
                 else if buf_data Z buf (stack s2) = [] then wch_complete Z i None s2
                 else udc_ep_set_busy i False s2
         else if buf_data Z buf (stack s1) = [] then wch_complete Z i None s1
         else udc_ep_set_busy i False s1)"

text \<open>An OUT packet is in the staging buffer.\<close>

definition transfer_out :: "'z udc_ext \<Rightarrow> nat \<Rightarrow> nat \<Rightarrow> nat \<Rightarrow> 'z udc_dev \<Rightarrow> 'z udc_dev" where
  "transfer_out Z i idx buf s =
     (let len = unat (sys_read16 WCH_RX_LEN s)
      in if len > unat (mps (eps s ! i)) \<or> len > net_buf_tailroom Z buf (stack s)
         then wch_complete Z i (Some EMSGSIZE) s
         else let s1 = upd_stack (net_buf_add_mem Z buf (take len (packet s ! idx))) s
              in if len < unat (mps (eps s ! i)) \<or> net_buf_tailroom Z buf (stack s1) = 0
                 then wch_complete Z i None s1
                 else udc_ep_set_busy i False s1)"

definition wch_transfer :: "'z udc_ext \<Rightarrow> u8 \<Rightarrow> 'z udc_dev \<Rightarrow> 'z udc_dev" where
  "wch_transfer Z token s =
     (let idx = unat (token AND 0x0f);
          pid = token AND 0x30;
          ep = (token AND 0x0f) OR (if pid = WCH_TOKEN_IN then USB_EP_DIR_IN else 0)
      in if pid = WCH_TOKEN_SETUP \<and> idx = 0 then transfer_setup Z s
         else case udc_get_ep_cfg Z ep (stack s) of
           None \<Rightarrow> s
         | Some i \<Rightarrow>
             if idx > 2 \<or> \<not> stat_busy (eps s ! i) \<or> stat_halted (eps s ! i) \<or>
                (pid \<noteq> WCH_TOKEN_IN \<and> pid \<noteq> WCH_TOKEN_OUT) then s
             else case udc_buf_peek Z i (stack s) of
               None \<Rightarrow> s
             | Some buf \<Rightarrow>
                 if buf_info_setup Z buf (stack s) then s
                 else if pid = WCH_TOKEN_OUT \<and> \<not> has token WCH_TOG_OK then s
                 else let s1 = wch_response ep WCH_NAK s;
                          ctl = (if pid = WCH_TOKEN_IN then WCH_TX_CTL idx else WCH_RX_CTL idx);
                          s2 = wch_write ctl (wch_read ctl s1 XOR WCH_TOGGLE) s1
                      in if pid = WCH_TOKEN_IN then transfer_in Z i idx buf s2
                         else transfer_out Z i idx buf s2)"

text \<open>\<^verbatim>\<open>wch_quiesce\<close>: the first argument of \<open>quiesce_wait\<close> is the number of retries left; the
  result says whether the serial engine was seen free (or the driver is not running).\<close>

definition sie_busy :: "'z udc_dev \<Rightarrow> bool" where
  "sie_busy s \<longleftrightarrow> running s \<and> \<not> has (wch_read WCH_MIS_ST s) 32"

fun quiesce_wait :: "(nat \<Rightarrow> 'z udc_dev \<Rightarrow> 'z udc_dev) \<Rightarrow> nat \<Rightarrow> 'z udc_dev \<Rightarrow> bool \<times> 'z udc_dev" where
  "quiesce_wait env 0 s = (\<not> sie_busy s, s)"
| "quiesce_wait env (Suc n) s = (if sie_busy s then quiesce_wait env n (env n s) else (True, s))"

definition wch_quiesce ::
  "'z udc_ext \<Rightarrow> (nat \<Rightarrow> 'z udc_dev \<Rightarrow> 'z udc_dev) \<Rightarrow> bool \<Rightarrow> nat \<Rightarrow> 'z udc_dev \<Rightarrow> unit res \<times> 'z udc_dev" where
  "wch_quiesce Z env cancel i s =
     (let ep = addr (eps s ! i);
          expected = (ep AND 0x0F) OR (if USB_EP_DIR_IS_IN ep then WCH_TOKEN_IN else WCH_TOKEN_OUT)
      in case quiesce_wait env 100 (wch_response ep WCH_NAK s) of
           (False, s1) \<Rightarrow> (Err EBUSY, s1)
         | (True, s1) \<Rightarrow>
             let token = wch_read WCH_INT_ST s1;
                 s2 = (if has (wch_read WCH_INT_FG s1) WCH_TRANSFER \<and> token AND 0x3f = expected
                       then wch_ack WCH_TRANSFER
                              (if cancel then s1 else wch_response ep WCH_NAK (wch_transfer Z token s1))
                       else s1)
             in (Ok, udc_ep_set_busy i False s2))"

section \<open>Endpoint operations\<close>

definition wch_enqueue :: "'z udc_ext \<Rightarrow> nat \<Rightarrow> nat \<Rightarrow> 'z udc_dev \<Rightarrow> unit res \<times> 'z udc_dev" where
  "wch_enqueue Z i buf s =
     (if \<not> running s then (Err EIO, s)
      else (Ok, wch_kick Z i (upd_stack (udc_buf_put Z i buf) s)))"

definition wch_dequeue ::
  "'z udc_ext \<Rightarrow> (nat \<Rightarrow> 'z udc_dev \<Rightarrow> 'z udc_dev) \<Rightarrow> nat \<Rightarrow> 'z udc_dev \<Rightarrow> unit res \<times> 'z udc_dev" where
  "wch_dequeue Z env i s =
     (case wch_quiesce Z env True i s of
        (Inl e, s1) \<Rightarrow> (Err e, s1)
      | (Inr _, s1) \<Rightarrow> (Ok, upd_stack (udc_ep_cancel_queued Z i) s1))"

definition wch_ep_enable :: "nat \<Rightarrow> 'z udc_dev \<Rightarrow> unit res \<times> 'z udc_dev" where
  "wch_ep_enable i s =
     (let ep = addr (eps s ! i)
      in if mps (eps s ! i) \<noteq> 64 \<and> USB_EP_GET_IDX ep = 0 then (Err ENOTSUP, s)
         else let s1 = (if ep = 0x81 then wch_write WCH_MODE1 64 s
                        else if ep = 0x02 then wch_write WCH_MODE2 8 s else s);
                  s2 = wch_write (ep_ctl ep) (if ep = 0 then WCH_ACK else WCH_NAK) s1;
                  s3 = upd_ep i (\<lambda>c. c\<lparr>stat_halted := False\<rparr>) s2
              in (Ok, udc_ep_set_busy i False s3))"

definition wch_ep_disable ::
  "'z udc_ext \<Rightarrow> (nat \<Rightarrow> 'z udc_dev \<Rightarrow> 'z udc_dev) \<Rightarrow> nat \<Rightarrow> 'z udc_dev \<Rightarrow> unit res \<times> 'z udc_dev" where
  "wch_ep_disable Z env i s =
     (case wch_dequeue Z env i s of
        (Inl e, s1) \<Rightarrow> (Err e, s1)
      | (Inr _, s1) \<Rightarrow>
          (Ok, if addr (eps s1 ! i) = 0x81 then wch_write WCH_MODE1 0 s1
               else if addr (eps s1 ! i) = 0x02 then wch_write WCH_MODE2 0 s1 else s1))"

definition wch_halt ::
  "'z udc_ext \<Rightarrow> (nat \<Rightarrow> 'z udc_dev \<Rightarrow> 'z udc_dev) \<Rightarrow> nat \<Rightarrow> 'z udc_dev \<Rightarrow> unit res \<times> 'z udc_dev" where
  "wch_halt Z env i s =
     (case wch_quiesce Z env False i s of
        (Inl e, s1) \<Rightarrow> (Err e, s1)
      | (Inr _, s1) \<Rightarrow>
          if USB_EP_GET_IDX (addr (eps s1 ! i)) = 0 \<and> (wch_setup_pending s1 \<or> setup_pending s1)
          then (Ok, s1)
          else (Ok, upd_ep i (\<lambda>c. c\<lparr>stat_halted := True\<rparr>)
                      (wch_response (addr (eps s1 ! i)) WCH_STALL s1)))"

definition wch_clear_halt :: "'z udc_ext \<Rightarrow> nat \<Rightarrow> 'z udc_dev \<Rightarrow> unit res \<times> 'z udc_dev" where
  "wch_clear_halt Z i s =
     (let s1 = wch_write (ep_ctl (addr (eps s ! i))) WCH_NAK s;
          s2 = upd_ep i (\<lambda>c. c\<lparr>stat_halted := False\<rparr>) s1
      in (Ok, wch_kick Z i s2))"

definition wch_address :: "u8 \<Rightarrow> 'z udc_dev \<Rightarrow> unit res \<times> 'z udc_dev" where
  "wch_address a s = (if a > 127 then (Err EINVAL, s) else (Ok, wch_write WCH_ADDR a s))"

definition wch_wakeup :: "'z udc_dev \<Rightarrow> unit res \<times> 'z udc_dev" where
  "wch_wakeup s = (Err ENOTSUP, s)"

datatype udc_bus_speed = UDC_BUS_SPEED_FS

definition wch_speed :: "'z udc_dev \<Rightarrow> udc_bus_speed" where
  "wch_speed s = UDC_BUS_SPEED_FS"

section \<open>Controller operations\<close>

definition wch_enable :: "'z udc_dev \<Rightarrow> unit res \<times> 'z udc_dev" where
  "wch_enable s =
     (let s1 = wch_write WCH_ADDR 0 (s\<lparr>running := True\<rparr>);
          s2 = wch_write (WCH_TX_CTL 0) WCH_NAK (wch_write (WCH_RX_CTL 0) WCH_ACK s1);
          s3 = wch_write WCH_INT_EN WCH_IRQS (wch_ack 0xff s2)
      in (Ok, wch_write WCH_CTRL 0x29 (wch_write WCH_PORT 0x81 s3)))"

text \<open>The result of each \<^verbatim>\<open>wch_dequeue\<close> is ignored by the source.\<close>

definition wch_disable ::
  "'z udc_ext \<Rightarrow> (nat \<Rightarrow> 'z udc_dev \<Rightarrow> 'z udc_dev) \<Rightarrow> 'z udc_dev \<Rightarrow> unit res \<times> 'z udc_dev" where
  "wch_disable Z env s =
     (let s1 = wch_ack 0xff (wch_write WCH_PORT 0 (wch_write WCH_CTRL 0
                 (wch_write WCH_INT_EN 0 (s\<lparr>running := False\<rparr>))));
          s2 = fold (\<lambda>i s. snd (wch_dequeue Z env i s)) [0..<4] s1
      in (Ok, s2\<lparr>setup_pending := False, setup_valid := False\<rparr>))"

definition reset_ep :: "'z udc_ext \<Rightarrow> nat \<Rightarrow> 'z udc_dev \<Rightarrow> 'z udc_dev" where
  "reset_ep Z i s =
     (let ep = addr (eps s ! i);
          s1 = udc_ep_set_busy i False (wch_response ep WCH_NAK s);
          s2 = upd_ep i (\<lambda>c. c\<lparr>stat_halted := False, stat_enabled := (USB_EP_GET_IDX ep = 0)\<rparr>) s1
      in upd_stack (udc_ep_cancel_queued Z i) s2)"

definition wch_reset :: "'z udc_ext \<Rightarrow> 'z udc_dev \<Rightarrow> 'z udc_dev" where
  "wch_reset Z s =
     (let s1 = wch_write WCH_MODE2 0 (wch_write WCH_MODE1 0 (wch_write WCH_ADDR 0 s));
          s2 = fold (reset_ep Z) [0..<4] s1;
          s3 = s2\<lparr>setup_pending := False, setup_valid := False\<rparr>;
          s4 = (if udc_is_suspended Z (stack s3) then upd_stack (udc_set_suspended Z False) s3 else s3);
          s5 = wch_write (WCH_RX_CTL 0) WCH_ACK (wch_write (WCH_TX_CTL 0) WCH_NAK s4)
      in upd_stack (udc_submit_event Z UDC_EVT_RESET None) s5)"

definition work_suspend :: "'z udc_ext \<Rightarrow> 'z udc_dev \<Rightarrow> 'z udc_dev" where
  "work_suspend Z s =
     (let suspended = has (wch_read WCH_MIS_ST s) 4
      in wch_ack WCH_SUSPEND
           (upd_stack (udc_submit_event Z (if suspended then UDC_EVT_SUSPEND else UDC_EVT_RESUME) None)
             (upd_stack (udc_set_suspended Z suspended) s)))"

text \<open>The flag handling of one run of the worker, and the run.\<close>

definition work_flags ::
  "'z udc_ext \<Rightarrow> (nat \<Rightarrow> 'z udc_dev \<Rightarrow> 'z udc_dev) \<Rightarrow> 'z udc_dev \<Rightarrow> 'z udc_dev" where
  "work_flags Z env s =
     (let flags = wch_read WCH_INT_FG s
      in if has flags WCH_RESET then wch_ack flags (wch_reset Z s)
         else if has flags WCH_FIFO_OV
         then upd_stack (udc_submit_event Z UDC_EVT_ERROR (Some EOVERFLOW)) (snd (wch_disable Z env s))
         else let s1 = (if has flags WCH_TRANSFER
                        then wch_ack WCH_TRANSFER (wch_transfer Z (wch_read WCH_INT_ST s) s) else s)
              in if has flags WCH_SUSPEND then work_suspend Z s1 else s1)"

definition wch_work ::
  "'z udc_ext \<Rightarrow> (nat \<Rightarrow> 'z udc_dev \<Rightarrow> 'z udc_dev) \<Rightarrow> 'z udc_dev \<Rightarrow> 'z udc_dev" where
  "wch_work Z env s =
     (if \<not> running s then s
      else let s1 = work_flags Z env s
           in if running s1 then wch_write WCH_INT_EN WCH_IRQS (fold (wch_kick Z) [0..<4] s1) else s1)"

definition wch_isr :: "'z udc_dev \<Rightarrow> 'z udc_dev" where
  "wch_isr s = (wch_write WCH_INT_EN 0 s)\<lparr>work_submitted := True\<rparr>"

definition init_regs :: "'z wch_udc_config \<Rightarrow> 'z udc_dev \<Rightarrow> 'z udc_dev" where
  "init_regs K s =
     (let s1 = wch_write WCH_CTRL 0 (wch_write WCH_CTRL 6 s);
          s2 = wch_write WCH_MODE2 0 (wch_write WCH_MODE1 0 (wch_write WCH_ADDR 0 (wch_write WCH_INT_EN 0 s1)))
      in fold (\<lambda>i. sys_write32 (packet_addr K i) (WCH_DMA i)) [0..<3] (wch_ack 0xff s2))"

definition wch_init ::
  "'z udc_ext \<Rightarrow> (nat \<Rightarrow> 'z udc_dev \<Rightarrow> 'z udc_dev) \<Rightarrow> 'z wch_udc_config \<Rightarrow> 'z udc_dev \<Rightarrow>
   unit res \<times> 'z udc_dev" where
  "wch_init Z env K s =
     (case prepare K s of
        (Inl e, s1) \<Rightarrow> (Err e, s1)
      | (Inr _, s1) \<Rightarrow>
          let (r, s3) = (case udc_ep_enable_internal Z wch_ep_enable 0 64 (init_regs K s1) of
                           (Inl e, s2) \<Rightarrow> (Err e, s2)
                         | (Inr _, s2) \<Rightarrow> udc_ep_enable_internal Z wch_ep_enable 0x80 64 s2)
          in case r of
               Inl e \<Rightarrow> (Err e, unprepare K (snd (udc_ep_disable_internal Z (wch_ep_disable Z env) 0 s3)))
             | Inr _ \<Rightarrow> (Ok, irq_config K s3))"

definition wch_shutdown ::
  "'z udc_ext \<Rightarrow> (nat \<Rightarrow> 'z udc_dev \<Rightarrow> 'z udc_dev) \<Rightarrow> 'z wch_udc_config \<Rightarrow> 'z udc_dev \<Rightarrow>
   unit res \<times> 'z udc_dev" where
  "wch_shutdown Z env K s =
     (let s1 = snd (wch_disable Z env s);
          s2 = snd (udc_ep_disable_internal Z (wch_ep_disable Z env) 0 s1);
          s3 = snd (udc_ep_disable_internal Z (wch_ep_disable Z env) 0x80 s2)
      in (Ok, unprepare K s3))"

text \<open>\<^verbatim>\<open>wch_preinit\<close>: the loop over the endpoint table, with its early return.\<close>

definition preinit_addresses :: "u8 list" where "preinit_addresses = [0, 0x80, 0x81, 0x02]"

definition preinit_ep :: "nat \<Rightarrow> u8 \<Rightarrow> 'z udc_dev \<Rightarrow> 'z udc_dev" where
  "preinit_ep i a = upd_ep i (\<lambda>c. c\<lparr>addr := a, caps_mps := 64, caps_in := USB_EP_DIR_IS_IN a,
     caps_out := \<not> USB_EP_DIR_IS_IN a, caps_control := i < 2, caps_bulk := i \<ge> 2\<rparr>)"

fun preinit_loop :: "'z udc_ext \<Rightarrow> nat \<Rightarrow> u8 list \<Rightarrow> 'z udc_dev \<Rightarrow> unit res \<times> 'z udc_dev" where
  "preinit_loop Z i [] s = (Ok, s)"
| "preinit_loop Z i (a # as) s =
     (let s1 = preinit_ep i a s;
          (ret, z) = udc_register_ep Z i a (stack s1);
          s2 = s1\<lparr>stack := z\<rparr>
      in if ret \<noteq> 0 then (Err (ERet ret), s2) else preinit_loop Z (i + 1) as s2)"

definition wch_preinit :: "'z udc_ext \<Rightarrow> 'z udc_dev \<Rightarrow> unit res \<times> 'z udc_dev" where
  "wch_preinit Z s =
     preinit_loop Z 0 preinit_addresses (s\<lparr>work_submitted := False, caps_mps0 := UDC_MPS0_64\<rparr>)"

end
