(* ===== verification/Udc_Stack.thy ===== *)
theory Udc_Stack
  imports Udc_Wch
begin

text \<open>
  What the driver relies on from the USB stack: per endpoint a queue of buffers, buffers with
  data and room, and a list of submitted events.  \<open>udc_stack_ok Z V\<close> says that the functions
  \<open>Z\<close> behave so under the view \<open>V\<close>; it is a hypothesis of the properties, and \<open>list_stack\<close>
  is one stack that meets it.
\<close>

unbundle bit_operations_syntax

section \<open>The view\<close>

record net_buf =
  nb_data :: "u8 list"
  nb_room :: nat
  nb_setup :: bool
  nb_zlp :: bool

datatype udc_ev = EpRequest nat "errno option" | BusEvent udc_event_type "errno option"

record udc_view =
  vq :: "nat \<Rightarrow> nat list"
  vbuf :: "nat \<Rightarrow> net_buf"
  vevs :: "udc_ev list"
  vtab :: "u8 \<Rightarrow> nat option"
  vsusp :: bool

text \<open>\<^verbatim>\<open>udc_ep_cancel_queued\<close> returns every queued buffer, in order, with \<^verbatim>\<open>-ECONNABORTED\<close>.\<close>

definition view_put :: "nat \<Rightarrow> nat \<Rightarrow> udc_view \<Rightarrow> udc_view" where
  "view_put i b v = v\<lparr>vq := (vq v)(i := vq v i @ [b])\<rparr>"

definition view_drop :: "nat \<Rightarrow> udc_view \<Rightarrow> udc_view" where
  "view_drop i v = v\<lparr>vq := (vq v)(i := tl (vq v i))\<rparr>"

definition view_pull :: "nat \<Rightarrow> nat \<Rightarrow> udc_view \<Rightarrow> udc_view" where
  "view_pull b n v = v\<lparr>vbuf := (vbuf v)(b := (vbuf v b)\<lparr>nb_data := drop n (nb_data (vbuf v b))\<rparr>)\<rparr>"

definition view_add :: "nat \<Rightarrow> u8 list \<Rightarrow> udc_view \<Rightarrow> udc_view" where
  "view_add b xs v = v\<lparr>vbuf := (vbuf v)(b := (vbuf v b)\<lparr>nb_data := nb_data (vbuf v b) @ xs,
     nb_room := nb_room (vbuf v b) - length xs\<rparr>)\<rparr>"

definition view_clear_zlp :: "nat \<Rightarrow> udc_view \<Rightarrow> udc_view" where
  "view_clear_zlp b v = v\<lparr>vbuf := (vbuf v)(b := (vbuf v b)\<lparr>nb_zlp := False\<rparr>)\<rparr>"

definition view_event :: "udc_ev \<Rightarrow> udc_view \<Rightarrow> udc_view" where
  "view_event e v = v\<lparr>vevs := vevs v @ [e]\<rparr>"

definition view_cancel :: "nat \<Rightarrow> udc_view \<Rightarrow> udc_view" where
  "view_cancel i v = v\<lparr>vevs := vevs v @ map (\<lambda>b. EpRequest b (Some ECONNABORTED)) (vq v i),
     vq := (vq v)(i := [])\<rparr>"

section \<open>The contract\<close>

text \<open>Buffers are handed over by pointer; removing more bytes than there are, or adding more than
  there is room for, is outside the contract of \<^verbatim>\<open>net_buf\<close> and nothing is assumed then.\<close>

definition udc_stack_ok :: "'z udc_ext \<Rightarrow> ('z \<Rightarrow> udc_view) \<Rightarrow> bool" where
  "udc_stack_ok Z V \<longleftrightarrow>
     (\<forall>i z. udc_buf_peek Z i z = (case vq (V z) i of [] \<Rightarrow> None | b # _ \<Rightarrow> Some b)) \<and>
     (\<forall>i z. fst (udc_buf_get Z i z) = (case vq (V z) i of [] \<Rightarrow> None | b # _ \<Rightarrow> Some b)) \<and>
     (\<forall>i z. V (snd (udc_buf_get Z i z)) = view_drop i (V z)) \<and>
     (\<forall>i b z. V (udc_buf_put Z i b z) = view_put i b (V z)) \<and>
     (\<forall>b z. buf_data Z b z = nb_data (vbuf (V z) b)) \<and>
     (\<forall>b z. net_buf_tailroom Z b z = nb_room (vbuf (V z) b)) \<and>
     (\<forall>b n z. n \<le> length (nb_data (vbuf (V z) b)) \<longrightarrow> V (net_buf_pull Z b n z) = view_pull b n (V z)) \<and>
     (\<forall>b xs z. length xs \<le> nb_room (vbuf (V z) b) \<longrightarrow> V (net_buf_add_mem Z b xs z) = view_add b xs (V z)) \<and>
     (\<forall>b z. buf_info_setup Z b z = nb_setup (vbuf (V z) b)) \<and>
     (\<forall>b z. udc_ep_buf_has_zlp Z b z = nb_zlp (vbuf (V z) b)) \<and>
     (\<forall>b z. V (udc_ep_buf_clear_zlp Z b z) = view_clear_zlp b (V z)) \<and>
     (\<forall>b e z. V (udc_submit_ep_event Z b e z) = view_event (EpRequest b e) (V z)) \<and>
     (\<forall>t e z. V (udc_submit_event Z t e z) = view_event (BusEvent t e) (V z)) \<and>
     (\<forall>i z. V (udc_ep_cancel_queued Z i z) = view_cancel i (V z)) \<and>
     (\<forall>z. udc_is_suspended Z z = vsusp (V z)) \<and>
     (\<forall>b z. V (udc_set_suspended Z b z) = (V z)\<lparr>vsusp := b\<rparr>) \<and>
     (\<forall>a z. udc_get_ep_cfg Z a z = vtab (V z) a)"

lemma stack_laws:
  assumes "udc_stack_ok Z V"
  shows "udc_buf_peek Z i z = (case vq (V z) i of [] \<Rightarrow> None | b # _ \<Rightarrow> Some b)"
    and "fst (udc_buf_get Z i z) = (case vq (V z) i of [] \<Rightarrow> None | b # _ \<Rightarrow> Some b)"
    and "V (snd (udc_buf_get Z i z)) = view_drop i (V z)"
    and "V (udc_buf_put Z i b z) = view_put i b (V z)"
    and "buf_data Z b z = nb_data (vbuf (V z) b)"
    and "net_buf_tailroom Z b z = nb_room (vbuf (V z) b)"
    and "n \<le> length (nb_data (vbuf (V z) b)) \<Longrightarrow> V (net_buf_pull Z b n z) = view_pull b n (V z)"
    and "length xs \<le> nb_room (vbuf (V z) b) \<Longrightarrow> V (net_buf_add_mem Z b xs z) = view_add b xs (V z)"
    and "buf_info_setup Z b z = nb_setup (vbuf (V z) b)"
    and "udc_ep_buf_has_zlp Z b z = nb_zlp (vbuf (V z) b)"
    and "V (udc_ep_buf_clear_zlp Z b z) = view_clear_zlp b (V z)"
    and "V (udc_submit_ep_event Z b e z) = view_event (EpRequest b e) (V z)"
    and "V (udc_submit_event Z t e z) = view_event (BusEvent t e) (V z)"
    and "V (udc_ep_cancel_queued Z i z) = view_cancel i (V z)"
    and "udc_is_suspended Z z = vsusp (V z)"
    and "V (udc_set_suspended Z c z) = (V z)\<lparr>vsusp := c\<rparr>"
    and "udc_get_ep_cfg Z a z = vtab (V z) a"
  using assms unfolding udc_stack_ok_def by simp_all

text \<open>
  What \<^verbatim>\<open>udc_setup_received\<close> may change: it handles the two control endpoints (indices 0 and
  1), may return their buffers and set their state, but does not take a buffer from an endpoint
  that it leaves busy; it leaves the registers, the staging buffers, the other endpoints and
  their queues alone.  \<open>own b\<close> is the endpoint buffer \<open>b\<close> was
  allocated for (\<^verbatim>\<open>udc_get_buf_info(buf)->ep\<close>).
\<close>

fun ev_buf :: "udc_ev \<Rightarrow> nat option" where
  "ev_buf (EpRequest b _) = Some b"
| "ev_buf (BusEvent _ _) = None"

definition ctrl_only :: "('z \<Rightarrow> udc_view) \<Rightarrow> (nat \<Rightarrow> nat) \<Rightarrow> 'z udc_dev \<Rightarrow> 'z udc_dev \<Rightarrow> bool" where
  "ctrl_only V own s s' \<longleftrightarrow>
     mmio s' = mmio s \<and> packet s' = packet s \<and> in_length s' = in_length s \<and> running s' = running s \<and>
     soc s' = soc s \<and> saved_sdi s' = saved_sdi s \<and> saved_usbpre s' = saved_usbpre s \<and>
     length (eps s') = length (eps s) \<and>
     (\<forall>i < length (eps s). addr (eps s' ! i) = addr (eps s ! i) \<and>
        mps (eps s' ! i) = mps (eps s ! i) \<and> (i \<ge> 2 \<or> stat_busy (eps s' ! i) \<longrightarrow> eps s' ! i = eps s ! i)) \<and>
     vtab (V (stack s')) = vtab (V (stack s)) \<and>
     (\<forall>i \<ge> 2. vq (V (stack s')) i = vq (V (stack s)) i) \<and>
     (\<forall>i < 2. set (vq (V (stack s')) i) \<subseteq> set (vq (V (stack s)) i)) \<and>
     (\<forall>i < 2. stat_busy (eps s' ! i) \<longrightarrow> vq (V (stack s')) i = vq (V (stack s)) i \<and>
        (\<forall>b \<in> set (vq (V (stack s)) i). vbuf (V (stack s')) b = vbuf (V (stack s)) b)) \<and>
     (\<forall>b. own b \<ge> 2 \<longrightarrow> vbuf (V (stack s')) b = vbuf (V (stack s)) b) \<and>
     (\<exists>es. vevs (V (stack s')) = vevs (V (stack s)) @ es \<and>
        (\<forall>e \<in> set es. case ev_buf e of None \<Rightarrow> True | Some b \<Rightarrow> own b < 2))"

definition setup_received_ok :: "'z udc_ext \<Rightarrow> ('z \<Rightarrow> udc_view) \<Rightarrow> (nat \<Rightarrow> nat) \<Rightarrow> bool" where
  "setup_received_ok Z V own \<longleftrightarrow> (\<forall>p s. ctrl_only V own s (udc_setup_received Z p s))"

text \<open>What \<^verbatim>\<open>udc_ep_enable_internal\<close> does around the driver's function: it refuses, or it takes an
  endpoint that is not enabled, sets a packet size within the endpoint's capability (at most 64
  for this driver), may clear its halt, calls the driver and marks the endpoint enabled when that
  succeeds.
  \<^verbatim>\<open>udc_ep_disable_internal\<close> calls the driver and marks the endpoint disabled.\<close>

definition enable_result ::
  "(nat \<Rightarrow> 'z udc_dev \<Rightarrow> unit res \<times> 'z udc_dev) \<Rightarrow> 'z udc_dev \<Rightarrow> unit res \<Rightarrow> 'z udc_dev \<Rightarrow> bool" where
  "enable_result f s r s' \<longleftrightarrow> r \<noteq> Ok \<and> s' = s \<or>
     (\<exists>i m h r1 s1. i < 4 \<and> \<not> stat_enabled (eps s ! i) \<and> m \<le> 64 \<and> (h \<longrightarrow> stat_halted (eps s ! i)) \<and>
        f i (upd_ep i (\<lambda>c. c\<lparr>mps := m, stat_halted := h\<rparr>) s) = (r1, s1) \<and> r = r1 \<and>
        s' = (if r1 = Ok then upd_ep i (\<lambda>c. c\<lparr>stat_enabled := True\<rparr>) s1 else s1))"

definition disable_result ::
  "(nat \<Rightarrow> 'z udc_dev \<Rightarrow> unit res \<times> 'z udc_dev) \<Rightarrow> 'z udc_dev \<Rightarrow> unit res \<Rightarrow> 'z udc_dev \<Rightarrow> bool" where
  "disable_result f s r s' \<longleftrightarrow> r \<noteq> Ok \<and> s' = s \<or>
     (\<exists>i r1 s1. i < 4 \<and> f i s = (r1, s1) \<and> r = r1 \<and>
        s' = (if r1 = Ok then upd_ep i (\<lambda>c. c\<lparr>stat_enabled := False\<rparr>) s1 else s1))"

definition internal_ok :: "'z udc_ext \<Rightarrow> bool" where
  "internal_ok Z \<longleftrightarrow>
     (\<forall>f a m s r s'. m \<le> 64 \<longrightarrow> udc_ep_enable_internal Z f a m s = (r, s') \<longrightarrow> enable_result f s r s') \<and>
     (\<forall>f a s r s'. udc_ep_disable_internal Z f a s = (r, s') \<longrightarrow> disable_result f s r s')"

section \<open>A stack that meets the contract\<close>

definition list_get :: "nat \<Rightarrow> udc_view \<Rightarrow> nat option \<times> udc_view" where
  "list_get i v = ((case vq v i of [] \<Rightarrow> None | b # _ \<Rightarrow> Some b), view_drop i v)"

definition list_stack :: "udc_view udc_ext" where
  "list_stack = \<lparr>udc_buf_peek = (\<lambda>i v. case vq v i of [] \<Rightarrow> None | b # _ \<Rightarrow> Some b),
     udc_buf_get = list_get, udc_buf_put = view_put,
     buf_data = (\<lambda>b v. nb_data (vbuf v b)), net_buf_tailroom = (\<lambda>b v. nb_room (vbuf v b)),
     net_buf_pull = view_pull, net_buf_add_mem = view_add,
     buf_info_setup = (\<lambda>b v. nb_setup (vbuf v b)), udc_ep_buf_has_zlp = (\<lambda>b v. nb_zlp (vbuf v b)),
     udc_ep_buf_clear_zlp = view_clear_zlp, udc_submit_ep_event = (\<lambda>b e. view_event (EpRequest b e)),
     udc_submit_event = (\<lambda>t e. view_event (BusEvent t e)), udc_ep_cancel_queued = view_cancel,
     udc_is_suspended = vsusp, udc_set_suspended = (\<lambda>b v. v\<lparr>vsusp := b\<rparr>),
     udc_get_ep_cfg = (\<lambda>a v. vtab v a),
     udc_register_ep = (\<lambda>i a v. (0, v\<lparr>vtab := (vtab v)(a := Some i)\<rparr>)),
     udc_setup_received = (\<lambda>p s. s\<lparr>eps := map (\<lambda>i. if i < 2 then (eps s ! i)\<lparr>stat_busy := False\<rparr> else eps s ! i)
       [0..<length (eps s)], setup_pending := True, setup_valid := (p \<noteq> None)\<rparr>),
     udc_ep_enable_internal = (\<lambda>enable a m s. case vtab (stack s) a of None \<Rightarrow> (Err ENODEV, s)
       | Some i \<Rightarrow> if i < 4 \<and> m \<le> 64 \<and> \<not> stat_enabled (eps s ! i)
           then (case enable i (upd_ep i (\<lambda>c. c\<lparr>mps := m, stat_halted := False\<rparr>) s) of
              (Inl e, s1) \<Rightarrow> (Err e, s1)
            | (Inr _, s1) \<Rightarrow> (Ok, upd_ep i (\<lambda>c. c\<lparr>stat_enabled := True\<rparr>) s1))
           else (Err EINVAL, s)),
     udc_ep_disable_internal = (\<lambda>disable a s. case vtab (stack s) a of None \<Rightarrow> (Err ENODEV, s)
       | Some i \<Rightarrow> if i < 4 \<and> stat_enabled (eps s ! i)
           then (case disable i s of
              (Inl e, s1) \<Rightarrow> (Err e, s1)
            | (Inr _, s1) \<Rightarrow> (Ok, upd_ep i (\<lambda>c. c\<lparr>stat_enabled := False\<rparr>) s1))
           else (Err EINVAL, s))\<rparr>"

lemma list_stack_ok: "udc_stack_ok list_stack id"
  by (simp add: udc_stack_ok_def list_stack_def list_get_def)

lemma list_internal_ok: "internal_ok list_stack"
  by (force simp: internal_ok_def list_stack_def enable_result_def disable_result_def
      split: option.splits if_splits prod.splits sum.splits)

lemma list_setup_ok: "setup_received_ok list_stack id own"
  by (auto simp: setup_received_ok_def list_stack_def ctrl_only_def)

section \<open>State access\<close>

lemma mmio_ops [simp]:
  "mmio (set_mmio off v s) = (mmio s)(off := v)" "eps (set_mmio off v s) = eps s"
  "packet (set_mmio off v s) = packet s" "in_length (set_mmio off v s) = in_length s"
  "running (set_mmio off v s) = running s" "stack (set_mmio off v s) = stack s"
  "setup_pending (set_mmio off v s) = setup_pending s" "setup_valid (set_mmio off v s) = setup_valid s"
  "soc (set_mmio off v s) = soc s" "saved_sdi (set_mmio off v s) = saved_sdi s"
  "saved_usbpre (set_mmio off v s) = saved_usbpre s" "work_submitted (set_mmio off v s) = work_submitted s"
  by (simp_all add: set_mmio_def)

lemma upd_ep_ops [simp]:
  "mmio (upd_ep i f s) = mmio s" "eps (upd_ep i f s) = (eps s)[i := f (eps s ! i)]"
  "packet (upd_ep i f s) = packet s" "in_length (upd_ep i f s) = in_length s"
  "running (upd_ep i f s) = running s" "stack (upd_ep i f s) = stack s"
  "setup_pending (upd_ep i f s) = setup_pending s" "setup_valid (upd_ep i f s) = setup_valid s"
  "soc (upd_ep i f s) = soc s" "saved_sdi (upd_ep i f s) = saved_sdi s"
  "saved_usbpre (upd_ep i f s) = saved_usbpre s" "work_submitted (upd_ep i f s) = work_submitted s"
  by (simp_all add: upd_ep_def)

lemma upd_stack_ops [simp]:
  "mmio (upd_stack f s) = mmio s" "eps (upd_stack f s) = eps s"
  "packet (upd_stack f s) = packet s" "in_length (upd_stack f s) = in_length s"
  "running (upd_stack f s) = running s" "stack (upd_stack f s) = f (stack s)"
  "setup_pending (upd_stack f s) = setup_pending s" "setup_valid (upd_stack f s) = setup_valid s"
  "soc (upd_stack f s) = soc s" "saved_sdi (upd_stack f s) = saved_sdi s"
  "saved_usbpre (upd_stack f s) = saved_usbpre s" "work_submitted (upd_stack f s) = work_submitted s"
  by (simp_all add: upd_stack_def)

lemma copy_to_packet_ops [simp]:
  "mmio (copy_to_packet i xs s) = mmio s" "eps (copy_to_packet i xs s) = eps s"
  "packet (copy_to_packet i xs s) = (packet s)[i := xs @ drop (length xs) (packet s ! i)]"
  "in_length (copy_to_packet i xs s) = in_length s" "running (copy_to_packet i xs s) = running s"
  "stack (copy_to_packet i xs s) = stack s" "setup_pending (copy_to_packet i xs s) = setup_pending s"
  "setup_valid (copy_to_packet i xs s) = setup_valid s"
  by (simp_all add: copy_to_packet_def)

lemmas wch_access = wch_read_def wch_write_def wch_ack_def wch_response_def udc_ep_set_busy_def

lemma view_ops [simp]:
  "vq (view_put i b v) = (vq v)(i := vq v i @ [b])" "vbuf (view_put i b v) = vbuf v"
  "vevs (view_put i b v) = vevs v" "vtab (view_put i b v) = vtab v" "vsusp (view_put i b v) = vsusp v"
  "vq (view_drop i v) = (vq v)(i := tl (vq v i))" "vbuf (view_drop i v) = vbuf v"
  "vevs (view_drop i v) = vevs v" "vtab (view_drop i v) = vtab v" "vsusp (view_drop i v) = vsusp v"
  "vq (view_pull b n v) = vq v" "vevs (view_pull b n v) = vevs v" "vtab (view_pull b n v) = vtab v"
  "vbuf (view_pull b n v) = (vbuf v)(b := (vbuf v b)\<lparr>nb_data := drop n (nb_data (vbuf v b))\<rparr>)"
  "vq (view_add b xs v) = vq v" "vevs (view_add b xs v) = vevs v" "vtab (view_add b xs v) = vtab v"
  "vbuf (view_add b xs v) = (vbuf v)(b := (vbuf v b)\<lparr>nb_data := nb_data (vbuf v b) @ xs,
     nb_room := nb_room (vbuf v b) - length xs\<rparr>)"
  "vq (view_clear_zlp b v) = vq v" "vevs (view_clear_zlp b v) = vevs v" "vtab (view_clear_zlp b v) = vtab v"
  "vbuf (view_clear_zlp b v) = (vbuf v)(b := (vbuf v b)\<lparr>nb_zlp := False\<rparr>)"
  "vq (view_event e v) = vq v" "vbuf (view_event e v) = vbuf v" "vevs (view_event e v) = vevs v @ [e]"
  "vtab (view_event e v) = vtab v" "vsusp (view_event e v) = vsusp v"
  "vq (view_cancel i v) = (vq v)(i := [])" "vbuf (view_cancel i v) = vbuf v" "vtab (view_cancel i v) = vtab v"
  "vevs (view_cancel i v) = vevs v @ map (\<lambda>b. EpRequest b (Some ECONNABORTED)) (vq v i)"
  by (simp_all add: view_put_def view_drop_def view_pull_def view_add_def view_clear_zlp_def
      view_event_def view_cancel_def)

end
