(* ===== verification/Udc_Inv.thy ===== *)
theory Udc_Inv
  imports Udc_Stack
begin

text \<open>
  Shape of the controller's state, what each operation leaves alone, and the invariant of the two
  data endpoints (index 2, EP1 IN at 0x81; index 3, EP2 OUT at 0x02).
\<close>

unbundle bit_operations_syntax

section \<open>Shape\<close>

definition ep_table :: "u8 \<Rightarrow> nat option" where
  "ep_table a = (if a = 0 then Some 0 else if a = 0x80 then Some 1 else if a = 0x81 then Some 2
                 else if a = 0x02 then Some 3 else None)"

definition udc_wf :: "('z \<Rightarrow> udc_view) \<Rightarrow> 'z udc_dev \<Rightarrow> bool" where
  "udc_wf V s \<longleftrightarrow>
     map addr (eps s) = preinit_addresses \<and> (\<forall>c \<in> set (eps s). mps c \<le> 64) \<and>
     length (packet s) = 3 \<and> (\<forall>p \<in> set (packet s). length p = WCH_PACKET) \<and>
     length (in_length s) = 3 \<and> vtab (V (stack s)) = ep_table"

lemma wf_len: "udc_wf V s \<Longrightarrow> length (eps s) = 4" "udc_wf V s \<Longrightarrow> length (packet s) = 3"
    "udc_wf V s \<Longrightarrow> length (in_length s) = 3"
  by (auto simp: udc_wf_def preinit_addresses_def dest: arg_cong [where f = length])

lemma wf_addr:
  assumes "udc_wf V s"
  shows "addr (eps s ! 0) = 0" "addr (eps s ! Suc 0) = 0x80" "addr (eps s ! 2) = 0x81" "addr (eps s ! 3) = 0x02"
proof -
  have "addr (eps s ! i) = preinit_addresses ! i" if "i < 4" for i
    using assms that wf_len(1) [OF assms] unfolding udc_wf_def by (metis nth_map)
  from this [of 0] this [of 1] this [of 2] this [of 3]
  show "addr (eps s ! 0) = 0" "addr (eps s ! Suc 0) = 0x80" "addr (eps s ! 2) = 0x81" "addr (eps s ! 3) = 0x02"
    by (simp_all add: preinit_addresses_def)
qed

lemma wf_packet: "udc_wf V s \<Longrightarrow> k < 3 \<Longrightarrow> length (packet s ! k) = 64"
  unfolding udc_wf_def WCH_PACKET_def by (metis nth_mem)

lemma wf_mps:
  assumes "udc_wf V s" "i < 4"
  shows "unat (mps (eps s ! i)) \<le> 64"
proof -
  have "mps (eps s ! i) \<le> 64"
    using assms wf_len(1) [OF assms(1)] unfolding udc_wf_def by (metis nth_mem)
  then show ?thesis by (simp add: word_le_nat_alt)
qed

lemma wf_tab: "udc_wf V s \<Longrightarrow> vtab (V (stack s)) = ep_table"
  by (simp add: udc_wf_def)

lemma less4: "i < 4 \<longleftrightarrow> i = 0 \<or> i = Suc 0 \<or> i = 2 \<or> i = (3 :: nat)"
  by auto

lemmas wch_offsets = WCH_CTRL_def WCH_PORT_def WCH_INT_EN_def WCH_ADDR_def WCH_MIS_ST_def WCH_INT_FG_def
  WCH_INT_ST_def WCH_RX_LEN_def WCH_MODE1_def WCH_MODE2_def WCH_DMA_def WCH_TX_LEN_def WCH_TX_CTL_def
  WCH_RX_CTL_def

lemma ep_ctl_values [simp]:
  "ep_ctl 0 = 0x33" "ep_ctl 0x80 = 0x32" "ep_ctl 0x81 = 0x36" "ep_ctl 2 = 0x3b"
  by (simp_all add: ep_ctl_def USB_EP_DIR_IS_IN_def USB_EP_GET_IDX_def wch_offsets)

lemma ep_idx_values [simp]:
  "USB_EP_GET_IDX 0 = 0" "USB_EP_GET_IDX 0x80 = 0" "USB_EP_GET_IDX 0x81 = 1" "USB_EP_GET_IDX 2 = 2"
  by (simp_all add: USB_EP_GET_IDX_def)

lemma ep_dir_values [simp]:
  "\<not> USB_EP_DIR_IS_IN 0" "USB_EP_DIR_IS_IN 0x80" "USB_EP_DIR_IS_IN 0x81" "\<not> USB_EP_DIR_IS_IN 2"
  by (simp_all add: USB_EP_DIR_IS_IN_def)

section \<open>Frames\<close>

text \<open>The state of an endpoint: its configuration, the staged length of an IN endpoint, and for a
  data endpoint the control register, the staging buffer and the length register.\<close>

definition ep_state :: "'z udc_dev \<Rightarrow> nat \<Rightarrow> udc_ep_config \<times> u8 option \<times> (u8 \<times> u8 list \<times> u16) option" where
  "ep_state s i = (eps s ! i,
     if i = 1 \<or> i = 2 then Some (in_length s ! (i - 1)) else None,
     if i \<ge> 2 then Some (mmio s (if i = 2 then 0x36 else 0x3b), packet s ! (i - 1),
       sys_read16 (WCH_TX_LEN (i - 1)) s) else None)"

lemma kick_frame [simp]:
  "running (wch_kick Z j s) = running s" "stack (wch_kick Z j s) = stack s"
  "setup_pending (wch_kick Z j s) = setup_pending s" "setup_valid (wch_kick Z j s) = setup_valid s"
  "length (eps (wch_kick Z j s)) = length (eps s)"
  by (simp_all add: wch_kick_def kick_stage_in_def Let_def wch_access sys_write16_def split: option.split)

text \<open>\<open>wch_kick\<close> in terms of the view.\<close>

definition kick_guard :: "('z \<Rightarrow> udc_view) \<Rightarrow> 'z udc_dev \<Rightarrow> nat \<Rightarrow> bool" where
  "kick_guard V s i \<longleftrightarrow> running s \<and> stat_enabled (eps s ! i) \<and> \<not> stat_halted (eps s ! i) \<and>
     \<not> stat_busy (eps s ! i) \<and> vq (V (stack s)) i \<noteq> [] \<and>
     \<not> nb_setup (vbuf (V (stack s)) (hd (vq (V (stack s)) i))) \<and>
     \<not> (USB_EP_GET_IDX (addr (eps s ! i)) = 0 \<and> wch_setup_pending s)"

lemma kick_eq:
  assumes "udc_stack_ok Z V"
  shows "wch_kick Z i s =
    (if kick_guard V s i
     then wch_response (addr (eps s ! i)) WCH_ACK (udc_ep_set_busy i True
            (if USB_EP_DIR_IS_IN (addr (eps s ! i))
             then kick_stage_in Z (USB_EP_GET_IDX (addr (eps s ! i))) (eps s ! i) (hd (vq (V (stack s)) i)) s
             else s))
     else s)"
  by (auto simp: wch_kick_def kick_guard_def Let_def stack_laws [OF assms] split: list.split)

lemma read16_write16 [simp]: "sys_read16 off (sys_write16 v off s) = v"
  by (rule bit_word_eqI) (auto simp: sys_read16_def sys_write16_def bit_simps less_Suc_eq_0_disj not_less)

lemma wf_set_mmio [simp]: "udc_wf V (set_mmio off v s) = udc_wf V s"
  by (simp add: udc_wf_def)

lemma ball_update: "\<forall>x \<in> set xs. P x \<Longrightarrow> P y \<Longrightarrow> \<forall>x \<in> set (xs[i := y]). P x"
  using set_update_subset_insert [of xs i y] by blast

lemma wf_in_length [simp]:
  "length l = length (in_length s) \<Longrightarrow> udc_wf V (s\<lparr>in_length := l\<rparr>) = udc_wf V s"
  by (simp add: udc_wf_def)

lemma wf_flags [simp]:
  "udc_wf V (s\<lparr>running := b\<rparr>) = udc_wf V s" "udc_wf V (s\<lparr>setup_pending := c, setup_valid := d\<rparr>) = udc_wf V s"
  "udc_wf V (s\<lparr>work_submitted := e\<rparr>) = udc_wf V s"
  by (simp_all add: udc_wf_def)

lemma wf_stack:
  "vtab (V z) = vtab (V (stack s)) \<Longrightarrow> udc_wf V (s\<lparr>stack := z\<rparr>) = udc_wf V s"
  "vtab (V (f (stack s))) = vtab (V (stack s)) \<Longrightarrow> udc_wf V (upd_stack f s) = udc_wf V s"
  by (simp_all add: udc_wf_def)

lemma wf_upd_ep:
  assumes "udc_wf V s" "addr (f (eps s ! i)) = addr (eps s ! i)" "mps (f (eps s ! i)) = mps (eps s ! i)"
  shows "udc_wf V (upd_ep i f s)"
proof (cases "i < length (eps s)")
  case True
  then have "map addr ((eps s)[i := f (eps s ! i)]) = map addr (eps s)"
    using assms(2) by (simp add: map_update list_update_same_conv)
  moreover have "\<forall>c \<in> set ((eps s)[i := f (eps s ! i)]). mps c \<le> 64"
    using assms(1,3) nth_mem [OF True] by (intro ball_update) (auto simp: udc_wf_def)
  ultimately show ?thesis using assms(1) by (simp add: udc_wf_def)
next
  case False
  then show ?thesis using assms(1) by (simp add: udc_wf_def list_update_beyond)
qed

lemma wf_copy:
  assumes "udc_wf V s" "k < 3" "length xs \<le> 64"
  shows "udc_wf V (copy_to_packet k xs s)"
proof -
  have "\<forall>p \<in> set ((packet s)[k := xs @ drop (length xs) (packet s ! k)]). length p = WCH_PACKET"
  proof (rule ball_update)
    show "\<forall>p \<in> set (packet s). length p = WCH_PACKET" using assms(1) by (simp add: udc_wf_def)
    show "length (xs @ drop (length xs) (packet s ! k)) = WCH_PACKET"
      using wf_packet [OF assms(1,2)] assms(3) by (simp add: WCH_PACKET_def)
  qed
  then show ?thesis
    using assms(1) unfolding udc_wf_def copy_to_packet_ops length_list_update by blast
qed

lemma ep_idx_less: "udc_wf V s \<Longrightarrow> i < 4 \<Longrightarrow> USB_EP_GET_IDX (addr (eps s ! i)) < 3"
  by (auto simp: less4 wf_addr)

lemma kick_wf:
  assumes "udc_stack_ok Z V" "udc_wf V s" "i < 4"
  shows "udc_wf V (wch_kick Z i s)"
proof -
  have "udc_wf V (kick_stage_in Z (USB_EP_GET_IDX (addr (eps s ! i))) (eps s ! i) b s)" for b
    using wf_copy [OF assms(2) ep_idx_less [OF assms(2,3)]] wf_mps [OF assms(2,3)]
    by (simp add: kick_stage_in_def Let_def sys_write16_def)
  then show ?thesis
    using assms(2) by (auto simp: kick_eq [OF assms(1)] wch_access intro!: wf_upd_ep)
qed

section \<open>The invariant\<close>

abbreviation data_ctl :: "nat \<Rightarrow> nat" where "data_ctl i \<equiv> (if i = 2 then 0x36 else 0x3b)"

text \<open>The packet in EP1's staging buffer is the first part of \<open>xs\<close>, and its length is in the
  length register.\<close>

definition in_staged :: "'z udc_dev \<Rightarrow> nat \<Rightarrow> u8 list \<Rightarrow> bool" where
  "in_staged s m xs \<longleftrightarrow> take (min (length xs) m) (packet s ! 1) = take m xs \<and>
     unat (sys_read16 (WCH_TX_LEN 1) s) = min (length xs) m"

text \<open>A busy endpoint is running, enabled, not halted and has a request at the head of its queue; an
  IN endpoint has recorded the length of the packet to take from it, and EP1 has it staged (the
  staging buffer of EP0 is also written by the host).  An enabled data endpoint answers ACK only
  while busy.\<close>

definition ep_ok :: "('z \<Rightarrow> udc_view) \<Rightarrow> 'z udc_dev \<Rightarrow> nat \<Rightarrow> bool" where
  "ep_ok V s i \<longleftrightarrow>
     (let c = eps s ! i; q = vq (V (stack s)) i; b = vbuf (V (stack s)) (hd q); m = unat (mps c)
      in (stat_busy c \<longrightarrow> running s \<and> stat_enabled c \<and> \<not> stat_halted c \<and> q \<noteq> [] \<and> \<not> nb_setup b \<and>
            (i = 1 \<or> i = 2 \<longrightarrow> unat (in_length s ! (i - 1)) = min (length (nb_data b)) m) \<and>
            (i = 2 \<longrightarrow> in_staged s m (nb_data b))) \<and>
         (i \<ge> 2 \<and> stat_enabled c \<and> mmio s (data_ctl i) AND 3 = WCH_ACK \<longrightarrow> stat_busy c))"

definition owned :: "(nat \<Rightarrow> nat) \<Rightarrow> udc_view \<Rightarrow> bool" where
  "owned own v \<longleftrightarrow> (\<forall>i. \<forall>b \<in> set (vq v i). own b = i)"

definition udc_inv :: "('z \<Rightarrow> udc_view) \<Rightarrow> (nat \<Rightarrow> nat) \<Rightarrow> 'z udc_dev \<Rightarrow> bool" where
  "udc_inv V own s \<longleftrightarrow> udc_wf V s \<and> owned own (V (stack s)) \<and> (\<forall>i < 4. ep_ok V s i)"

text \<open>\<open>s'\<close> has endpoint \<open>i\<close> as \<open>s\<close> has it.\<close>

definition ep_same :: "('z \<Rightarrow> udc_view) \<Rightarrow> (nat \<Rightarrow> nat) \<Rightarrow> nat \<Rightarrow> 'z udc_dev \<Rightarrow> 'z udc_dev \<Rightarrow> bool" where
  "ep_same V own i s s' \<longleftrightarrow>
     ep_state s' i = ep_state s i \<and> running s' = running s \<and> vq (V (stack s')) i = vq (V (stack s)) i \<and>
     (\<forall>b. own b = i \<longrightarrow> vbuf (V (stack s')) b = vbuf (V (stack s)) b)"

lemma ep_same_refl [simp]: "ep_same V own i s s"
  by (simp add: ep_same_def)

lemma ep_same_trans: "ep_same V own i s t \<Longrightarrow> ep_same V own i t u \<Longrightarrow> ep_same V own i s u"
  by (simp add: ep_same_def)

lemma ep_same_ok:
  assumes "ep_same V own i s s'" "owned own (V (stack s))"
  shows "ep_ok V s' i = ep_ok V s i"
proof (cases "vq (V (stack s)) i = []")
  case False
  then have "own (hd (vq (V (stack s)) i)) = i" using assms(2) by (simp add: owned_def)
  then show ?thesis
    using assms(1)
    by (auto simp: ep_same_def ep_ok_def ep_state_def Let_def in_staged_def split: if_splits)
next
  case True
  then show ?thesis
    using assms(1) by (auto simp: ep_same_def ep_ok_def ep_state_def Let_def split: if_splits)
qed

definition data_regs :: "nat \<Rightarrow> nat set" where
  "data_regs i = (if i = 2 then {0x34, 0x35, 0x36} else if i = 3 then {0x38, 0x39, 0x3b} else {})"

lemma ep_same_simps:
  assumes "i < 4"
  shows "off \<notin> data_regs i \<Longrightarrow> ep_same V own i s (set_mmio off v t) = ep_same V own i s t"
    and "j \<noteq> i \<Longrightarrow> ep_same V own i s (upd_ep j f t) = ep_same V own i s t"
    and "i < 2 \<or> k \<noteq> i - 1 \<Longrightarrow> ep_same V own i s (copy_to_packet k xs t) = ep_same V own i s t"
    and "i = 1 \<or> i = 2 \<longrightarrow> l ! (i - 1) = in_length t ! (i - 1) \<Longrightarrow>
      ep_same V own i s (t\<lparr>in_length := l\<rparr>) = ep_same V own i s t"
    and "vq (V (g (stack t))) i = vq (V (stack t)) i \<Longrightarrow>
      \<forall>b. own b = i \<longrightarrow> vbuf (V (g (stack t))) b = vbuf (V (stack t)) b \<Longrightarrow>
      ep_same V own i s (upd_stack g t) = ep_same V own i s t"
    and "vq (V z) i = vq (V (stack t)) i \<Longrightarrow>
      \<forall>b. own b = i \<longrightarrow> vbuf (V z) b = vbuf (V (stack t)) b \<Longrightarrow>
      ep_same V own i s (t\<lparr>stack := z\<rparr>) = ep_same V own i s t"
    and "ep_same V own i s (t\<lparr>setup_pending := c, setup_valid := d\<rparr>) = ep_same V own i s t"
proof -
  have r: "sys_read16 (WCH_TX_LEN (i - 1)) (set_mmio off v t) = sys_read16 (WCH_TX_LEN (i - 1)) t"
    if "off \<notin> data_regs i" "2 \<le> i"
    using that assms by (auto simp: less4 data_regs_def sys_read16_def WCH_TX_LEN_def)
  show "ep_same V own i s (set_mmio off v t) = ep_same V own i s t" if "off \<notin> data_regs i"
    using r [OF that] that assms by (auto simp: less4 ep_same_def ep_state_def data_regs_def)
qed (use assms in \<open>simp_all add: less4 ep_same_def ep_state_def sys_read16_def, (elim disjE; simp)+\<close>)

lemmas data_ep_simps = ep_same_simps [of 0, simplified] ep_same_simps [of "Suc 0", simplified]
  ep_same_simps [of 2, simplified] ep_same_simps [of 3, simplified]

lemma kick_other:
  assumes "udc_stack_ok Z V" "udc_wf V s" "j < 4" "j \<noteq> i" "i < 4"
  shows "ep_same V own i s (wch_kick Z j s)"
  using assms(3,4,5)
  by (auto simp: kick_eq [OF assms(1)] less4 wf_addr [OF assms(2)] wch_access kick_stage_in_def Let_def
      sys_write16_def WCH_TX_LEN_def data_regs_def data_ep_simps)

lemma and_toggle: "x AND WCH_TOGGLE = 0 \<or> x AND WCH_TOGGLE = WCH_TOGGLE"
proof (cases "bit x 2")
  case True
  have n: "WCH_TOGGLE = 2 ^ 2" by (simp add: WCH_TOGGLE_def)
  have "x AND WCH_TOGGLE = WCH_TOGGLE"
    by (rule bit_word_eqI) (use True in \<open>simp only: bit_and_iff n [THEN flag_bit], auto\<close>)
  then show ?thesis ..
next
  case False
  have n: "WCH_TOGGLE = 2 ^ 2" by (simp add: WCH_TOGGLE_def)
  show ?thesis using False n [THEN flag_test, of x] by simp
qed

lemma ctl_bits [simp]:
  "(x AND WCH_TOGGLE OR WCH_NAK) AND 3 = WCH_NAK" "((x AND WCH_TOGGLE OR WCH_NAK) XOR WCH_TOGGLE) AND 3 = WCH_NAK"
  "(x AND WCH_TOGGLE OR WCH_STALL) AND 3 = WCH_STALL" "(x AND WCH_TOGGLE OR WCH_ACK) AND 3 = WCH_ACK"
  "WCH_NAK \<noteq> WCH_ACK" "WCH_STALL \<noteq> WCH_ACK" "WCH_NAK AND 3 = WCH_NAK"
  using and_toggle [of x] by (auto simp: WCH_TOGGLE_def WCH_NAK_def WCH_STALL_def WCH_ACK_def)

lemma read16_frame [simp]:
  "off \<noteq> o2 \<Longrightarrow> Suc off \<noteq> o2 \<Longrightarrow> sys_read16 off (set_mmio o2 v s) = sys_read16 off s"
  "sys_read16 off (upd_ep i f s) = sys_read16 off s" "sys_read16 off (upd_stack g s) = sys_read16 off s"
  "sys_read16 off (copy_to_packet k xs s) = sys_read16 off s"
  "sys_read16 off (s\<lparr>in_length := l\<rparr>) = sys_read16 off s" "sys_read16 off (s\<lparr>stack := z\<rparr>) = sys_read16 off s"
  by (simp_all add: sys_read16_def)

lemma write16_ops [simp]:
  "packet (sys_write16 v off s) = packet s" "in_length (sys_write16 v off s) = in_length s"
  "eps (sys_write16 v off s) = eps s" "running (sys_write16 v off s) = running s"
  "stack (sys_write16 v off s) = stack s"
  "mmio (sys_write16 v off s) = (mmio s)(off := ucast v, Suc off := ucast (drop_bit 8 v))"
  by (simp_all add: sys_write16_def)

lemma kick_self:
  assumes "udc_stack_ok Z V" "udc_wf V s" "i < 4" "ep_ok V s i"
  shows "ep_ok V (wch_kick Z i s) i"
proof (cases "kick_guard V s i")
  case True
  note l = wf_len [OF assms(2)] and m = wf_mps [OF assms(2)] and p = wf_packet [OF assms(2)]
  have n: "unat (of_nat k :: u8) = k" "unat (of_nat k :: u16) = k" if "k \<le> 64" for k
    using that by (simp_all add: unat_of_nat)
  show ?thesis
    using True assms(3) l m [of 2] p [of 1] m [of "Suc 0"] n
    by (auto simp: less4 ep_ok_def kick_eq [OF assms(1)] wf_addr [OF assms(2)] wch_access Let_def kick_guard_def
        in_staged_def kick_stage_in_def stack_laws [OF assms(1)] WCH_TX_LEN_def min_def)
qed (simp add: kick_eq [OF assms(1)] assms(4))

lemma kick_inv:
  assumes "udc_stack_ok Z V" "udc_inv V own s" "i < 4"
  shows "udc_inv V own (wch_kick Z i s)"
proof -
  have w: "udc_wf V s" and o: "owned own (V (stack s))" and d: "\<And>j. j < 4 \<Longrightarrow> ep_ok V s j"
    using assms(2) by (auto simp: udc_inv_def)
  have "ep_ok V (wch_kick Z i s) j" if j: "j < 4" for j
    using kick_self [OF assms(1) w j d [OF j]] d [OF j]
      ep_same_ok [OF kick_other [OF assms(1) w assms(3) _ j] o]
    by (cases "i = j") auto
  then show ?thesis
    using o kick_wf [OF assms(1) w assms(3)] by (simp add: udc_inv_def)
qed

end
