(* ===== verification/Udc_Steps.thy ===== *)
theory Udc_Steps
  imports Udc_Inv
begin

text \<open>
  Every operation of the driver keeps the invariant.  An operation on one endpoint is a
  composition of steps that touch only that endpoint (\<open>ep_step\<close>).
\<close>

unbundle bit_operations_syntax

section \<open>Steps of one endpoint\<close>

text \<open>The buffers of endpoint \<open>i\<close> among the events, and that a step only returns buffers of the data
  endpoints from the front of their queues, each with one event and in order.\<close>

definition ret :: "(nat \<Rightarrow> nat) \<Rightarrow> nat \<Rightarrow> udc_ev list \<Rightarrow> nat list" where
  "ret own i es = filter (\<lambda>b. own b = i) (List.map_filter ev_buf es)"

definition returns :: "('z \<Rightarrow> udc_view) \<Rightarrow> (nat \<Rightarrow> nat) \<Rightarrow> 'z udc_dev \<Rightarrow> 'z udc_dev \<Rightarrow> bool" where
  "returns V own s s' \<longleftrightarrow> (\<exists>es. vevs (V (stack s')) = vevs (V (stack s)) @ es \<and>
     (\<forall>i \<ge> 2. vq (V (stack s)) i = ret own i es @ vq (V (stack s')) i))"

lemma ret_simps [simp]:
  "ret own i [] = []" "ret own i (es @ fs) = ret own i es @ ret own i fs"
  "ret own i [EpRequest b e] = (if own b = i then [b] else [])" "ret own i [BusEvent t e] = []"
  "ret own i (map (\<lambda>b. EpRequest b e) bs) = filter (\<lambda>b. own b = i) bs"
  by (simp_all add: ret_def List.map_filter_def comp_def)

lemma returns_refl [simp]: "returns V own s s"
  unfolding returns_def by (rule exI [of _ "[]"]) simp

lemma returns_trans:
  assumes "returns V own s t" "returns V own t u"
  shows "returns V own s u"
proof -
  obtain es fs where "vevs (V (stack t)) = vevs (V (stack s)) @ es"
    "\<forall>i \<ge> 2. vq (V (stack s)) i = ret own i es @ vq (V (stack t)) i"
    "vevs (V (stack u)) = vevs (V (stack t)) @ fs"
    "\<forall>i \<ge> 2. vq (V (stack t)) i = ret own i fs @ vq (V (stack u)) i"
    using assms by (auto simp: returns_def)
  then show ?thesis unfolding returns_def by (intro exI [of _ "es @ fs"]) simp
qed

lemma returns_same:
  "vevs (V (stack s')) = vevs (V (stack s)) \<Longrightarrow> vq (V (stack s')) = vq (V (stack s)) \<Longrightarrow> returns V own s s'"
  unfolding returns_def by (rule exI [of _ "[]"]) simp

definition ep_step :: "('z \<Rightarrow> udc_view) \<Rightarrow> (nat \<Rightarrow> nat) \<Rightarrow> nat \<Rightarrow> 'z udc_dev \<Rightarrow> 'z udc_dev \<Rightarrow> bool" where
  "ep_step V own j s s' \<longleftrightarrow> (udc_wf V s \<and> owned own (V (stack s)) \<longrightarrow>
     udc_wf V s' \<and> owned own (V (stack s')) \<and> (\<forall>i < 4. i \<noteq> j \<longrightarrow> ep_same V own i s s') \<and>
     returns V own s s')"

lemma ep_step_refl [simp]: "ep_step V own j s s"
  by (simp add: ep_step_def)

lemma ep_step_trans: "ep_step V own j s t \<Longrightarrow> ep_step V own j t u \<Longrightarrow> ep_step V own j s u"
  unfolding ep_step_def by (blast intro: ep_same_trans returns_trans)

lemma ep_step_inv:
  assumes "udc_inv V own s" "ep_step V own j s s'" "j < 4" "ep_ok V s' j"
  shows "udc_inv V own s'"
  using assms ep_same_ok unfolding udc_inv_def ep_step_def by metis

lemma data_regs_ctl: "i < 4 \<Longrightarrow> j < 4 \<Longrightarrow> i \<noteq> j \<Longrightarrow> udc_wf V s \<Longrightarrow> ep_ctl (addr (eps s ! j)) \<notin> data_regs i"
  by (auto simp: less4 wf_addr data_regs_def)

lemma step_ctl: "j < 4 \<Longrightarrow> ep_step V own j s (set_mmio (ep_ctl (addr (eps s ! j))) v s)"
  unfolding ep_step_def using data_regs_ctl [of _ j V s] by (simp add: ep_same_simps returns_same)

lemma step_ep:
  "addr (f (eps s ! j)) = addr (eps s ! j) \<Longrightarrow> mps (f (eps s ! j)) = mps (eps s ! j) \<Longrightarrow>
   ep_step V own j s (upd_ep j f s)"
  by (simp add: ep_step_def ep_same_simps wf_upd_ep returns_same)

lemma step_reg: "j < 4 \<Longrightarrow> (\<And>i. off \<notin> data_regs i) \<Longrightarrow> ep_step V own j s (set_mmio off v s)"
  by (simp add: ep_step_def ep_same_simps returns_same)

lemma step_stack:
  assumes "vtab (V (f (stack s))) = vtab (V (stack s))"
    "\<And>i. i \<noteq> j \<Longrightarrow> vq (V (f (stack s))) i = vq (V (stack s)) i"
    "\<And>b. b \<in> set (vq (V (f (stack s))) j) \<Longrightarrow> b \<in> set (vq (V (stack s)) j) \<or> own b = j"
    "\<And>b. own b \<noteq> j \<Longrightarrow> vbuf (V (f (stack s))) b = vbuf (V (stack s)) b"
    "owned own (V (stack s)) \<Longrightarrow> returns V own s (upd_stack f s)"
  shows "ep_step V own j s (upd_stack f s)"
proof -
  have "owned own (V (stack s)) \<Longrightarrow> owned own (V (f (stack s)))"
    using assms(2,3) unfolding owned_def by metis
  then show ?thesis
    using assms(1,2,4,5) by (auto simp: ep_step_def ep_same_simps wf_stack)
qed

lemma step_kick: "udc_stack_ok Z V \<Longrightarrow> j < 4 \<Longrightarrow> ep_step V own j s (wch_kick Z j s)"
  by (simp add: ep_step_def kick_wf kick_other returns_same)

text \<open>A quiet endpoint satisfies its part of the invariant whatever is queued.\<close>

definition quiet :: "'z udc_dev \<Rightarrow> nat \<Rightarrow> bool" where
  "quiet s i \<longleftrightarrow> \<not> stat_busy (eps s ! i) \<and>
     (i \<ge> 2 \<and> stat_enabled (eps s ! i) \<longrightarrow> mmio s (data_ctl i) AND 3 \<noteq> WCH_ACK)"

lemma quiet_ok: "quiet s i \<Longrightarrow> ep_ok V s i"
  by (simp add: quiet_def ep_ok_def Let_def)

lemma data_ctl_eq: "udc_wf V s \<Longrightarrow> i < 4 \<Longrightarrow> 2 \<le> i \<Longrightarrow> ep_ctl (addr (eps s ! i)) = data_ctl i"
  by (auto simp: less4 wf_addr)

section \<open>Completion and packet progress\<close>

lemma complete_eq:
  assumes "udc_stack_ok Z V"
  shows "mmio (wch_complete Z i e s) = mmio s" "packet (wch_complete Z i e s) = packet s"
    "in_length (wch_complete Z i e s) = in_length s" "running (wch_complete Z i e s) = running s"
    "eps (wch_complete Z i e s) = (eps s)[i := (eps s ! i)\<lparr>stat_busy := False\<rparr>]"
    "V (stack (wch_complete Z i e s)) = (case vq (V (stack s)) i of [] \<Rightarrow> view_drop i (V (stack s))
       | b # _ \<Rightarrow> view_event (EpRequest b e) (view_drop i (V (stack s))))"
proof -
  note law = stack_laws(2,3,12) [OF assms]
  obtain ob z where g: "udc_buf_get Z i (stack s) = (ob, z)" by force
  then have ob: "ob = (case vq (V (stack s)) i of [] \<Rightarrow> None | b # _ \<Rightarrow> Some b)"
    and z: "V z = view_drop i (V (stack s))" using law(1,2) [of i "stack s"] by auto
  show "mmio (wch_complete Z i e s) = mmio s" "packet (wch_complete Z i e s) = packet s"
    "in_length (wch_complete Z i e s) = in_length s" "running (wch_complete Z i e s) = running s"
    "eps (wch_complete Z i e s) = (eps s)[i := (eps s ! i)\<lparr>stat_busy := False\<rparr>]"
    by (simp_all add: wch_complete_def g udc_ep_set_busy_def Let_def split: option.split)
  show "V (stack (wch_complete Z i e s)) = (case vq (V (stack s)) i of [] \<Rightarrow> view_drop i (V (stack s))
       | b # _ \<Rightarrow> view_event (EpRequest b e) (view_drop i (V (stack s))))"
    by (simp add: wch_complete_def g ob udc_ep_set_busy_def law(3) z split: list.split)
qed

lemma complete_same:
  assumes "udc_stack_ok Z V" "i < 4" "i \<noteq> j"
  shows "ep_same V own i s (wch_complete Z j e s)"
  using assms(2,3)
  by (simp add: ep_same_def ep_state_def complete_eq [OF assms(1)] sys_read16_def split: list.split)

lemma complete_wf:
  assumes "udc_stack_ok Z V" "udc_wf V s"
  shows "udc_wf V (wch_complete Z j e s)"
proof -
  have "udc_wf V (upd_ep j (\<lambda>c. c\<lparr>stat_busy := False\<rparr>) s)" using assms(2) by (simp add: wf_upd_ep)
  then show ?thesis by (simp add: udc_wf_def complete_eq [OF assms(1)] split: list.split)
qed

lemma complete_returns:
  assumes "udc_stack_ok Z V" "owned own (V (stack s))"
  shows "returns V own s (wch_complete Z j e s)"
proof (cases "vq (V (stack s)) j")
  case Nil
  then show ?thesis
    by (intro returns_same) (auto simp: complete_eq [OF assms(1)])
next
  case (Cons b q)
  then have "own b = j" using assms(2) by (simp add: owned_def)
  with Cons show ?thesis
    unfolding returns_def by (intro exI [of _ "[EpRequest b e]"]) (simp add: complete_eq [OF assms(1)])
qed

lemma step_complete: "udc_stack_ok Z V \<Longrightarrow> ep_step V own j s (wch_complete Z j e s)"
  by (simp add: ep_step_def complete_returns)
    (auto simp: complete_same complete_wf owned_def complete_eq split: list.split dest: list.set_sel(2))

text \<open>The token an endpoint index answers to, and the packet acceptance that starts a transfer: NAK,
  then the next data toggle.\<close>

definition tok_ep :: "u8 \<Rightarrow> nat option" where
  "tok_ep token =
     (if token AND 0x30 = WCH_TOKEN_IN
      then if token AND 0x0f = 0 then Some 1 else if token AND 0x0f = 1 then Some 2 else None
      else if token AND 0x30 = WCH_TOKEN_OUT
      then if token AND 0x0f = 0 then Some 0 else if token AND 0x0f = 2 then Some 3 else None
      else None)"

definition accept_packet :: "nat \<Rightarrow> 'z udc_dev \<Rightarrow> 'z udc_dev" where
  "accept_packet i s =
     (let c = ep_ctl (addr (eps s ! i))
      in set_mmio c (((mmio s c AND WCH_TOGGLE) OR WCH_NAK) XOR WCH_TOGGLE)
           (set_mmio c ((mmio s c AND WCH_TOGGLE) OR WCH_NAK) s))"

lemma nibble_in:
  "token AND 0xf OR 0x80 \<noteq> (0 :: u8)" "token AND 0xf OR 0x80 \<noteq> (2 :: u8)"
  "token AND 0xf OR 0x80 = (0x80 :: u8) \<longleftrightarrow> token AND 0xf = 0"
  "token AND 0xf OR 0x80 = (0x81 :: u8) \<longleftrightarrow> token AND 0xf = 1"
proof -
  have l: "(token AND 0xf OR 0x80) AND 0xf = token AND (0xf :: u8)"
    by (simp add: bit.conj_disj_distrib2 and.assoc)
  have h: "(token AND 0xf OR 0x80) AND 0x80 = (0x80 :: u8)"
    by (simp add: bit.conj_disj_distrib2 and.assoc)
  show "token AND 0xf OR 0x80 \<noteq> (0 :: u8)" "token AND 0xf OR 0x80 \<noteq> (2 :: u8)"
  proof
    assume e: "token AND 0xf OR 0x80 = (0 :: u8)"
    show False using h [unfolded e] by simp
  next
    show "token AND 0xf OR 0x80 \<noteq> (2 :: u8)"
    proof
      assume e: "token AND 0xf OR 0x80 = (2 :: u8)"
      show False using h [unfolded e] by simp
    qed
  qed
  show "token AND 0xf OR 0x80 = (0x80 :: u8) \<longleftrightarrow> token AND 0xf = 0"
    "token AND 0xf OR 0x80 = (0x81 :: u8) \<longleftrightarrow> token AND 0xf = 1"
    using l by auto
qed

lemma nibble_out: "token AND 0xf \<noteq> (0x80 :: u8)" "token AND 0xf \<noteq> (0x81 :: u8)"
proof -
  have "token AND (0xf :: u8) \<le> 0xf" by (rule word_and_le1)
  then show "token AND 0xf \<noteq> (0x80 :: u8)" "token AND 0xf \<noteq> (0x81 :: u8)" by (auto simp: word_le_nat_alt)
qed

abbreviation head_buf :: "('z \<Rightarrow> udc_view) \<Rightarrow> 'z udc_dev \<Rightarrow> nat \<Rightarrow> nat" where
  "head_buf V s i \<equiv> hd (vq (V (stack s)) i)"

definition transfer_guard :: "('z \<Rightarrow> udc_view) \<Rightarrow> 'z udc_dev \<Rightarrow> u8 \<Rightarrow> nat \<Rightarrow> bool" where
  "transfer_guard V s token i \<longleftrightarrow> stat_busy (eps s ! i) \<and> \<not> stat_halted (eps s ! i) \<and>
     vq (V (stack s)) i \<noteq> [] \<and> \<not> nb_setup (vbuf (V (stack s)) (head_buf V s i)) \<and>
     (token AND 0x30 = WCH_TOKEN_OUT \<longrightarrow> has token WCH_TOG_OK)"

lemma transfer_eq:
  assumes ok: "udc_stack_ok Z V" and wf: "udc_wf V s"
  shows "wch_transfer Z token s =
    (if token AND 0x30 = WCH_TOKEN_SETUP \<and> token AND 0xf = 0 then transfer_setup Z s
     else case tok_ep token of None \<Rightarrow> s
     | Some i \<Rightarrow>
         if \<not> transfer_guard V s token i then s
         else if token AND 0x30 = WCH_TOKEN_IN
         then transfer_in Z i (USB_EP_GET_IDX (addr (eps s ! i))) (head_buf V s i) (accept_packet i s)
         else transfer_out Z i (USB_EP_GET_IDX (addr (eps s ! i))) (head_buf V s i) (accept_packet i s))"
proof -
  note d = wch_transfer_def Let_def stack_laws(17) [OF ok] wf_tab [OF wf] ep_table_def tok_ep_def
    WCH_TOKEN_IN_def WCH_TOKEN_OUT_def WCH_TOKEN_SETUP_def transfer_guard_def accept_packet_def wch_access
    stack_laws(1,9) [OF ok] wf_addr [OF wf] WCH_TX_CTL_def WCH_RX_CTL_def
  consider (stp) "token AND 0x30 = 0x30" | (in0) "token AND 0x30 = 0x20" "token AND 0xf = 0"
    | (in1) "token AND 0x30 = 0x20" "token AND 0xf = 1"
    | (inx) "token AND 0x30 = 0x20" "token AND 0xf \<noteq> 0" "token AND 0xf \<noteq> 1"
    | (out0) "token AND 0x30 = 0" "token AND 0xf = 0" | (out2) "token AND 0x30 = 0" "token AND 0xf = 2"
    | (outx) "token AND 0x30 = 0" "token AND 0xf \<noteq> 0" "token AND 0xf \<noteq> 2"
    | (other) "token AND 0x30 \<noteq> 0x30" "token AND 0x30 \<noteq> 0x20" "token AND 0x30 \<noteq> 0"
    by blast
  then show ?thesis
    by cases (simp_all add: d nibble_in nibble_out unat_eq_zero split: list.split option.split)
qed

lemma step_accept: "i < 4 \<Longrightarrow> ep_step V own i s (accept_packet i s)"
  using step_ctl [of i V own s] step_ctl [of i V own "set_mmio (ep_ctl (addr (eps s ! i))) v s" for v]
  unfolding accept_packet_def Let_def mmio_ops by (blast intro: ep_step_trans)

lemma step_pull:
  assumes "udc_stack_ok Z V" "own b = i" "n \<le> length (nb_data (vbuf (V (stack s)) b))"
  shows "ep_step V own i s (upd_stack (net_buf_pull Z b n) s)"
  using assms by (intro step_stack) (auto simp: stack_laws intro!: returns_same)

lemma step_add:
  assumes "udc_stack_ok Z V" "own b = i" "length xs \<le> nb_room (vbuf (V (stack s)) b)"
  shows "ep_step V own i s (upd_stack (net_buf_add_mem Z b xs) s)"
  using assms by (intro step_stack) (auto simp: stack_laws intro!: returns_same)

lemma step_zlp:
  assumes "udc_stack_ok Z V" "own b = i"
  shows "ep_step V own i s (upd_stack (udc_ep_buf_clear_zlp Z b) s)"
  using assms by (intro step_stack) (auto simp: stack_laws intro!: returns_same)

lemma step_cancel:
  assumes "udc_stack_ok Z V"
  shows "ep_step V own i s (upd_stack (udc_ep_cancel_queued Z i) s)"
proof (rule step_stack)
  assume "owned own (V (stack s))"
  then have "filter (\<lambda>b. own b = j) (vq (V (stack s)) i) = (if j = i then vq (V (stack s)) i else [])" for j
    by (auto simp: owned_def filter_empty_conv)
  then show "returns V own s (upd_stack (udc_ep_cancel_queued Z i) s)"
    unfolding returns_def
    by (intro exI [of _ "map (\<lambda>b. EpRequest b (Some ECONNABORTED)) (vq (V (stack s)) i)"])
      (simp add: stack_laws [OF assms])
qed (simp_all add: stack_laws [OF assms])

lemma step_busy: "ep_step V own i s (udc_ep_set_busy i b s)"
  by (simp add: udc_ep_set_busy_def step_ep)

text \<open>The same steps, appended to a step already made.\<close>

lemmas then_steps = ep_step_trans [OF _ step_zlp] ep_step_trans [OF _ step_cancel]
  ep_step_trans [OF _ step_busy] ep_step_trans [OF _ step_kick] ep_step_trans [OF _ step_complete]
  ep_step_trans [OF _ step_accept]

lemma transfer_in_step:
  assumes "udc_stack_ok Z V" "i < 4" "own b = i"
    and "unat (in_length s ! idx) \<le> length (nb_data (vbuf (V (stack s)) b))"
  shows "ep_step V own i s (transfer_in Z i idx b s)"
proof -
  have "ep_step V own i s (upd_stack (net_buf_pull Z b (unat (in_length s ! idx))) s)"
    by (rule step_pull) (use assms in auto)
  then show ?thesis
    unfolding transfer_in_def Let_def by (auto intro!: then_steps assms(1-3))
qed

lemma transfer_out_step:
  assumes "udc_stack_ok Z V" "i < 4" "own b = i"
  shows "ep_step V own i s (transfer_out Z i idx b s)"
proof -
  let ?xs = "take (unat (sys_read16 WCH_RX_LEN s)) (packet s ! idx)"
  have "ep_step V own i s (upd_stack (net_buf_add_mem Z b ?xs) s)"
    if "unat (sys_read16 WCH_RX_LEN s) \<le> net_buf_tailroom Z b (stack s)"
    using that by (intro step_add) (auto simp: assms stack_laws [OF assms(1)])
  then show ?thesis
    unfolding transfer_out_def Let_def
    by (auto intro!: then_steps assms simp: not_less)
qed

section \<open>The invariant over transfers\<close>

text \<open>Registers outside the data endpoints do not matter.\<close>

lemma inv_reg:
  assumes "off \<notin> {0x34, 0x35, 0x36, 0x38, 0x39, 0x3b}"
  shows "udc_inv V own (set_mmio off v s) = udc_inv V own s"
proof (cases "owned own (V (stack s))")
  case True
  have "ep_ok V (set_mmio off v s) i = ep_ok V s i" if "i < 4" for i
    using ep_same_ok [of V own i s "set_mmio off v s"] True ep_same_simps(1) [OF that, of off V own s v s] assms
    by (auto simp: data_regs_def)
  then show ?thesis by (auto simp: udc_inv_def)
qed (simp add: udc_inv_def)

lemma quiet_busy: "i < length (eps s) \<Longrightarrow> i \<ge> 2 \<longrightarrow> mmio s (data_ctl i) AND 3 \<noteq> WCH_ACK \<Longrightarrow>
    quiet (udc_ep_set_busy i False s) i"
  by (simp add: quiet_def udc_ep_set_busy_def)

lemma quiet_complete:
  assumes "udc_stack_ok Z V" "i < length (eps s)" "i \<ge> 2 \<longrightarrow> mmio s (data_ctl i) AND 3 \<noteq> WCH_ACK"
  shows "quiet (wch_complete Z i e s) i"
  using assms(2,3) by (simp add: quiet_def complete_eq [OF assms(1)])

lemmas quiet_oks = quiet_ok [OF quiet_complete] quiet_ok [OF quiet_busy]

lemma transfer_in_ok:
  assumes "udc_stack_ok Z V" "i < 4" "own b = i" "udc_wf V s" "owned own (V (stack s))"
    and "unat (in_length s ! idx) \<le> length (nb_data (vbuf (V (stack s)) b))"
    and c: "i \<ge> 2 \<longrightarrow> mmio s (data_ctl i) AND 3 \<noteq> WCH_ACK"
  shows "ep_ok V (transfer_in Z i idx b s) i"
proof -
  let ?u = "upd_stack (udc_ep_buf_clear_zlp Z b) (upd_stack (net_buf_pull Z b (unat (in_length s ! idx))) s)"
  have "ep_step V own i s ?u"
    using assms(1,3,6) step_pull [of Z V own b i _ s] by (intro then_steps(1)) auto
  then have u: "udc_wf V ?u" using assms(4,5) by (simp add: ep_step_def)
  have l: "i < length (eps s)" using wf_len(1) [OF assms(4)] assms(2) by simp
  then have "quiet (udc_ep_set_busy i False ?u) i" using c by (intro quiet_busy) auto
  moreover have "udc_wf V (udc_ep_set_busy i False ?u)" using u by (simp add: udc_ep_set_busy_def wf_upd_ep)
  ultimately have "ep_ok V (wch_kick Z i (udc_ep_set_busy i False ?u)) i"
    by (intro kick_self [OF assms(1)] assms(2) quiet_ok)
  then show ?thesis
    using c l by (auto simp: transfer_in_def Let_def intro!: quiet_oks assms(1))
qed

lemma transfer_out_ok:
  assumes "udc_stack_ok Z V" "i < length (eps s)" "i \<ge> 2 \<longrightarrow> mmio s (data_ctl i) AND 3 \<noteq> WCH_ACK"
  shows "ep_ok V (transfer_out Z i idx b s) i"
  using assms(2,3)
  by (auto simp: transfer_out_def Let_def intro!: quiet_oks assms(1))

lemma accept_facts:
  assumes "udc_wf V s" "i < 4"
  shows "eps (accept_packet i s) = eps s" "stack (accept_packet i s) = stack s"
    "in_length (accept_packet i s) = in_length s" "packet (accept_packet i s) = packet s"
    "running (accept_packet i s) = running s"
    "i \<ge> 2 \<longrightarrow> mmio (accept_packet i s) (data_ctl i) AND 3 \<noteq> WCH_ACK"
    "off \<noteq> ep_ctl (addr (eps s ! i)) \<Longrightarrow> mmio (accept_packet i s) off = mmio s off"
  using data_ctl_eq [OF assms] by (auto simp: accept_packet_def Let_def)

lemma ctrl_only_ep:
  assumes c: "ctrl_only V own s s'" and i: "i < length (eps s)" "2 \<le> i \<or> stat_busy (eps s' ! i)"
  shows "eps s' ! i = eps s ! i" "vq (V (stack s')) i = vq (V (stack s)) i"
    and "b \<in> set (vq (V (stack s)) i) \<Longrightarrow> own b = i \<Longrightarrow> vbuf (V (stack s')) b = vbuf (V (stack s)) b"
proof -
  show "eps s' ! i = eps s ! i" using c i unfolding ctrl_only_def by blast
  show "vq (V (stack s')) i = vq (V (stack s)) i"
    using c i by (cases "i < 2") (simp_all add: ctrl_only_def)
  show "vbuf (V (stack s')) b = vbuf (V (stack s)) b" if "b \<in> set (vq (V (stack s)) i)" "own b = i"
    using c i that by (cases "i < 2") (simp_all add: ctrl_only_def)
qed

lemma ctrl_only_inv:
  assumes c: "ctrl_only V own s s'" and inv: "udc_inv V own s"
  shows "udc_inv V own s'"
proof -
  have w: "udc_wf V s" and o: "owned own (V (stack s))" using inv by (auto simp: udc_inv_def)
  note l = wf_len(1) [OF w]
  have m: "map addr (eps s') = map addr (eps s)" "map mps (eps s') = map mps (eps s)"
    using c l by (auto simp: ctrl_only_def list_eq_iff_nth_eq)
  have "mps ` set (eps s') = mps ` set (eps s)" using m(2) by (metis set_map)
  then have "\<forall>c \<in> set (eps s'). mps c \<le> 64"
    using w unfolding udc_wf_def by (metis (no_types, lifting) imageE image_eqI)
  then have "udc_wf V s'"
    using c w m(1) by (simp add: udc_wf_def ctrl_only_def)
  moreover have "owned own (V (stack s'))"
    unfolding owned_def
  proof (intro allI ballI)
    fix i b
    assume "b \<in> set (vq (V (stack s')) i)"
    then have "b \<in> set (vq (V (stack s)) i)"
      using c by (cases "i < 2") (auto simp: ctrl_only_def not_less)
    then show "own b = i" using o by (simp add: owned_def)
  qed
  moreover have "ep_ok V s' i" if i: "i < 4" for i
  proof -
    have ok: "ep_ok V s i" using inv i by (simp add: udc_inv_def)
    have h: "vq (V (stack s)) i \<noteq> [] \<Longrightarrow> own (hd (vq (V (stack s)) i)) = i \<and> hd (vq (V (stack s)) i) \<in> set (vq (V (stack s)) i)"
      using o by (simp add: owned_def)
    show ?thesis
    proof (cases "2 \<le> i \<or> stat_busy (eps s' ! i)")
      case True
      then have e: "eps s' ! i = eps s ! i" "vq (V (stack s')) i = vq (V (stack s)) i"
        "vq (V (stack s)) i \<noteq> [] \<Longrightarrow> vbuf (V (stack s')) (hd (vq (V (stack s)) i)) = vbuf (V (stack s)) (hd (vq (V (stack s)) i))"
        using ctrl_only_ep [OF c _ True] i l h by auto
      have f: "mmio s' = mmio s" "packet s' = packet s" "in_length s' = in_length s" "running s' = running s"
        using c by (simp_all add: ctrl_only_def)
      show ?thesis
      proof (cases "vq (V (stack s)) i = []")
        case True
        then show ?thesis using ok by (auto simp: ep_ok_def Let_def e(1,2) f split: if_splits)
      next
        case False
        show ?thesis
          using ok unfolding ep_ok_def Let_def in_staged_def sys_read16_def e(1,2) e(3) [OF False] f .
      qed
    next
      case False
      then show ?thesis by (simp add: ep_ok_def Let_def)
    qed
  qed
  ultimately show ?thesis by (simp add: udc_inv_def)
qed

lemma inv_halted:
  assumes "udc_inv V own s" "i < 4"
  shows "udc_inv V own (upd_ep i (\<lambda>c. c\<lparr>stat_halted := False\<rparr>) s)"
proof (rule ep_step_inv [OF assms(1) _ assms(2)])
  show "ep_step V own i s (upd_ep i (\<lambda>c. c\<lparr>stat_halted := False\<rparr>) s)" by (simp add: step_ep)
  have "i < length (eps s)" using assms wf_len(1) [of V s] by (simp add: udc_inv_def)
  then show "ep_ok V (upd_ep i (\<lambda>c. c\<lparr>stat_halted := False\<rparr>) s) i"
    using assms by (auto simp: udc_inv_def ep_ok_def Let_def in_staged_def)
qed

lemma transfer_setup_inv:
  assumes "udc_stack_ok Z V" "setup_received_ok Z V own" "udc_inv V own s"
  shows "udc_inv V own (transfer_setup Z s)"
proof -
  let ?t = "wch_write (WCH_RX_CTL 0) (WCH_TOGGLE OR WCH_NAK) (wch_write (WCH_TX_CTL 0) (WCH_TOGGLE OR WCH_NAK) s)"
  have "udc_inv V own ?t" using assms(3) by (simp add: wch_write_def inv_reg wch_offsets)
  moreover have "udc_get_ep_cfg Z 0 (stack s) = Some 0" "udc_get_ep_cfg Z 0x80 (stack s) = Some 1"
    using assms(1,3) by (simp_all add: stack_laws udc_inv_def udc_wf_def ep_table_def)
  ultimately have "udc_inv V own (clear_halted (udc_get_ep_cfg Z 0 (stack s))
      (clear_halted (udc_get_ep_cfg Z 0x80 (stack s)) ?t))"
    by (simp add: clear_halted_def inv_halted)
  then show ?thesis
    using assms(2) unfolding transfer_setup_def Let_def setup_received_ok_def by (blast intro: ctrl_only_inv)
qed

lemma tok_ep_less: "tok_ep token = Some i \<Longrightarrow> i < 4"
  by (auto simp: tok_ep_def split: if_splits)

lemma tok_ep_in: "tok_ep token = Some i \<Longrightarrow> token AND 0x30 = WCH_TOKEN_IN \<Longrightarrow> i = 1 \<or> i = 2"
  by (auto simp: tok_ep_def split: if_splits)

text \<open>A data or status packet on endpoint \<open>i\<close> is a step of that endpoint and leaves it in order.\<close>

definition transfer_packet :: "'z udc_ext \<Rightarrow> u8 \<Rightarrow> nat \<Rightarrow> nat \<Rightarrow> 'z udc_dev \<Rightarrow> 'z udc_dev" where
  "transfer_packet Z token i b s =
     (if token AND 0x30 = WCH_TOKEN_IN
      then transfer_in Z i (USB_EP_GET_IDX (addr (eps s ! i))) b (accept_packet i s)
      else transfer_out Z i (USB_EP_GET_IDX (addr (eps s ! i))) b (accept_packet i s))"

lemma transfer_steps:
  assumes ok: "udc_stack_ok Z V" and inv: "udc_inv V own s"
    and t: "tok_ep token = Some i" and g: "transfer_guard V s token i"
  shows "ep_step V own i s (transfer_packet Z token i (head_buf V s i) s)"
    and "ep_ok V (transfer_packet Z token i (head_buf V s i) s) i"
proof -
  let ?a = "accept_packet i s" and ?b = "head_buf V s i" and ?x = "USB_EP_GET_IDX (addr (eps s ! i))"
  have w: "udc_wf V s" and o: "owned own (V (stack s))" using inv by (auto simp: udc_inv_def)
  note i = tok_ep_less [OF t] and f = accept_facts [OF w tok_ep_less [OF t]]
  have b: "own ?b = i" using g o by (auto simp: transfer_guard_def owned_def)
  have a: "udc_wf V ?a" "owned own (V (stack ?a))"
    using step_accept [OF i, of V own s] w o by (auto simp: ep_step_def)
  have l: "i < length (eps ?a)" using i wf_len(1) [OF a(1)] by simp
  have n: "unat (in_length ?a ! ?x) \<le> length (nb_data (vbuf (V (stack ?a)) ?b))"
    if "token AND 0x30 = WCH_TOKEN_IN"
  proof -
    have "ep_ok V s i" "?x = i - 1"
      using inv i tok_ep_in [OF t that] wf_addr [OF w] by (auto simp: udc_inv_def)
    then show ?thesis
      using tok_ep_in [OF t that] g by (auto simp: ep_ok_def Let_def transfer_guard_def f)
  qed
  have "ep_step V own i ?a (transfer_packet Z token i ?b s)"
    using transfer_in_step [of Z V i own ?b ?a ?x] transfer_out_step [of Z V i own ?b ?a ?x] ok i b n
    by (simp add: transfer_packet_def)
  then show "ep_step V own i s (transfer_packet Z token i ?b s)"
    using step_accept [OF i] ep_step_trans by blast
  show "ep_ok V (transfer_packet Z token i ?b s) i"
    using transfer_in_ok [of Z V i own ?b ?a ?x] transfer_out_ok [OF ok l f(6)] ok i b a n f(6)
    by (simp add: transfer_packet_def)
qed

lemma transfer_eq':
  assumes ok: "udc_stack_ok Z V" and wf: "udc_wf V s"
  shows "wch_transfer Z token s =
    (if token AND 0x30 = WCH_TOKEN_SETUP \<and> token AND 0xf = 0 then transfer_setup Z s
     else case tok_ep token of None \<Rightarrow> s
     | Some i \<Rightarrow> if transfer_guard V s token i then transfer_packet Z token i (head_buf V s i) s else s)"
  by (simp add: transfer_eq [OF assms] transfer_packet_def split: option.split)

lemma transfer_inv:
  assumes ok: "udc_stack_ok Z V" "setup_received_ok Z V own" and inv: "udc_inv V own s"
  shows "udc_inv V own (wch_transfer Z token s)"
proof -
  have w: "udc_wf V s" using inv by (simp add: udc_inv_def)
  have "udc_inv V own (transfer_packet Z token i (head_buf V s i) s)"
    if "tok_ep token = Some i" "transfer_guard V s token i" for i
    using ep_step_inv [OF inv transfer_steps(1) [OF ok(1) inv that] tok_ep_less [OF that(1)]
        transfer_steps(2) [OF ok(1) inv that]] .
  then show ?thesis
    unfolding transfer_eq' [OF ok(1) w]
    using transfer_setup_inv [OF ok inv] inv by (auto split: option.split)
qed

lemma ctrl_only_returns:
  assumes "ctrl_only V own s s'"
  shows "returns V own s s'"
proof -
  obtain es where es: "vevs (V (stack s')) = vevs (V (stack s)) @ es"
    and c: "\<forall>e \<in> set es. case ev_buf e of None \<Rightarrow> True | Some b \<Rightarrow> own b < 2"
    using assms by (auto simp: ctrl_only_def)
  have "ret own i es = []" if "i \<ge> 2" for i
    using c that by (induction es) (auto simp: ret_def List.map_filter_def split: option.splits)
  then show ?thesis
    using es assms unfolding returns_def by (intro exI [of _ es]) (simp add: ctrl_only_def)
qed

lemma transfer_returns:
  assumes ok: "udc_stack_ok Z V" "setup_received_ok Z V own" and inv: "udc_inv V own s"
  shows "returns V own s (wch_transfer Z token s)"
proof -
  have w: "udc_wf V s" and o: "owned own (V (stack s))" using inv by (auto simp: udc_inv_def)
  have st: "returns V own s (transfer_setup Z s)"
  proof -
    let ?t = "wch_write (WCH_RX_CTL 0) (WCH_TOGGLE OR WCH_NAK) (wch_write (WCH_TX_CTL 0) (WCH_TOGGLE OR WCH_NAK) s)"
    let ?u = "clear_halted (udc_get_ep_cfg Z 0 (stack s)) (clear_halted (udc_get_ep_cfg Z 0x80 (stack s)) ?t)"
    have "stack ?u = stack s" by (simp add: clear_halted_def wch_write_def split: option.split)
    then have "returns V own s ?u" by (simp add: returns_same)
    moreover have "returns V own ?u (udc_setup_received Z p ?u)" for p
      using ok(2) by (simp add: setup_received_ok_def ctrl_only_returns)
    ultimately show ?thesis unfolding transfer_setup_def Let_def by (blast intro: returns_trans)
  qed
  show ?thesis
    unfolding transfer_eq' [OF ok(1) w]
    using st transfer_steps(1) [OF ok(1) inv] w o by (auto simp: ep_step_def split: option.split)
qed

section \<open>Hardware\<close>

text \<open>What the controller does by itself: it sets its status registers (MIS_ST, INT_FG, INT_ST and the
  two bytes of RX_LEN) and writes packets from the host into the staging buffers of EP0 and EP2.\<close>

definition hw_change :: "'z udc_dev \<Rightarrow> 'z udc_dev \<Rightarrow> bool" where
  "hw_change s s' \<longleftrightarrow> (\<exists>m p. s' = s\<lparr>mmio := m, packet := p\<rparr> \<and>
     (\<forall>off. off \<notin> {5, 6, 7, 8, 9} \<longrightarrow> m off = mmio s off) \<and>
     map length p = map length (packet s) \<and> p ! 1 = packet s ! 1)"

definition hw_env :: "(nat \<Rightarrow> 'z udc_dev \<Rightarrow> 'z udc_dev) \<Rightarrow> bool" where
  "hw_env env \<longleftrightarrow> (\<forall>n s. hw_change s (env n s))"

lemma hw_refl [simp]: "hw_change s s"
  unfolding hw_change_def by (rule exI [of _ "mmio s"], rule exI [of _ "packet s"]) simp

lemma hw_facts:
  assumes "hw_change s s'"
  shows "eps s' = eps s" "stack s' = stack s" "running s' = running s" "in_length s' = in_length s"
    "setup_pending s' = setup_pending s" "off \<notin> {5, 6, 7, 8, 9} \<Longrightarrow> mmio s' off = mmio s off"
    "packet s' ! 1 = packet s ! 1" "map length (packet s') = map length (packet s)"
  using assms by (auto simp: hw_change_def)

lemma hw_trans: "hw_change s t \<Longrightarrow> hw_change t u \<Longrightarrow> hw_change s u"
  unfolding hw_change_def by (elim exE conjE) (auto intro!: exI)

lemma udc_hw_inv:
  assumes "hw_change s s'" "udc_inv V own s"
  shows "udc_inv V own s'"
proof -
  note f = hw_facts [OF assms(1)]
  have e: "length ` set (packet s') = length ` set (packet s)" "length (packet s') = length (packet s)"
    using f(8) by (metis set_map) (metis f(8) length_map)
  then have "\<forall>p \<in> set (packet s'). length p = WCH_PACKET"
    using assms(2) unfolding udc_inv_def udc_wf_def by (metis (no_types, lifting) imageE image_eqI)
  then have "udc_wf V s'" using assms(2) e(2) by (simp add: udc_inv_def udc_wf_def f)
  moreover have "ep_ok V s' i" if "i < 4" for i
  proof -
    have "ep_ok V s i" using assms(2) that by (simp add: udc_inv_def)
    moreover have "mmio s' (data_ctl i) = mmio s (data_ctl i)" "sys_read16 (WCH_TX_LEN 1) s' = sys_read16 (WCH_TX_LEN 1) s"
      by (simp_all add: f(6) sys_read16_def WCH_TX_LEN_def)
    ultimately show ?thesis unfolding ep_ok_def Let_def in_staged_def f(1-4,7) by argo
  qed
  ultimately show ?thesis using assms(2) by (simp add: udc_inv_def f(2))
qed

lemma quiesce_wait_hw:
  assumes "hw_env env"
  shows "quiesce_wait env n s = (b, s') \<Longrightarrow> hw_change s s'"
proof (induction n arbitrary: s)
  case (Suc n)
  then show ?case
    by (cases "sie_busy s") (use assms in \<open>auto simp: hw_env_def intro: hw_trans\<close>)
qed simp

end
