(* ===== verification/Udc_Api.thy ===== *)
theory Udc_Api
  imports Udc_Steps
begin

text \<open>
  The API operations and the worker keep the invariant and return buffers only from the front of
  the queues.
\<close>

unbundle bit_operations_syntax

definition udc_keeps :: "('z \<Rightarrow> udc_view) \<Rightarrow> (nat \<Rightarrow> nat) \<Rightarrow> 'z udc_dev \<Rightarrow> 'z udc_dev \<Rightarrow> bool" where
  "udc_keeps V own s s' \<longleftrightarrow> (udc_inv V own s \<longrightarrow> udc_inv V own s' \<and> returns V own s s')"

lemma keeps_refl [simp]: "udc_keeps V own s s"
  by (simp add: udc_keeps_def)

lemma keeps_trans: "udc_keeps V own s t \<Longrightarrow> udc_keeps V own t u \<Longrightarrow> udc_keeps V own s u"
  unfolding udc_keeps_def by (blast intro: returns_trans)

lemma keeps_step: "ep_step V own i s s' \<Longrightarrow> i < 4 \<Longrightarrow> (udc_inv V own s \<Longrightarrow> ep_ok V s' i) \<Longrightarrow> udc_keeps V own s s'"
  using ep_step_inv [of V own s i s'] by (auto simp: udc_keeps_def ep_step_def udc_inv_def)

lemma keeps_reg:
  "off \<notin> {0x34, 0x35, 0x36, 0x38, 0x39, 0x3b} \<Longrightarrow> udc_keeps V own s (set_mmio off v s)"
  by (simp add: udc_keeps_def inv_reg returns_same)

lemmas then_reg = keeps_trans [OF _ keeps_reg]

lemma keeps_hw: "hw_change s s' \<Longrightarrow> udc_keeps V own s s'"
  by (simp add: udc_keeps_def udc_hw_inv returns_same hw_facts)

lemma keeps_kick: "udc_stack_ok Z V \<Longrightarrow> i < 4 \<Longrightarrow> udc_keeps V own s (wch_kick Z i s)"
  by (simp add: udc_keeps_def kick_inv returns_same)

lemma keeps_transfer:
  "udc_stack_ok Z V \<Longrightarrow> setup_received_ok Z V own \<Longrightarrow> udc_keeps V own s (wch_transfer Z token s)"
  by (simp add: udc_keeps_def transfer_inv transfer_returns)

lemma keeps_ack: "udc_keeps V own s (wch_ack f s)"
  by (simp add: wch_ack_def wch_write_def keeps_reg wch_offsets)

lemma inv_len: "udc_inv V own s \<Longrightarrow> length (eps s) = 4"
  using wf_len(1) [of V s] by (simp add: udc_inv_def)

lemma inv_addr:
  assumes "udc_inv V own s" "2 \<le> i" "i < 4"
  shows "ep_ctl (addr (eps s ! i)) = data_ctl i"
  using assms data_ctl_eq [of V s i] by (simp add: udc_inv_def)

section \<open>Quiescing\<close>

lemma keeps_response:
  assumes "i < 4" "r = WCH_NAK \<or> r = WCH_STALL"
  shows "udc_keeps V own s (wch_response (addr (eps s ! i)) r s)"
proof (rule keeps_step [OF _ assms(1)])
  show "ep_step V own i s (wch_response (addr (eps s ! i)) r s)"
    by (simp add: wch_response_def wch_write_def step_ctl assms(1))
  assume inv: "udc_inv V own s"
  have "ep_ok V s i" using inv assms(1) by (simp add: udc_inv_def)
  moreover have "sys_read16 (WCH_TX_LEN 1) (set_mmio (data_ctl i) v s) = sys_read16 (WCH_TX_LEN 1) s" for v
    by (simp add: WCH_TX_LEN_def)
  ultimately show "ep_ok V (wch_response (addr (eps s ! i)) r s) i"
    using assms inv_addr [OF inv _ assms(1)]
    by (cases "2 \<le> i") (auto simp: ep_ok_def Let_def wch_response_def wch_write_def wch_read_def in_staged_def)
qed

lemma keeps_idle:
  assumes "i < 4" "udc_inv V own s \<Longrightarrow> 2 \<le> i \<Longrightarrow> mmio s (data_ctl i) AND 3 \<noteq> WCH_ACK"
  shows "udc_keeps V own s (udc_ep_set_busy i False s)"
proof (rule keeps_step [OF step_busy assms(1)])
  assume inv: "udc_inv V own s"
  then show "ep_ok V (udc_ep_set_busy i False s) i"
    using assms inv_len [OF inv] by (intro quiet_ok quiet_busy) auto
qed

lemma response_ctl [simp]: "mmio (wch_response a r s) (ep_ctl a) = (mmio s (ep_ctl a) AND WCH_TOGGLE) OR r"
  by (simp add: wch_response_def wch_write_def wch_read_def)

lemma response_frame [simp]:
  "eps (wch_response a r s) = eps s" "stack (wch_response a r s) = stack s" "running (wch_response a r s) = running s"
  "packet (wch_response a r s) = packet s" "in_length (wch_response a r s) = in_length s"
  "setup_pending (wch_response a r s) = setup_pending s"
  "off \<noteq> ep_ctl a \<Longrightarrow> mmio (wch_response a r s) off = mmio s off"
  by (simp_all add: wch_response_def wch_write_def)

lemma transfer_addr:
  assumes "udc_stack_ok Z V" "setup_received_ok Z V own" "udc_inv V own s"
  shows "map addr (eps (wch_transfer Z token s)) = map addr (eps s)"
  using transfer_inv [OF assms, of token] assms(3) by (simp add: udc_inv_def udc_wf_def)

lemma nth_addr: "map addr (eps s') = map addr (eps s) \<Longrightarrow> i < length (eps s) \<Longrightarrow> addr (eps s' ! i) = addr (eps s ! i)"
  by (metis length_map nth_map)

text \<open>The state in which a successful quiesce leaves the controller before clearing the busy flag.\<close>

definition quiesced :: "'z udc_ext \<Rightarrow> bool \<Rightarrow> u8 \<Rightarrow> 'z udc_dev \<Rightarrow> 'z udc_dev" where
  "quiesced Z cancel ep s =
     (if has (wch_read WCH_INT_FG s) WCH_TRANSFER \<and>
         wch_read WCH_INT_ST s AND 0x3f = (ep AND 0x0F) OR (if USB_EP_DIR_IS_IN ep then WCH_TOKEN_IN else WCH_TOKEN_OUT)
      then wch_ack WCH_TRANSFER
             (if cancel then s else wch_response ep WCH_NAK (wch_transfer Z (wch_read WCH_INT_ST s) s))
      else s)"

lemma quiesce_eq:
  "wch_quiesce Z env cancel i s =
     (case quiesce_wait env 100 (wch_response (addr (eps s ! i)) WCH_NAK s) of
        (False, s1) \<Rightarrow> (Err EBUSY, s1)
      | (True, s1) \<Rightarrow> (Ok, udc_ep_set_busy i False (quiesced Z cancel (addr (eps s ! i)) s1)))"
  by (simp add: wch_quiesce_def quiesced_def Let_def split: prod.split bool.split)

lemma keeps_quiesced:
  assumes "udc_stack_ok Z V" "setup_received_ok Z V own" "i < 4"
    and "udc_inv V own s" "ep = addr (eps s ! i)" "2 \<le> i \<Longrightarrow> mmio s (data_ctl i) AND 3 = WCH_NAK"
  shows "udc_keeps V own s (quiesced Z cancel ep s)" (is ?k)
    and "2 \<le> i \<Longrightarrow> mmio (quiesced Z cancel ep s) (data_ctl i) AND 3 \<noteq> WCH_ACK" (is "_ \<Longrightarrow> ?m")
proof -
  let ?t = "wch_transfer Z (wch_read WCH_INT_ST s) s"
  have i: "i < length (eps s)" using inv_len [OF assms(4)] assms(3) by simp
  have a: "addr (eps ?t ! i) = ep"
    using nth_addr [OF transfer_addr [OF assms(1,2,4)] i] assms(5) by simp
  have "udc_keeps V own s (wch_response ep WCH_NAK ?t)"
    using keeps_trans [OF keeps_transfer [OF assms(1,2)] keeps_response [OF assms(3), of WCH_NAK V own ?t]] a
    by simp
  then show ?k
    unfolding quiesced_def using keeps_trans [OF _ keeps_ack] keeps_ack by auto
  show ?m if "2 \<le> i"
  proof -
    have e: "ep_ctl ep = data_ctl i" using inv_addr [OF assms(4) that assms(3)] assms(5) by simp
    have k: "mmio (wch_ack f u) (data_ctl i) = mmio u (data_ctl i)" for f and u :: "'a udc_dev"
      by (simp add: wch_ack_def wch_write_def WCH_INT_FG_def)
    have "mmio (wch_response ep WCH_NAK ?t) (data_ctl i) AND 3 = WCH_NAK"
      unfolding e [symmetric] response_ctl by simp
    then have "mmio (quiesced Z cancel ep s) (data_ctl i) AND 3 = WCH_NAK"
      unfolding quiesced_def using assms(6) [OF that] k by (simp del: if_split split: if_split_asm if_split)
    then show ?thesis by simp
  qed
qed

lemma quiesce_result:
  assumes ok: "udc_stack_ok Z V" "setup_received_ok Z V own" "hw_env env" and i: "i < 4"
    and inv: "udc_inv V own s" and q: "wch_quiesce Z env cancel i s = (r, s')"
  shows "udc_inv V own s' \<and> returns V own s s' \<and>
    (r = Ok \<longrightarrow> \<not> stat_busy (eps s' ! i) \<and> (2 \<le> i \<longrightarrow> mmio s' (data_ctl i) AND 3 \<noteq> WCH_ACK))"
proof -
  let ?n = "wch_response (addr (eps s ! i)) WCH_NAK s"
  obtain b s1 where w: "quiesce_wait env 100 ?n = (b, s1)" by force
  note h = quiesce_wait_hw [OF ok(3) w]
  have n: "udc_inv V own ?n" "returns V own s ?n"
    using keeps_response [OF i, of WCH_NAK V own s] inv by (auto simp: udc_keeps_def)
  have k1: "udc_inv V own s1" "returns V own s s1"
    using keeps_hw [OF h, of V own] n returns_trans [OF n(2)] by (simp_all add: udc_keeps_def)
  have c: "mmio s1 (data_ctl i) AND 3 = WCH_NAK" if "2 \<le> i"
    using hw_facts(6) [OF h, of "data_ctl i"] inv_addr [OF inv that i] response_ctl [of "addr (eps s ! i)" WCH_NAK s]
    by (simp split: if_splits)
  have a: "addr (eps s ! i) = addr (eps s1 ! i)" by (simp add: hw_facts(1) [OF h])
  note d = keeps_quiesced [OF ok(1,2) i k1(1) a c, of cancel]
  show ?thesis
  proof (cases b)
    case True
    let ?d = "quiesced Z cancel (addr (eps s ! i)) s1"
    have e: "udc_inv V own ?d" "returns V own s ?d"
      using d(1) k1 returns_trans [OF k1(2)] by (simp_all add: udc_keeps_def)
    have "udc_keeps V own ?d (udc_ep_set_busy i False ?d)" using d(2) by (intro keeps_idle i) auto
    then have "udc_inv V own (udc_ep_set_busy i False ?d)" "returns V own s (udc_ep_set_busy i False ?d)"
      using e returns_trans [OF e(2)] by (simp_all add: udc_keeps_def)
    moreover have "r = Ok" "s' = udc_ep_set_busy i False ?d" using q w True by (auto simp: quiesce_eq)
    ultimately show ?thesis
      using d(2) inv_len [OF e(1)] i by (simp add: udc_ep_set_busy_def)
  next
    case False
    then show ?thesis using q w k1 by (auto simp: quiesce_eq)
  qed
qed

section \<open>Endpoint operations\<close>

text \<open>Endpoint \<open>i\<close> idle after a cancellation: not busy, and a data endpoint does not answer ACK.\<close>

lemma keeps_cancel:
  assumes "udc_stack_ok Z V" "i < 4" "\<not> stat_busy (eps s ! i)"
  shows "udc_keeps V own s (upd_stack (udc_ep_cancel_queued Z i) s)"
proof (rule keeps_step [OF step_cancel [OF assms(1)] assms(2)])
  assume "udc_inv V own s"
  then have "ep_ok V s i" using assms(2) by (simp add: udc_inv_def)
  then show "ep_ok V (upd_stack (udc_ep_cancel_queued Z i) s) i"
    using assms(3) by (simp add: ep_ok_def Let_def)
qed

lemma dequeue_result:
  assumes ok: "udc_stack_ok Z V" "setup_received_ok Z V own" "hw_env env" and i: "i < 4"
    and inv: "udc_inv V own s" and q: "wch_dequeue Z env i s = (r, s')"
  shows "udc_inv V own s' \<and> returns V own s s' \<and> (r = Ok \<longrightarrow> \<not> stat_busy (eps s' ! i))"
proof -
  obtain r1 s1 where d: "wch_quiesce Z env True i s = (r1, s1)" by force
  note k = quiesce_result [OF ok i inv d]
  show ?thesis
  proof (cases r1)
    case (Inr u)
    then have "udc_keeps V own s1 (upd_stack (udc_ep_cancel_queued Z i) s1)"
      using k keeps_cancel [OF ok(1) i] by simp
    then show ?thesis
      using q d k Inr returns_trans [of V own s s1] by (auto simp: wch_dequeue_def udc_keeps_def)
  qed (use q d k in \<open>auto simp: wch_dequeue_def\<close>)
qed

lemma halt_result:
  assumes ok: "udc_stack_ok Z V" "setup_received_ok Z V own" "hw_env env" and i: "i < 4"
    and inv: "udc_inv V own s" and q: "wch_halt Z env i s = (r, s')"
  shows "udc_inv V own s' \<and> returns V own s s'"
proof -
  obtain r1 s1 where d: "wch_quiesce Z env False i s = (r1, s1)" by force
  note k = quiesce_result [OF ok i inv d]
  let ?u = "wch_response (addr (eps s1 ! i)) WCH_STALL s1"
  let ?h = "upd_ep i (\<lambda>c. c\<lparr>stat_halted := True\<rparr>) ?u"
  have "udc_keeps V own s1 ?h" if b: "\<not> stat_busy (eps s1 ! i)"
  proof (rule keeps_trans [OF keeps_response [OF i]])
    show "udc_keeps V own ?u ?h"
    proof (rule keeps_step [OF step_ep i])
      assume inv: "udc_inv V own ?u"
      then have "ep_ok V ?u i" "i < length (eps s1)" using i inv_len [OF inv] by (auto simp: udc_inv_def)
      then show "ep_ok V ?h i" using b by (simp add: ep_ok_def Let_def)
    qed simp_all
  qed simp
  then show ?thesis
    using q d k returns_trans [of V own s s1 ?h] by (auto simp: wch_halt_def udc_keeps_def split: sum.splits if_splits)
qed

lemma clear_halt_keeps:
  assumes ok: "udc_stack_ok Z V" and i: "i < 4"
  shows "udc_keeps V own s (snd (wch_clear_halt Z i s))"
proof -
  let ?u = "wch_write (ep_ctl (addr (eps s ! i))) WCH_NAK s"
  let ?h = "upd_ep i (\<lambda>c. c\<lparr>stat_halted := False\<rparr>) ?u"
  have "udc_keeps V own s ?u"
  proof (rule keeps_step [OF _ i])
    show "ep_step V own i s ?u" by (simp add: wch_write_def step_ctl i)
    assume inv: "udc_inv V own s"
    then have "ep_ok V s i" using i by (simp add: udc_inv_def)
    moreover have "sys_read16 (WCH_TX_LEN 1) (set_mmio (data_ctl i) v s) = sys_read16 (WCH_TX_LEN 1) s" for v
      by (simp add: WCH_TX_LEN_def)
    ultimately show "ep_ok V ?u i"
      using inv_addr [OF inv _ i]
      by (cases "2 \<le> i") (auto simp: ep_ok_def Let_def wch_write_def in_staged_def)
  qed
  moreover have "udc_keeps V own ?u ?h"
    using inv_halted [OF _ i, of V own ?u] by (simp add: udc_keeps_def returns_same)
  ultimately show ?thesis
    using keeps_kick [OF ok i, of own ?h] by (auto simp: wch_clear_halt_def Let_def intro: keeps_trans)
qed

lemma enqueue_result:
  assumes ok: "udc_stack_ok Z V" and i: "i < 4" and b: "own b = i"
    and inv: "udc_inv V own s" and q: "wch_enqueue Z i b s = (r, s')"
  shows "udc_inv V own s' \<and> vevs (V (stack s')) = vevs (V (stack s)) \<and>
    vq (V (stack s')) = (if r = Ok then (vq (V (stack s)))(i := vq (V (stack s)) i @ [b]) else vq (V (stack s)))"
proof -
  let ?p = "upd_stack (udc_buf_put Z i b) s"
  have o: "owned own (V (stack s))" and w: "udc_wf V s" using inv by (auto simp: udc_inv_def)
  have "udc_wf V ?p" using w by (simp add: wf_stack stack_laws [OF ok])
  moreover have "owned own (V (stack ?p))" using o b by (auto simp: owned_def stack_laws [OF ok])
  moreover have "ep_ok V ?p j" if "j < 4" for j
  proof -
    have k: "ep_ok V s j" using inv that by (simp add: udc_inv_def)
    show ?thesis
    proof (cases "stat_busy (eps s ! j)")
      case True
      then have "vq (V (stack s)) j \<noteq> []" using k by (simp add: ep_ok_def Let_def)
      then have "hd (vq (V (stack ?p)) j) = hd (vq (V (stack s)) j)" "vq (V (stack ?p)) j \<noteq> []"
        by (auto simp: stack_laws [OF ok])
      moreover have "vbuf (V (stack ?p)) = vbuf (V (stack s))" by (simp add: stack_laws [OF ok])
      ultimately show ?thesis
        using k True by (simp only: ep_ok_def Let_def in_staged_def read16_frame upd_stack_ops(1-5) simp_thms) blast
    next
      case False
      then show ?thesis using k by (simp add: ep_ok_def Let_def)
    qed
  qed
  ultimately have "udc_inv V own ?p" by (simp add: udc_inv_def)
  then have "udc_inv V own (wch_kick Z i ?p)" using kick_inv [OF ok _ i] by blast
  then show ?thesis
    using q inv by (auto simp: wch_enqueue_def stack_laws [OF ok] split: if_splits)
qed

section \<open>Reset, disable and the worker\<close>

lemma fold4: "fold f [0..<4] s = f 3 (f 2 (f (Suc 0) (f 0 s)))"
  by (simp add: upt_rec numeral_2_eq_2 numeral_3_eq_3)

lemma keeps_flags: "udc_keeps V own s (s\<lparr>setup_pending := a, setup_valid := b\<rparr>)"
proof -
  have "ep_ok V (s\<lparr>setup_pending := a, setup_valid := b\<rparr>) i = ep_ok V s i" for i
    by (simp add: ep_ok_def in_staged_def sys_read16_def)
  then show ?thesis by (simp add: udc_keeps_def udc_inv_def returns_same)
qed

text \<open>Bus events and the suspended flag do not concern the endpoints.\<close>

lemma keeps_bus:
  assumes "vtab (V (f (stack s))) = vtab (V (stack s))" "vq (V (f (stack s))) = vq (V (stack s))"
    "vbuf (V (f (stack s))) = vbuf (V (stack s))"
    "vevs (V (f (stack s))) = vevs (V (stack s)) \<or> (\<exists>t e. vevs (V (f (stack s))) = vevs (V (stack s)) @ [BusEvent t e])"
  shows "udc_keeps V own s (upd_stack f s)"
proof -
  have "ep_ok V (upd_stack f s) i = ep_ok V s i" for i
    using assms by (simp add: ep_ok_def in_staged_def)
  moreover have "returns V own s (upd_stack f s)"
    using assms(4)
  proof (elim disjE exE)
    fix t e
    assume "vevs (V (f (stack s))) = vevs (V (stack s)) @ [BusEvent t e]"
    then show ?thesis
      unfolding returns_def by (intro exI [of _ "[BusEvent t e]"]) (simp add: assms(2))
  qed (simp add: returns_same assms(2))
  ultimately show ?thesis
    using assms(1,2) by (simp add: udc_keeps_def udc_inv_def wf_stack owned_def)
qed

lemma reset_ep_view:
  assumes "udc_stack_ok Z V"
  shows "V (stack (reset_ep Z i s)) = view_cancel i (V (stack s))" "running (reset_ep Z i s) = running s"
    "i < length (eps s) \<Longrightarrow> eps (reset_ep Z i s) ! i = (eps s ! i)\<lparr>stat_busy := False, stat_halted := False,
       stat_enabled := (USB_EP_GET_IDX (addr (eps s ! i)) = 0)\<rparr>"
    "j \<noteq> i \<Longrightarrow> eps (reset_ep Z i s) ! j = eps s ! j" "length (eps (reset_ep Z i s)) = length (eps s)"
    "off \<noteq> ep_ctl (addr (eps s ! i)) \<Longrightarrow> mmio (reset_ep Z i s) off = mmio s off"
  by (simp_all add: reset_ep_def Let_def stack_laws [OF assms] udc_ep_set_busy_def)

lemma reset_ep_keeps:
  assumes ok: "udc_stack_ok Z V" and i: "i < 4"
  shows "udc_keeps V own s (reset_ep Z i s)"
proof (rule keeps_step [OF _ i])
  let ?a = "wch_response (addr (eps s ! i)) WCH_NAK s"
  have "ep_step V own i s ?a" by (simp add: wch_response_def wch_write_def step_ctl i)
  then have "ep_step V own i s (udc_ep_set_busy i False ?a)" by (rule ep_step_trans [OF _ step_busy])
  then have "ep_step V own i s (upd_ep i f (udc_ep_set_busy i False ?a))"
    if "\<And>c. addr (f c) = addr c \<and> mps (f c) = mps c" for f
    using that by (blast intro: ep_step_trans step_ep)
  then show "ep_step V own i s (reset_ep Z i s)"
    unfolding reset_ep_def Let_def by (intro ep_step_trans [OF _ step_cancel [OF ok]]) auto
  assume inv: "udc_inv V own s"
  show "ep_ok V (reset_ep Z i s) i"
  proof (rule quiet_ok)
    have "mmio (reset_ep Z i s) (data_ctl i) AND 3 = WCH_NAK" if "2 \<le> i"
      using response_ctl [of "addr (eps s ! i)" WCH_NAK s] inv_addr [OF inv that i]
      by (simp add: reset_ep_def Let_def udc_ep_set_busy_def)
    then show "quiet (reset_ep Z i s) i"
      using inv_len [OF inv] i by (auto simp: quiet_def reset_ep_view [OF ok])
  qed
qed

lemma reset_keeps:
  assumes ok: "udc_stack_ok Z V"
  shows "udc_keeps V own s (wch_reset Z s)"
proof -
  let ?s1 = "wch_write WCH_MODE2 0 (wch_write WCH_MODE1 0 (wch_write WCH_ADDR 0 s))"
  let ?s2 = "fold (reset_ep Z) [0..<4] ?s1"
  let ?s3 = "?s2\<lparr>setup_pending := False, setup_valid := False\<rparr>"
  let ?s4 = "if udc_is_suspended Z (stack ?s3) then upd_stack (udc_set_suspended Z False) ?s3 else ?s3"
  let ?s5 = "wch_write (WCH_RX_CTL 0) WCH_ACK (wch_write (WCH_TX_CTL 0) WCH_NAK ?s4)"
  have 1: "udc_keeps V own s ?s1"
    unfolding wch_write_def wch_offsets by (intro then_reg) auto
  have 2: "udc_keeps V own ?s1 ?s2"
    unfolding fold4 by (intro keeps_trans [OF _ reset_ep_keeps [OF ok]]) auto
  have 3: "udc_keeps V own ?s2 ?s3" by (rule keeps_flags)
  have 4: "udc_keeps V own ?s3 ?s4" by (auto intro!: keeps_bus simp: stack_laws [OF ok])
  have 5: "udc_keeps V own ?s4 ?s5"
    unfolding wch_write_def wch_offsets by (intro then_reg) auto
  have "udc_keeps V own ?s5 (wch_reset Z s)"
    unfolding wch_reset_def Let_def by (rule keeps_bus) (auto simp: stack_laws [OF ok])
  then show ?thesis using 1 2 3 4 5 by (blast intro: keeps_trans)
qed

text \<open>A stopped controller: dequeueing never waits and never fails.\<close>

lemma dequeue_stopped:
  assumes ok: "udc_stack_ok Z V" and i: "i < 4" and r: "\<not> running s"
  shows "ep_step V own i s (snd (wch_dequeue Z env i s))" "\<not> running (snd (wch_dequeue Z env i s))"
    "udc_wf V s \<Longrightarrow> quiet (snd (wch_dequeue Z env i s)) i"
    "V (stack (snd (wch_dequeue Z env i s))) = view_cancel i (V (stack s))"
    "off \<noteq> WCH_INT_FG \<Longrightarrow> off \<noteq> ep_ctl (addr (eps s ! i)) \<Longrightarrow> mmio (snd (wch_dequeue Z env i s)) off = mmio s off"
proof -
  let ?n = "wch_response (addr (eps s ! i)) WCH_NAK s" and ?q = "quiesced Z True (addr (eps s ! i))"
  have "\<not> sie_busy ?n" using r by (simp add: sie_busy_def)
  then have "quiesce_wait env n ?n = (True, ?n)" for n by (cases n) simp_all
  then have e: "snd (wch_dequeue Z env i s) =
      upd_stack (udc_ep_cancel_queued Z i) (udc_ep_set_busy i False (?q ?n))"
    by (simp add: wch_dequeue_def quiesce_eq)
  have q: "?q t = t \<or> ?q t = wch_ack WCH_TRANSFER t" for t :: "'a udc_dev" by (simp add: quiesced_def)
  have a: "ep_step V own i t (wch_ack f t)" for f and t :: "'a udc_dev"
    unfolding wch_ack_def wch_write_def
    by (rule step_reg [OF i]) (simp add: data_regs_def WCH_INT_FG_def)
  have n: "ep_step V own i s ?n" by (simp add: wch_response_def wch_write_def step_ctl i)
  then have "ep_step V own i s (?q ?n)" using q [of ?n] a ep_step_trans by metis
  then show "ep_step V own i s (snd (wch_dequeue Z env i s))"
    unfolding e using then_steps(2,3) ok by blast
  have f: "running (?q t) = running t" "eps (?q t) = eps t" "stack (?q t) = stack t"
    "off \<noteq> WCH_INT_FG \<Longrightarrow> mmio (?q t) off = mmio t off" for off and t :: "'a udc_dev"
    by (simp_all add: quiesced_def wch_ack_def wch_write_def)
  show "\<not> running (snd (wch_dequeue Z env i s))" unfolding e using r by (simp add: udc_ep_set_busy_def f)
  show "V (stack (snd (wch_dequeue Z env i s))) = view_cancel i (V (stack s))"
    unfolding e by (simp add: udc_ep_set_busy_def f stack_laws [OF ok])
  show "mmio (snd (wch_dequeue Z env i s)) off = mmio s off"
    if "off \<noteq> WCH_INT_FG" "off \<noteq> ep_ctl (addr (eps s ! i))"
    unfolding e using that by (simp add: udc_ep_set_busy_def f)
  assume w: "udc_wf V s"
  have "mmio ?n (data_ctl i) AND 3 = WCH_NAK" if "2 \<le> i"
    unfolding data_ctl_eq [OF w i that, symmetric] response_ctl by (rule ctl_bits)
  then show "quiet (snd (wch_dequeue Z env i s)) i"
    unfolding e using i wf_len(1) [OF w]
    by (auto simp: quiet_def udc_ep_set_busy_def f WCH_INT_FG_def)
qed

lemma quiet_same: "ep_same V own i s s' \<Longrightarrow> quiet s' i = quiet s i"
  by (auto simp: ep_same_def ep_state_def quiet_def split: if_splits)

lemma dequeue_all:
  assumes ok: "udc_stack_ok Z V" and r: "\<not> running s" and w: "udc_wf V s" and o: "owned own (V (stack s))"
    and s': "s' = fold (\<lambda>i s. snd (wch_dequeue Z env i s)) [0..<4] s"
  shows "udc_wf V s' \<and> owned own (V (stack s')) \<and> returns V own s s' \<and> \<not> running s' \<and> (\<forall>i < 4. quiet s' i)"
    and "V (stack s') = view_cancel 3 (view_cancel 2 (view_cancel 1 (view_cancel 0 (V (stack s)))))"
proof -
  define P where "P n t \<longleftrightarrow> udc_wf V t \<and> owned own (V (stack t)) \<and> returns V own s t \<and> \<not> running t \<and> (\<forall>i < n. quiet t i)"
    for n t
  let ?d = "\<lambda>i s. snd (wch_dequeue Z env i s)"
  have step: "P (Suc n) (?d n t)" if P: "P n t" and n: "n < 4" for n t
  proof -
    have t: "\<not> running t" "udc_wf V t" "owned own (V (stack t))" using P by (auto simp: P_def)
    note d1 = dequeue_stopped(1) [OF ok n t(1), of own env] and d = dequeue_stopped(2,3) [OF ok n t(1), of env]
    have s1: "udc_wf V (?d n t)" "owned own (V (stack (?d n t)))" "returns V own t (?d n t)"
      "\<And>i. i < 4 \<Longrightarrow> i \<noteq> n \<Longrightarrow> ep_same V own i t (?d n t)"
      using d1 t by (auto simp: ep_step_def)
    have "quiet (?d n t) i" if "i < Suc n" for i
      using that d(2) [OF t(2)] P quiet_same [OF s1(4)] n by (cases "i = n") (auto simp: P_def)
    then show ?thesis using s1 d(1) P returns_trans [of V own s t] by (auto simp: P_def)
  qed
  have "P 0 s" using r w o by (simp add: P_def)
  from step [OF step [OF step [OF step [OF this]]]]
  show "udc_wf V s' \<and> owned own (V (stack s')) \<and> returns V own s s' \<and> \<not> running s' \<and> (\<forall>i < 4. quiet s' i)"
    by (simp add: P_def s' fold4 numeral_2_eq_2 numeral_3_eq_3 numeral_eq_Suc)
  show "V (stack s') = view_cancel 3 (view_cancel 2 (view_cancel 1 (view_cancel 0 (V (stack s)))))"
    unfolding s' fold4
    using dequeue_stopped(2,4) [OF ok, of 0 s env] dequeue_stopped(2,4) [OF ok, of "Suc 0" "?d 0 s" env]
      dequeue_stopped(2,4) [OF ok, of 2 "?d (Suc 0) (?d 0 s)" env]
      dequeue_stopped(2,4) [OF ok, of 3 "?d 2 (?d (Suc 0) (?d 0 s))" env] r by simp
qed

lemma quiet_inv:
  "udc_wf V s \<Longrightarrow> owned own (V (stack s)) \<Longrightarrow> \<forall>i < 4. quiet s i \<Longrightarrow> udc_inv V own s"
  by (simp add: udc_inv_def quiet_ok)

definition disable_start :: "'z udc_dev \<Rightarrow> 'z udc_dev" where
  "disable_start s = wch_ack 0xff (wch_write WCH_PORT 0 (wch_write WCH_CTRL 0
     (wch_write WCH_INT_EN 0 (s\<lparr>running := False\<rparr>))))"

lemma disable_start_facts [simp]:
  "stack (disable_start s) = stack s" "eps (disable_start s) = eps s" "\<not> running (disable_start s)"
  "udc_wf V (disable_start s) = udc_wf V s"
  by (simp_all add: disable_start_def wch_ack_def wch_write_def)

lemma disable_eq:
  "wch_disable Z env s = (Ok, (fold (\<lambda>i s. snd (wch_dequeue Z env i s)) [0..<4] (disable_start s))
     \<lparr>setup_pending := False, setup_valid := False\<rparr>)"
  by (simp add: wch_disable_def disable_start_def Let_def)

lemma disable_keeps:
  assumes ok: "udc_stack_ok Z V"
  shows "udc_keeps V own s (snd (wch_disable Z env s))"
proof -
  let ?d = "fold (\<lambda>i s. snd (wch_dequeue Z env i s)) [0..<4] (disable_start s)"
  have "udc_inv V own ?d \<and> returns V own s ?d" if "udc_inv V own s"
  proof -
    have w: "udc_wf V (disable_start s)" "owned own (V (stack (disable_start s)))"
      using that by (auto simp: udc_inv_def)
    have "returns V own s (disable_start s)" by (simp add: returns_same)
    then show ?thesis
      using dequeue_all(1) [OF ok _ w refl, of env] quiet_inv [of V ?d own] returns_trans [of V own s "disable_start s" ?d]
      by simp
  qed
  then have "udc_keeps V own s ?d" by (simp add: udc_keeps_def)
  then show ?thesis using keeps_trans [OF _ keeps_flags] by (simp add: disable_eq)
qed

lemma work_keeps:
  assumes ok: "udc_stack_ok Z V" "setup_received_ok Z V own"
  shows "udc_keeps V own s (wch_work Z env s)"
proof -
  have susp: "udc_keeps V own t (work_suspend Z t)" for t
    unfolding work_suspend_def Let_def
    by (rule keeps_trans [OF keeps_trans [OF keeps_bus keeps_bus] keeps_ack])
      (auto simp: stack_laws [OF ok(1)])
  have tr: "udc_keeps V own t (wch_ack WCH_TRANSFER (wch_transfer Z tok t))" for t tok
    using keeps_trans [OF keeps_transfer [OF ok] keeps_ack] .
  have ov: "udc_keeps V own t (upd_stack (udc_submit_event Z UDC_EVT_ERROR e) (snd (wch_disable Z env t)))" for t e
    by (rule keeps_trans [OF disable_keeps [OF ok(1)] keeps_bus]) (auto simp: stack_laws [OF ok(1)])
  have rs: "udc_keeps V own t (wch_ack f (wch_reset Z t))" for t f
    using keeps_trans [OF reset_keeps [OF ok(1)] keeps_ack] .
  have fl: "udc_keeps V own s (work_flags Z env s)"
    unfolding work_flags_def Let_def using rs ov tr susp keeps_trans [OF tr susp] by auto
  have ks: "udc_keeps V own t (fold (wch_kick Z) [0..<4] t)" for t
    unfolding fold4 by (intro keeps_trans [OF _ keeps_kick [OF ok(1)]]) auto
  have "udc_keeps V own t (wch_write WCH_INT_EN WCH_IRQS (fold (wch_kick Z) [0..<4] t))" for t
    unfolding wch_write_def by (rule then_reg [OF ks]) (simp add: WCH_INT_EN_def)
  then show ?thesis
    using fl keeps_trans [OF fl] by (auto simp: wch_work_def Let_def)
qed

lemma isr_keeps: "udc_keeps V own s (wch_isr s)"
proof -
  have "ep_ok V (t\<lparr>work_submitted := b\<rparr>) i = ep_ok V t i" for t :: "'a udc_dev" and b i
    by (simp add: ep_ok_def in_staged_def sys_read16_def)
  then have "udc_keeps V own t (t\<lparr>work_submitted := b\<rparr>)" for t :: "'a udc_dev" and b
    by (simp add: udc_keeps_def udc_inv_def returns_same)
  moreover have "udc_keeps V own s (wch_write WCH_INT_EN 0 s)"
    by (simp add: wch_write_def WCH_INT_EN_def keeps_reg)
  ultimately show ?thesis unfolding wch_isr_def by (blast intro: keeps_trans)
qed

lemma enable_keeps: "udc_keeps V own s (snd (wch_enable s))"
proof -
  have "ep_ok V s i \<Longrightarrow> ep_ok V (s\<lparr>running := True\<rparr>) i" for i
    by (cases "stat_busy (eps s ! i)") (auto simp: ep_ok_def Let_def in_staged_def sys_read16_def)
  then have "udc_keeps V own s (s\<lparr>running := True\<rparr>)" by (simp add: udc_keeps_def udc_inv_def returns_same)
  then show ?thesis
    unfolding wch_enable_def Let_def snd_conv wch_write_def wch_offsets
    by (intro then_reg keeps_trans [OF _ keeps_ack]) auto
qed

lemma address_keeps: "udc_keeps V own s (snd (wch_address a s))"
  by (simp add: wch_address_def wch_write_def WCH_ADDR_def keeps_reg)

section \<open>Enabling and disabling endpoints through the stack\<close>

lemma step_mps:
  assumes "m \<le> 64"
  shows "ep_step V own i s (upd_ep i (\<lambda>c. c\<lparr>mps := m, stat_halted := h\<rparr>) s)"
proof -
  have "udc_wf V (upd_ep i (\<lambda>c. c\<lparr>mps := m, stat_halted := h\<rparr>) s)" if w: "udc_wf V s"
  proof -
    have "\<forall>c \<in> set ((eps s)[i := (eps s ! i)\<lparr>mps := m, stat_halted := h\<rparr>]). mps c \<le> 64"
      using w assms by (intro ball_update) (auto simp: udc_wf_def)
    moreover have "map addr ((eps s)[i := (eps s ! i)\<lparr>mps := m, stat_halted := h\<rparr>]) = map addr (eps s)"
      by (cases "i < length (eps s)") (simp_all add: map_update list_update_same_conv list_update_beyond)
    ultimately show ?thesis using w by (simp add: udc_wf_def)
  qed
  then show ?thesis by (simp add: ep_step_def ep_same_simps returns_same)
qed

lemma keeps_quiet:
  "ep_step V own i s s' \<Longrightarrow> i < 4 \<Longrightarrow> (udc_inv V own s \<Longrightarrow> quiet s' i) \<Longrightarrow> udc_keeps V own s s'"
  by (rule keeps_step) (auto intro: quiet_ok)

lemma guarded_result:
  "(if c then (Err e, a) else (Ok, b)) = (r, s) \<Longrightarrow> s = (if r = Ok then b else a)"
  by (auto split: if_splits)

lemma ep_enable_keeps:
  assumes e: "enable_result wch_ep_enable s r s'"
  shows "udc_keeps V own s s'"
proof -
  have "udc_keeps V own s s'"
    if i: "i < 4" and n: "\<not> stat_enabled (eps s ! i)" and m: "m \<le> 64"
      and f: "wch_ep_enable i (upd_ep i (\<lambda>c. c\<lparr>mps := m, stat_halted := h\<rparr>) s) = (r, s1)"
      and s': "s' = (if r = Ok then upd_ep i (\<lambda>c. c\<lparr>stat_enabled := True\<rparr>) s1 else s1)" for i m h s1
  proof (rule keeps_quiet [OF _ i])
    let ?a = "upd_ep i (\<lambda>c. c\<lparr>mps := m, stat_halted := h\<rparr>) s" and ?ep = "addr (eps s ! i)"
    let ?b = "if ?ep = 0x81 then wch_write WCH_MODE1 64 ?a else if ?ep = 2 then wch_write WCH_MODE2 8 ?a else ?a"
    let ?c = "wch_write (ep_ctl ?ep) (if ?ep = 0 then WCH_ACK else WCH_NAK) ?b"
    have h: "addr (eps ?a ! i) = ?ep" by (cases "i < length (eps s)") (simp_all add: list_update_beyond)
    have s1: "s1 = (if r = Ok then udc_ep_set_busy i False (upd_ep i (\<lambda>c. c\<lparr>stat_halted := False\<rparr>) ?c) else ?a)"
      by (rule guarded_result [OF f [unfolded wch_ep_enable_def Let_def h]])
    have A: "ep_step V own i s ?a" using step_mps [OF m] .
    have R: "ep_step V own i t (set_mmio off v t)" if "off = 0xc \<or> off = 0xd" for off v and t :: "'a udc_dev"
      using that by (intro step_reg [OF i]) (auto simp: data_regs_def)
    have B: "ep_step V own i s ?b"
      using A by (auto simp: wch_write_def WCH_MODE1_def WCH_MODE2_def intro!: ep_step_trans [OF A R])
    have e: "eps ?b ! i = (eps ?a ! i)" "addr (eps ?a ! i) = ?ep"
      by (cases "i < length (eps s)"; simp add: wch_write_def list_update_beyond)+
    have C: "ep_step V own i s ?c"
      using ep_step_trans [OF B step_ctl [OF i]] e by (simp add: wch_write_def)
    show "ep_step V own i s s'"
      unfolding s' s1 using A C by (auto intro!: ep_step_trans [OF _ step_ep] ep_step_trans [OF _ step_busy])
    assume inv: "udc_inv V own s"
    have b: "\<not> stat_busy (eps s ! i)" using inv i n by (auto simp: udc_inv_def ep_ok_def Let_def)
    have w: "udc_wf V s" using inv by (simp add: udc_inv_def)
    have "?ep \<noteq> 0" if "2 \<le> i" using that i wf_addr(3,4) [OF w] by (auto simp: less4)
    with inv_addr [OF inv _ i] have "quiet (upd_ep i (\<lambda>c. c\<lparr>stat_enabled := True\<rparr>)
        (udc_ep_set_busy i False (upd_ep i (\<lambda>c. c\<lparr>stat_halted := False\<rparr>) ?c))) i"
      using inv_len [OF inv] i by (cases "2 \<le> i") (simp_all add: quiet_def udc_ep_set_busy_def wch_write_def)
    moreover have "quiet ?a i" using b n inv_len [OF inv] i by (simp add: quiet_def)
    ultimately show "quiet s' i" by (simp add: s' s1)
  qed
  then show ?thesis using e by (auto simp: enable_result_def)
qed

lemma ep_disable_keeps:
  assumes ok: "udc_stack_ok Z V" "setup_received_ok Z V own" "hw_env env"
    and e: "disable_result (wch_ep_disable Z env) s r s'"
  shows "udc_keeps V own s s'"
proof -
  have "udc_inv V own s' \<and> returns V own s s'"
    if inv: "udc_inv V own s" and i: "i < 4" and f: "wch_ep_disable Z env i s = (r, s1)"
      and s': "s' = (if r = Ok then upd_ep i (\<lambda>c. c\<lparr>stat_enabled := False\<rparr>) s1 else s1)" for i s1
  proof -
    obtain r0 s0 where q: "wch_dequeue Z env i s = (r0, s0)" by force
    note d = dequeue_result [OF ok i inv q]
    let ?m = "if addr (eps s0 ! i) = 0x81 then wch_write WCH_MODE1 0 s0
      else if addr (eps s0 ! i) = 0x02 then wch_write WCH_MODE2 0 s0 else s0"
    have r: "r = r0" and s1: "s1 = (if r0 = Ok then ?m else s0)"
      using f q unfolding wch_ep_disable_def by (auto split: sum.splits)
    show ?thesis
    proof (cases "r0 = Ok")
      case True
      have k: "udc_keeps V own s0 ?m" by (simp add: wch_write_def WCH_MODE1_def WCH_MODE2_def keeps_reg)
      have "udc_keeps V own ?m (upd_ep i (\<lambda>c. c\<lparr>stat_enabled := False\<rparr>) ?m)"
        using d True inv_len [of V own s0] i by (intro keeps_quiet [OF step_ep i]) (auto simp: quiet_def wch_write_def)
      with k have "udc_keeps V own s0 s'" using True r s1 s' keeps_trans by auto
      then show ?thesis using d returns_trans [of V own s s0 s'] by (simp add: udc_keeps_def)
    next
      case False
      then show ?thesis using d r s1 s' by simp
    qed
  qed
  then show ?thesis using e by (auto simp: disable_result_def udc_keeps_def)
qed

end
