(* ===== verification/Udc_Soc.thy ===== *)
theory Udc_Soc
  imports Udc_Wch
begin

text \<open>
  \<^verbatim>\<open>drivers/usb/udc_wch_ch32v203.h\<close>: clock, divider and pin preparation on the CH32V203 and
  its undoing.  The register masks come from the vendor HAL, the clock driver from Zephyr: both
  are fields of \<open>soc_env\<close>.
\<close>

unbundle bit_operations_syntax

record soc_env =
  clock_dev_ready :: bool
  clock_control_on :: "u32 \<Rightarrow> int" \<comment> \<open>result by clock\<close>
  SYS_CLOCK_HW_CYCLES :: u32
  CLOCK_AFIO :: u32
  RCC_SWS :: u32
  RCC_SWS_PLL :: u32
  RCC_HPRE :: u32
  RCC_USBPRE :: u32
  RCC_USBPRE_DIV1 :: u32
  RCC_USBPRE_DIV2 :: u32
  RCC_USBPRE_DIV3 :: u32
  AFIO_SWJ_CFG :: u32
  AFIO_SWJ_CFG_DISABLE :: u32

definition upd_soc :: "(udc_soc \<Rightarrow> udc_soc) \<Rightarrow> 'z udc_dev \<Rightarrow> 'z udc_dev" where
  "upd_soc f s = s\<lparr>soc := f (soc s)\<rparr>"

definition clock_call :: "bool \<Rightarrow> u32 \<Rightarrow> 'z udc_dev \<Rightarrow> 'z udc_dev" where
  "clock_call b c = upd_soc (\<lambda>x. x\<lparr>clock_calls := clock_calls x @ [(b, c)]\<rparr>)"

text \<open>\<^verbatim>\<open>(reg & ~mask) | value\<close>\<close>

definition field_set :: "u32 \<Rightarrow> u32 \<Rightarrow> u32 \<Rightarrow> u32" where
  "field_set m v r = (r AND NOT m) OR v"

text \<open>The divider of the PLL frequency, and \<^verbatim>\<open>default: return -ENOTSUP\<close>.\<close>

definition usb_divider :: "soc_env \<Rightarrow> u32 \<Rightarrow> u32 option" where
  "usb_divider E hz =
     (if hz = 48000000 then Some (RCC_USBPRE_DIV1 E)
      else if hz = 96000000 then Some (RCC_USBPRE_DIV2 E)
      else if hz = 144000000 then Some (RCC_USBPRE_DIV3 E) else None)"

definition wch_prepare :: "soc_env \<Rightarrow> 'y wch_udc_config \<Rightarrow> 'z udc_dev \<Rightarrow> unit res \<times> 'z udc_dev" where
  "wch_prepare E K s =
     (if \<not> clock_dev_ready E then (Err ENODEV, s)
      else if pll_hz K \<noteq> SYS_CLOCK_HW_CYCLES E \<or> RCC_CFGR0 (soc s) AND RCC_SWS E \<noteq> RCC_SWS_PLL E \<or>
              RCC_CFGR0 (soc s) AND RCC_HPRE E \<noteq> 0 then (Err ENOTSUP, s)
      else case usb_divider E (pll_hz K) of
        None \<Rightarrow> (Err ENOTSUP, s)
      | Some divider \<Rightarrow>
          let s1 = clock_call True (clock_id K) s
          in if clock_control_on E (clock_id K) \<noteq> 0
             then (Err (ERet (clock_control_on E (clock_id K))), s1)
             else
               let s2 = s1\<lparr>saved_usbpre := RCC_CFGR0 (soc s1) AND RCC_USBPRE E\<rparr>;
                   s3 = upd_soc (\<lambda>x. x\<lparr>RCC_CFGR0 := field_set (RCC_USBPRE E) divider (RCC_CFGR0 x)\<rparr>) s2
               in if \<not> release_sdi K then (Ok, s3)
                  else let s4 = clock_call True (CLOCK_AFIO E) s3
                       in if clock_control_on E (CLOCK_AFIO E) \<noteq> 0
                          then (Err (ERet (clock_control_on E (CLOCK_AFIO E))),
                                clock_call False (clock_id K)
                                  (upd_soc (\<lambda>x. x\<lparr>RCC_CFGR0 :=
                                     field_set (RCC_USBPRE E) (saved_usbpre s4) (RCC_CFGR0 x)\<rparr>) s4))
                          else let s5 = s4\<lparr>saved_sdi := AFIO_PCFR1 (soc s4) AND AFIO_SWJ_CFG E\<rparr>
                               in (Ok, upd_soc (\<lambda>x. x\<lparr>AFIO_PCFR1 :=
                                     field_set (AFIO_SWJ_CFG E) (AFIO_SWJ_CFG_DISABLE E) (AFIO_PCFR1 x)\<rparr>) s5))"

definition wch_unprepare :: "soc_env \<Rightarrow> 'y wch_udc_config \<Rightarrow> 'z udc_dev \<Rightarrow> 'z udc_dev" where
  "wch_unprepare E K s =
     (let s1 = (if release_sdi K
                then upd_soc (\<lambda>x. x\<lparr>AFIO_PCFR1 := field_set (AFIO_SWJ_CFG E) (saved_sdi s) (AFIO_PCFR1 x)\<rparr>) s
                else s);
          s2 = upd_soc (\<lambda>x. x\<lparr>RCC_CFGR0 := field_set (RCC_USBPRE E) (saved_usbpre s1) (RCC_CFGR0 x)\<rparr>) s1
      in clock_call False (clock_id K) s2)"

definition wch_irq_config :: "'z udc_dev \<Rightarrow> 'z udc_dev" where
  "wch_irq_config s = s\<lparr>irq_on := True\<rparr>"

text \<open>The build-time assertions of the instance macro, on a device-tree node.\<close>

record udc_dt_node =
  dt_disable_sdi :: bool
  dt_udc_reg :: u32
  dt_udc_clock :: u32

definition WCH_UDC_DT_CHECK :: "bool \<Rightarrow> u32 \<Rightarrow> udc_dt_node \<Rightarrow> bool" where
  "WCH_UDC_DT_CHECK release_enabled clock_otg n \<longleftrightarrow>
     (\<not> dt_disable_sdi n \<or> release_enabled) \<and> dt_udc_reg n = 0x50000000 \<and> dt_udc_clock n = clock_otg"

text \<open>The function pointers \<^verbatim>\<open>WCH_UDC_DEFINE\<close> installs.\<close>

definition wch_config :: "soc_env \<Rightarrow> 'z wch_udc_config \<Rightarrow> 'z wch_udc_config" where
  "wch_config E K = K\<lparr>prepare := wch_prepare E K, unprepare := wch_unprepare E K, irq_config := wch_irq_config\<rparr>"

end
