(* ===== verification/Udc_Props.thy ===== *)
theory Udc_Props
  imports Udc_Api Udc_Soc
begin

text \<open>
  The properties of the USB device controller driver, for any USB stack that keeps the contract of
  \<open>Udc_Stack\<close>.
\<close>

unbundle bit_operations_syntax

section \<open>Initialisation and shutdown\<close>

lemma keeps_frame:
  assumes "mmio s' = mmio s" "eps s' = eps s" "packet s' = packet s" "in_length s' = in_length s"
    "running s' = running s" "stack s' = stack s"
  shows "udc_keeps V own s s'"
proof -
  have "ep_ok V s' i = ep_ok V s i" for i by (simp add: ep_ok_def in_staged_def sys_read16_def assms)
  then show ?thesis by (simp add: udc_keeps_def udc_inv_def udc_wf_def returns_same assms)
qed

text \<open>The SoC code touches only the SoC registers and the two saved fields.\<close>

lemma prepare_keeps: "wch_prepare E K s = (r, s') \<Longrightarrow> udc_keeps V own s s'"
  by (rule keeps_frame)
    (auto simp: wch_prepare_def clock_call_def upd_soc_def Let_def split: if_splits option.splits)

lemma unprepare_keeps: "udc_keeps V own s (wch_unprepare E K s)"
  by (rule keeps_frame) (simp_all add: wch_unprepare_def clock_call_def upd_soc_def Let_def)

lemma irq_config_keeps: "udc_keeps V own s (wch_irq_config s)"
  by (rule keeps_frame) (simp_all add: wch_irq_config_def)

lemma init_regs_keeps: "udc_keeps V own s (init_regs K s)"
proof -
  have u: "[0..<3] = [0, Suc 0, 2]" by (simp add: upt_rec numeral_2_eq_2)
  show ?thesis
    unfolding init_regs_def Let_def u
    by (auto simp: sys_write32_def wch_write_def wch_offsets intro!: then_reg keeps_trans [OF _ keeps_ack])
qed

lemma internal_keeps:
  assumes ok: "udc_stack_ok Z V" "setup_received_ok Z V own" "internal_ok Z" and e: "hw_env env"
  shows "udc_keeps V own s (snd (udc_ep_enable_internal Z wch_ep_enable a 64 s))"
    and "udc_keeps V own s (snd (udc_ep_disable_internal Z (wch_ep_disable Z env) a s))"
proof -
  have "enable_result wch_ep_enable s r s'" if "udc_ep_enable_internal Z wch_ep_enable a 64 s = (r, s')" for r s'
    using ok(3) that unfolding internal_ok_def by blast
  then show "udc_keeps V own s (snd (udc_ep_enable_internal Z wch_ep_enable a 64 s))"
    using ep_enable_keeps by (metis prod.collapse)
  have "disable_result (wch_ep_disable Z env) s r s'"
    if "udc_ep_disable_internal Z (wch_ep_disable Z env) a s = (r, s')" for r s'
    using ok(3) that unfolding internal_ok_def by blast
  then show "udc_keeps V own s (snd (udc_ep_disable_internal Z (wch_ep_disable Z env) a s))"
    using ep_disable_keeps [OF ok(1,2) e] by (metis prod.collapse)
qed

lemma init_keeps:
  assumes ok: "udc_stack_ok Z V" "setup_received_ok Z V own" "internal_ok Z" and e: "hw_env env"
  shows "udc_keeps V own s (snd (wch_init Z env (wch_config E K) s))"
proof -
  let ?C = "wch_config E K" and ?en = "udc_ep_enable_internal Z wch_ep_enable"
  have f: "prepare ?C = wch_prepare E K" "unprepare ?C = wch_unprepare E K" "irq_config ?C = wch_irq_config"
    by (simp_all add: wch_config_def)
  obtain r1 s1 where p: "wch_prepare E K s = (r1, s1)" by force
  obtain r2 s2 where a: "?en 0 64 (init_regs ?C s1) = (r2, s2)" by force
  obtain r3 s3 where b: "?en 0x80 64 s2 = (r3, s3)" by force
  note k = internal_keeps [OF ok e]
  have 1: "udc_keeps V own s s1" using prepare_keeps [OF p] .
  have 2: "udc_keeps V own s s2"
    using keeps_trans [OF keeps_trans [OF 1 init_regs_keeps [of V own s1 ?C]] k(1), of 0] a by simp
  have 3: "udc_keeps V own s s3" using keeps_trans [OF 2 k(1), of "0x80"] b by simp
  have u: "udc_keeps V own s (wch_unprepare E K (snd (udc_ep_disable_internal Z (wch_ep_disable Z env) 0 t)))"
    if "udc_keeps V own s t" for t
    using keeps_trans [OF keeps_trans [OF that k(2)] unprepare_keeps] .
  show ?thesis
    using 1 u [OF 2] u [OF 3] keeps_trans [OF 3 irq_config_keeps]
    by (simp add: wch_init_def f p a b split: sum.split)
qed

lemma shutdown_keeps:
  assumes ok: "udc_stack_ok Z V" "setup_received_ok Z V own" "internal_ok Z" and e: "hw_env env"
  shows "udc_keeps V own s (snd (wch_shutdown Z env (wch_config E K) s))"
proof -
  note k = internal_keeps(2) [OF ok e]
  have "unprepare (wch_config E K) = wch_unprepare E K" by (simp add: wch_config_def)
  then show ?thesis
    using keeps_trans [OF keeps_trans [OF keeps_trans [OF disable_keeps [OF ok(1)] k] k] unprepare_keeps]
    by (simp add: wch_shutdown_def Let_def)
qed

section \<open>The controller as a transition system\<close>

text \<open>
  Steps of the driver under the UDC mutex, of its interrupt handler, of the stack (which takes a
  pending SETUP), of the hardware and of the application (which may change buffers that are not
  queued).  The label lists the buffers the
  driver accepted; \<open>own b\<close> is the endpoint a buffer was allocated for.
\<close>

inductive udc_step ::
  "'z udc_ext \<Rightarrow> ('z \<Rightarrow> udc_view) \<Rightarrow> (nat \<Rightarrow> nat) \<Rightarrow> 'z udc_dev \<Rightarrow> nat list \<Rightarrow> 'z udc_dev \<Rightarrow> bool"
  for Z V own where
  us_enqueue: "own b < 4 \<Longrightarrow> wch_enqueue Z (own b) b s = (r, s') \<Longrightarrow>
     udc_step Z V own s (if r = Ok then [b] else []) s'"
| us_dequeue: "i < 4 \<Longrightarrow> hw_env env \<Longrightarrow> wch_dequeue Z env i s = (r, s') \<Longrightarrow> udc_step Z V own s [] s'"
| us_halt: "i < 4 \<Longrightarrow> hw_env env \<Longrightarrow> wch_halt Z env i s = (r, s') \<Longrightarrow> udc_step Z V own s [] s'"
| us_clear_halt: "i < 4 \<Longrightarrow> wch_clear_halt Z i s = (r, s') \<Longrightarrow> udc_step Z V own s [] s'"
| us_ep_enable: "enable_result wch_ep_enable s r s' \<Longrightarrow> udc_step Z V own s [] s'"
| us_ep_disable: "hw_env env \<Longrightarrow> disable_result (wch_ep_disable Z env) s r s' \<Longrightarrow> udc_step Z V own s [] s'"
| us_address: "wch_address a s = (r, s') \<Longrightarrow> udc_step Z V own s [] s'"
| us_enable: "wch_enable s = (r, s') \<Longrightarrow> udc_step Z V own s [] s'"
| us_disable: "wch_disable Z env s = (r, s') \<Longrightarrow> udc_step Z V own s [] s'"
| us_init: "hw_env env \<Longrightarrow> wch_init Z env (wch_config E K) s = (r, s') \<Longrightarrow> udc_step Z V own s [] s'"
| us_shutdown: "hw_env env \<Longrightarrow> wch_shutdown Z env (wch_config E K) s = (r, s') \<Longrightarrow> udc_step Z V own s [] s'"
| us_setup_taken: "udc_step Z V own s [] (s\<lparr>setup_pending := False, setup_valid := v\<rparr>)"
| us_isr: "udc_step Z V own s [] (wch_isr s)"
| us_work: "udc_step Z V own s [] (wch_work Z env s)"
| us_hw: "hw_change s s' \<Longrightarrow> udc_step Z V own s [] s'"
| us_app: "V z = (V (stack s))\<lparr>vbuf := f\<rparr> \<Longrightarrow> (\<And>b i. b \<in> set (vq (V (stack s)) i) \<Longrightarrow> f b = vbuf (V (stack s)) b) \<Longrightarrow>
     udc_step Z V own s [] (s\<lparr>stack := z\<rparr>)"

inductive udc_run ::
  "'z udc_ext \<Rightarrow> ('z \<Rightarrow> udc_view) \<Rightarrow> (nat \<Rightarrow> nat) \<Rightarrow> 'z udc_dev \<Rightarrow> nat list \<Rightarrow> 'z udc_dev \<Rightarrow> bool"
  for Z V own where
  ur_refl: "udc_run Z V own s [] s"
| ur_step: "udc_run Z V own s l t \<Longrightarrow> udc_step Z V own t k u \<Longrightarrow> udc_run Z V own s (l @ k) u"

text \<open>Each step keeps the invariant and lends or returns in order.\<close>

definition lends :: "('z \<Rightarrow> udc_view) \<Rightarrow> (nat \<Rightarrow> nat) \<Rightarrow> 'z udc_dev \<Rightarrow> nat list \<Rightarrow> 'z udc_dev \<Rightarrow> bool" where
  "lends V own s l s' \<longleftrightarrow> (\<exists>es. vevs (V (stack s')) = vevs (V (stack s)) @ es \<and>
     (\<forall>i \<ge> 2. vq (V (stack s)) i @ filter (\<lambda>b. own b = i) l = ret own i es @ vq (V (stack s')) i))"

lemma lends_returns: "returns V own s s' \<Longrightarrow> lends V own s [] s'"
  by (simp add: returns_def lends_def)

lemma lends_trans:
  assumes "lends V own s l t" "lends V own t k u"
  shows "lends V own s (l @ k) u"
proof -
  obtain es fs where e: "vevs (V (stack t)) = vevs (V (stack s)) @ es"
    "\<forall>i \<ge> 2. vq (V (stack s)) i @ filter (\<lambda>b. own b = i) l = ret own i es @ vq (V (stack t)) i"
    and f: "vevs (V (stack u)) = vevs (V (stack t)) @ fs"
    "\<forall>i \<ge> 2. vq (V (stack t)) i @ filter (\<lambda>b. own b = i) k = ret own i fs @ vq (V (stack u)) i"
    using assms by (auto simp: lends_def)
  have "vq (V (stack s)) i @ filter (\<lambda>b. own b = i) (l @ k) = ret own i (es @ fs) @ vq (V (stack u)) i"
    if "i \<ge> 2" for i
  proof -
    have "vq (V (stack s)) i @ filter (\<lambda>b. own b = i) (l @ k) =
        (ret own i es @ vq (V (stack t)) i) @ filter (\<lambda>b. own b = i) k"
      unfolding e(2) [rule_format, OF that, symmetric] by simp
    also have "\<dots> = ret own i es @ ret own i fs @ vq (V (stack u)) i"
      unfolding f(2) [rule_format, OF that, symmetric] by simp
    finally show ?thesis by simp
  qed
  then show ?thesis using e(1) f(1) unfolding lends_def by (intro exI [of _ "es @ fs"]) simp
qed

lemma app_inv:
  assumes inv: "udc_inv V own s" and z: "V z = (V (stack s))\<lparr>vbuf := f\<rparr>"
    and f: "\<And>b i. b \<in> set (vq (V (stack s)) i) \<Longrightarrow> f b = vbuf (V (stack s)) b"
  shows "udc_inv V own (s\<lparr>stack := z\<rparr>)"
proof -
  have "ep_ok V (s\<lparr>stack := z\<rparr>) i" if "i < 4" for i
  proof -
    have k: "ep_ok V s i" using inv that by (simp add: udc_inv_def)
    show ?thesis
    proof (cases "stat_busy (eps s ! i)")
      case True
      then have "vq (V (stack s)) i \<noteq> []" using k by (simp add: ep_ok_def Let_def)
      then have "f (hd (vq (V (stack s)) i)) = vbuf (V (stack s)) (hd (vq (V (stack s)) i))"
        using f [OF hd_in_set] by blast
      then show ?thesis using k True by (auto simp: ep_ok_def Let_def z in_staged_def)
    next
      case False
      then show ?thesis using k by (simp add: ep_ok_def Let_def)
    qed
  qed
  then show ?thesis using inv by (simp add: udc_inv_def udc_wf_def owned_def z)
qed

lemma udc_step_ok:
  assumes ok: "udc_stack_ok Z V" "setup_received_ok Z V own" "internal_ok Z" and inv: "udc_inv V own s"
    and st: "udc_step Z V own s l s'"
  shows "udc_inv V own s' \<and> lends V own s l s'"
proof -
  have k: "udc_inv V own t \<and> lends V own s [] t" if "udc_keeps V own s t" for t
    using that inv lends_returns by (auto simp: udc_keeps_def)
  show ?thesis
    using st inv
  proof (cases rule: udc_step.cases)
    case (us_enqueue b r)
    then show ?thesis
      using enqueue_result [OF ok(1) us_enqueue(2) refl inv us_enqueue(3)]
      by (auto simp: lends_def)
  next
    case (us_dequeue i env r)
    then show ?thesis using dequeue_result [OF ok(1,2) _ _ inv] lends_returns by blast
  next
    case (us_halt i env r)
    then show ?thesis using halt_result [OF ok(1,2) _ _ inv] lends_returns by blast
  next
    case (us_clear_halt i r)
    then show ?thesis using clear_halt_keeps [OF ok(1), of i own s] k by auto
  next
    case (us_ep_enable r)
    then show ?thesis using ep_enable_keeps k by blast
  next
    case (us_ep_disable env r)
    then show ?thesis using ep_disable_keeps [OF ok(1,2)] k by blast
  next
    case (us_address a r)
    then show ?thesis using address_keeps [of V own s a] k by simp
  next
    case (us_enable r)
    then show ?thesis using enable_keeps [of V own s] k by simp
  next
    case (us_disable env r)
    then show ?thesis using disable_keeps [OF ok(1), of own s env] k by simp
  next
    case (us_init env E K r)
    then show ?thesis using init_keeps [OF ok, of env s E K] k by simp
  next
    case (us_shutdown env E K r)
    then show ?thesis using shutdown_keeps [OF ok, of env s E K] k by simp
  next
    case (us_setup_taken v)
    then show ?thesis using keeps_flags k by blast
  next
    case us_isr
    then show ?thesis using isr_keeps k by blast
  next
    case (us_work env)
    then show ?thesis using work_keeps [OF ok(1,2)] k by blast
  next
    case us_hw
    then show ?thesis using keeps_hw k by blast
  next
    case (us_app z f)
    then show ?thesis using app_inv [OF inv us_app(3,4)] by (simp add: lends_def)
  qed
qed

lemma udc_run_ok:
  assumes ok: "udc_stack_ok Z V" "setup_received_ok Z V own" "internal_ok Z"
  shows "udc_run Z V own s l s' \<Longrightarrow> udc_inv V own s \<Longrightarrow> udc_inv V own s' \<and> lends V own s l s'"
proof (induction rule: udc_run.induct)
  case (ur_refl s)
  then show ?case by (simp add: lends_def)
next
  case (ur_step s l t k u)
  then show ?case using udc_step_ok [OF ok] lends_trans by blast
qed

section \<open>From start-up\<close>

text \<open>The driver's static data before \<^verbatim>\<open>wch_preinit\<close>, with any register contents.\<close>

definition zero_ep :: udc_ep_config where
  "zero_ep = \<lparr>addr = 0, mps = 0, stat_enabled = False, stat_halted = False, stat_busy = False, caps_mps = 0,
     caps_in = False, caps_out = False, caps_control = False, caps_bulk = False\<rparr>"

definition udc_static :: "(nat \<Rightarrow> u8) \<Rightarrow> udc_soc \<Rightarrow> 'z \<Rightarrow> 'z udc_dev" where
  "udc_static m c z = \<lparr>mmio = m, eps = replicate 4 zero_ep, packet = replicate 3 (replicate 64 0),
     in_length = replicate 3 0, running = False, saved_sdi = 0, saved_usbpre = 0, work_submitted = False,
     setup_pending = False, setup_valid = False, caps_mps0 = UDC_MPS0_UNSET, irq_on = False, soc = c, stack = z\<rparr>"

text \<open>\<^verbatim>\<open>udc_register_ep\<close> on a fresh address: it succeeds and enters the endpoint in the lookup table.\<close>

definition register_ok :: "'z udc_ext \<Rightarrow> ('z \<Rightarrow> udc_view) \<Rightarrow> bool" where
  "register_ok Z V \<longleftrightarrow> (\<forall>i a z. vtab (V z) a = None \<longrightarrow> fst (udc_register_ep Z i a z) = 0 \<and>
     V (snd (udc_register_ep Z i a z)) = (V z)\<lparr>vtab := (vtab (V z))(a := Some i)\<rparr>)"

definition empty_view :: "udc_view \<Rightarrow> bool" where
  "empty_view v \<longleftrightarrow> vq v = (\<lambda>_. []) \<and> vevs v = [] \<and> vtab v = (\<lambda>_. None)"

lemma preinit_state:
  assumes reg: "register_ok Z V" and z: "empty_view (V z)"
    and pre: "wch_preinit Z (udc_static m c z) = (r, s)"
  shows "r = Ok" "udc_inv V own s" "vevs (V (stack s)) = []" "vq (V (stack s)) = (\<lambda>_. [])"
    "caps_mps0 s = UDC_MPS0_64"
    "eps s = [
      zero_ep\<lparr>caps_mps := 64, caps_out := True, caps_control := True\<rparr>,
      zero_ep\<lparr>addr := 0x80, caps_mps := 64, caps_in := True, caps_control := True\<rparr>,
      zero_ep\<lparr>addr := 0x81, caps_mps := 64, caps_in := True, caps_bulk := True\<rparr>,
      zero_ep\<lparr>addr := 2, caps_mps := 64, caps_out := True, caps_bulk := True\<rparr>]"
proof -
  obtain z1 z2 z3 z4 where y:
    "udc_register_ep Z 0 0 z = (0, z1)" "udc_register_ep Z (Suc 0) 0x80 z1 = (0, z2)"
    "udc_register_ep Z 2 0x81 z2 = (0, z3)" "udc_register_ep Z 3 2 z3 = (0, z4)"
    and v: "V z1 = (V z)\<lparr>vtab := [0 \<mapsto> 0]\<rparr>" "V z2 = (V z)\<lparr>vtab := [0 \<mapsto> 0, 0x80 \<mapsto> Suc 0]\<rparr>"
    "V z3 = (V z)\<lparr>vtab := [0 \<mapsto> 0, 0x80 \<mapsto> Suc 0, 0x81 \<mapsto> 2]\<rparr>"
    "V z4 = (V z)\<lparr>vtab := [0 \<mapsto> 0, 0x80 \<mapsto> Suc 0, 0x81 \<mapsto> 2, 2 \<mapsto> 3]\<rparr>"
  proof -
    have n: "udc_register_ep Z i a x = (0, snd (udc_register_ep Z i a x)) \<and>
        V (snd (udc_register_ep Z i a x)) = (V x)\<lparr>vtab := (vtab (V x))(a \<mapsto> i)\<rparr>"
      if "vtab (V x) a = None" for i a x
      using reg that by (auto simp: register_ok_def prod_eq_iff)
    let ?z1 = "snd (udc_register_ep Z 0 0 z)" let ?z2 = "snd (udc_register_ep Z (Suc 0) 0x80 ?z1)"
    let ?z3 = "snd (udc_register_ep Z 2 0x81 ?z2)" let ?z4 = "snd (udc_register_ep Z 3 2 ?z3)"
    have e: "vtab (V z) = Map.empty" using z by (simp add: empty_view_def fun_eq_iff)
    have 1: "udc_register_ep Z 0 0 z = (0, ?z1)" "V ?z1 = (V z)\<lparr>vtab := [0 \<mapsto> 0]\<rparr>"
      using n [of z 0 0] e by auto
    have 2: "udc_register_ep Z (Suc 0) 0x80 ?z1 = (0, ?z2)" "V ?z2 = (V z)\<lparr>vtab := [0 \<mapsto> 0, 0x80 \<mapsto> Suc 0]\<rparr>"
      using n [of ?z1 "0x80" "Suc 0"] 1 by auto
    have 3: "udc_register_ep Z 2 0x81 ?z2 = (0, ?z3)" "V ?z3 = (V z)\<lparr>vtab := [0 \<mapsto> 0, 0x80 \<mapsto> Suc 0, 0x81 \<mapsto> 2]\<rparr>"
      using n [of ?z2 "0x81" 2] 2 by auto
    have 4: "udc_register_ep Z 3 2 ?z3 = (0, ?z4)" "V ?z4 = (V z)\<lparr>vtab := [0 \<mapsto> 0, 0x80 \<mapsto> Suc 0, 0x81 \<mapsto> 2, 2 \<mapsto> 3]\<rparr>"
      using n [of ?z3 2 3] 3 by auto
    show thesis using that 1 2 3 4 by blast
  qed
  have four: "replicate 4 x = [x, x, x, x]" for x :: udc_ep_config by (simp add: numeral_eq_Suc)
  have s: "r = Ok" "stack s = z4" "eps s = [
      zero_ep\<lparr>caps_mps := 64, caps_out := True, caps_control := True\<rparr>,
      zero_ep\<lparr>addr := 0x80, caps_mps := 64, caps_in := True, caps_control := True\<rparr>,
      zero_ep\<lparr>addr := 0x81, caps_mps := 64, caps_in := True, caps_bulk := True\<rparr>,
      zero_ep\<lparr>addr := 2, caps_mps := 64, caps_out := True, caps_bulk := True\<rparr>]"
    "packet s = replicate 3 (replicate 64 0)" "in_length s = replicate 3 0" "caps_mps0 s = UDC_MPS0_64"
    using pre y
    by (auto simp: wch_preinit_def udc_static_def preinit_addresses_def preinit_ep_def upd_ep_def four zero_ep_def
        numeral_2_eq_2 numeral_3_eq_3)
  have "udc_wf V s"
    using z by (auto simp: udc_wf_def s v preinit_addresses_def zero_ep_def WCH_PACKET_def ep_table_def fun_eq_iff)
  moreover have "owned own (V (stack s))" using z by (simp add: owned_def s v empty_view_def)
  moreover have "\<forall>i < 4. quiet s i" by (auto simp: less4 quiet_def s zero_ep_def)
  ultimately show "udc_inv V own s" by (rule quiet_inv)
  show "r = Ok" "vevs (V (stack s)) = []" "vq (V (stack s)) = (\<lambda>_. [])" "caps_mps0 s = UDC_MPS0_64"
    using z by (simp_all add: s v empty_view_def)
  show "eps s = [
      zero_ep\<lparr>caps_mps := 64, caps_out := True, caps_control := True\<rparr>,
      zero_ep\<lparr>addr := 0x80, caps_mps := 64, caps_in := True, caps_control := True\<rparr>,
      zero_ep\<lparr>addr := 0x81, caps_mps := 64, caps_in := True, caps_bulk := True\<rparr>,
      zero_ep\<lparr>addr := 2, caps_mps := 64, caps_out := True, caps_bulk := True\<rparr>]" by (rule s)
qed

section \<open>A small controller\<close>

text \<open>Buffer 7 holds three bytes to send; buffer 9 has room for 128 bytes.\<close>

definition udc_demo_view :: udc_view where
  "udc_demo_view = \<lparr>vq = (\<lambda>_. []), vbuf = (\<lambda>b. if b = 7 then \<lparr>nb_data = [1, 2, 3], nb_room = 0, nb_setup = False, nb_zlp = False\<rparr>
       else \<lparr>nb_data = [], nb_room = 128, nb_setup = False, nb_zlp = False\<rparr>),
     vevs = [], vtab = (\<lambda>_. None), vsusp = False\<rparr>"

definition udc_demo_static :: "udc_view udc_dev" where
  "udc_demo_static = udc_static (\<lambda>_. 0) \<lparr>RCC_CFGR0 = 0, AFIO_PCFR1 = 0, clock_calls = []\<rparr> udc_demo_view"

definition udc_demo_fresh :: "udc_view udc_dev" where
  "udc_demo_fresh = snd (wch_preinit list_stack udc_demo_static)"

definition udc_demo_up :: "udc_view udc_dev" where
  "udc_demo_up = snd (wch_enable (snd (udc_ep_enable_internal list_stack wch_ep_enable 0x02 64
     (snd (udc_ep_enable_internal list_stack wch_ep_enable 0x81 64 udc_demo_fresh)))))"

definition udc_demo_sending :: "udc_view udc_dev" where
  "udc_demo_sending = snd (wch_enqueue list_stack 2 7 udc_demo_up)"

definition udc_demo_own :: "nat \<Rightarrow> nat" where "udc_demo_own b = (if b = 7 then 2 else 3)"

lemma udc_demo_register: "register_ok list_stack id"
  by (simp add: register_ok_def list_stack_def)

lemma udc_demo_empty: "empty_view (id udc_demo_view)"
  by (simp add: empty_view_def udc_demo_view_def)

lemma udc_demo_preinit: "wch_preinit list_stack udc_demo_static = (Ok, udc_demo_fresh)"
  by (simp add: udc_demo_fresh_def wch_preinit_def preinit_addresses_def udc_demo_static_def list_stack_def Let_def)

lemma udc_demo_sending_facts:
  "vq (stack udc_demo_sending) 2 = [7]" "nb_data (vbuf (stack udc_demo_sending) 7) = [1, 2, 3]"
  "mps (eps udc_demo_sending ! 2) = 64" "stat_busy (eps udc_demo_sending ! 2)"
  by code_simp+

lemma udc_demo_up_run: "udc_run list_stack id udc_demo_own udc_demo_fresh [] udc_demo_up"
proof -
  let ?en = "udc_ep_enable_internal list_stack wch_ep_enable"
  have e: "udc_step list_stack id udc_demo_own s [] (snd (?en a 64 s))" for a s
    using list_internal_ok unfolding internal_ok_def
    by (metis order_refl prod.collapse us_ep_enable)
  have 1: "udc_run list_stack id udc_demo_own udc_demo_fresh [] (snd (?en 0x02 64 (snd (?en 0x81 64 udc_demo_fresh))))"
    using ur_step [OF ur_step [OF ur_refl e] e] by simp
  show ?thesis
    using ur_step [OF 1 us_enable [OF prod.collapse [symmetric]]] by (simp add: udc_demo_up_def)
qed

lemma udc_demo_run: "udc_run list_stack id udc_demo_own udc_demo_fresh [7] udc_demo_sending"
proof -
  have r: "running udc_demo_up" by (simp add: udc_demo_up_def wch_enable_def Let_def wch_access)
  have "wch_enqueue list_stack (udc_demo_own 7) 7 udc_demo_up = (Ok, udc_demo_sending)"
    using r by (simp add: wch_enqueue_def udc_demo_sending_def udc_demo_own_def)
  then show ?thesis
    using ur_step [OF udc_demo_up_run us_enqueue [of udc_demo_own 7 list_stack udc_demo_up Ok udc_demo_sending id]]
    by (simp add: udc_demo_own_def)
qed

text \<open>
  (C19) Pre-initialisation succeeds on the static data and leaves the controller with the four
  endpoints of its fixed table, their 64-byte packet size limit and directions, found by their
  addresses and by no other, none of them enabled; the invariant of all later states holds.
\<close>

theorem wch_preinit_establishes:
  assumes reg: "register_ok Z V" and z: "empty_view (V z)"
    and pre: "wch_preinit Z (udc_static m c z) = (r, s)"
  shows "r = Ok \<and> udc_inv V own s \<and> map addr (eps s) = [0, 0x80, 0x81, 0x02] \<and>
    map caps_in (eps s) = [False, True, True, False] \<and> map caps_out (eps s) = [True, False, False, True] \<and>
    (\<forall>k \<in> set (eps s). caps_mps k = 64 \<and> \<not> stat_enabled k) \<and>
    (\<forall>a. vtab (V (stack s)) a = ep_table a) \<and> caps_mps0 s = UDC_MPS0_64"
proof -
  note s = preinit_state [OF assms]
  have "vtab (V (stack s)) = ep_table" using s(2) [of own] by (simp add: udc_inv_def wf_tab)
  then show ?thesis using s by (simp add: zero_ep_def)
qed

theorem wch_preinit_establishes_witness:
  "fst (wch_preinit list_stack udc_demo_static) = Ok \<and> map addr (eps udc_demo_fresh) = [0, 0x80, 0x81, 0x02]"
  using wch_preinit_establishes [OF udc_demo_register udc_demo_empty udc_demo_preinit [unfolded udc_demo_static_def], of udc_demo_own]
    udc_demo_preinit by simp

text \<open>
  (C5) In every state a run can reach from start-up, whatever the host, the hardware, the stack and
  the interrupt handler do in between: the staging buffers keep their 64 bytes and no endpoint has
  a larger packet size; a busy endpoint belongs to a running controller, is enabled, not halted and
  has a request queued; the packet armed on the IN endpoint is the first part of that request, with
  its length in the length register; and an enabled data endpoint acknowledges packets only while
  it is busy with a request.
\<close>

theorem udc_endpoints_safe:
  assumes ok: "udc_stack_ok Z V" "setup_received_ok Z V own" "internal_ok Z" "register_ok Z V" "empty_view (V z)"
    and pre: "wch_preinit Z (udc_static m c z) = (r, s0)" and run: "udc_run Z V own s0 l s"
  shows "(\<forall>p \<in> set (packet s). length p = 64) \<and> (\<forall>i < 4. unat (mps (eps s ! i)) \<le> 64) \<and>
    (\<forall>i < 4. stat_busy (eps s ! i) \<longrightarrow> running s \<and> stat_enabled (eps s ! i) \<and> \<not> stat_halted (eps s ! i) \<and>
       vq (V (stack s)) i \<noteq> []) \<and>
    (stat_busy (eps s ! 2) \<longrightarrow>
       (let xs = nb_data (vbuf (V (stack s)) (hd (vq (V (stack s)) 2))); n = min (length xs) (unat (mps (eps s ! 2)))
        in take n (packet s ! 1) = take n xs \<and> unat (sys_read16 (WCH_TX_LEN 1) s) = n)) \<and>
    (\<forall>i \<in> {2, 3}. stat_enabled (eps s ! i) \<and> mmio s (ep_ctl (addr (eps s ! i))) AND 3 = WCH_ACK \<longrightarrow>
       stat_busy (eps s ! i))"
proof -
  have inv: "udc_inv V own s"
    using udc_run_ok [OF ok(1-3) run preinit_state(2) [OF ok(4,5) pre]] by blast
  then have w: "udc_wf V s" and e: "\<And>i. i < 4 \<Longrightarrow> ep_ok V s i" by (auto simp: udc_inv_def)
  have t: "take (min (length xs) k) xs = take k xs" for k and xs :: "u8 list" by (simp add: min_def)
  have "stat_enabled (eps s ! i) \<and> mmio s (ep_ctl (addr (eps s ! i))) AND 3 = WCH_ACK \<longrightarrow> stat_busy (eps s ! i)"
    if "i \<in> {2, 3}" for i
    using e [of i] that inv_addr [OF inv, of i] by (auto simp: ep_ok_def Let_def)
  moreover have "stat_busy (eps s ! i) \<longrightarrow> running s \<and> stat_enabled (eps s ! i) \<and> \<not> stat_halted (eps s ! i) \<and>
      vq (V (stack s)) i \<noteq> []" if "i < 4" for i
    using e [OF that] by (simp add: ep_ok_def Let_def)
  moreover have "stat_busy (eps s ! 2) \<longrightarrow> in_staged s (unat (mps (eps s ! 2)))
      (nb_data (vbuf (V (stack s)) (hd (vq (V (stack s)) 2))))"
    using e [of 2] by (simp add: ep_ok_def Let_def)
  moreover have "\<forall>p \<in> set (packet s). length p = 64" using w by (simp add: udc_wf_def WCH_PACKET_def)
  ultimately show ?thesis
    using wf_mps [OF w] by (simp add: in_staged_def Let_def t)
qed

theorem udc_endpoints_safe_witness:
  "stat_busy (eps udc_demo_sending ! 2) \<and> take 3 (packet udc_demo_sending ! 1) = [1, 2, 3] \<and>
   unat (sys_read16 (WCH_TX_LEN 1) udc_demo_sending) = 3"
  using udc_endpoints_safe [OF list_stack_ok list_setup_ok list_internal_ok udc_demo_register udc_demo_empty
      udc_demo_preinit [unfolded udc_demo_static_def] udc_demo_run] udc_demo_sending_facts by (simp add: Let_def numeral_3_eq_3)

text \<open>
  (C6) Over any run from start-up, the buffers the driver accepted for a data endpoint are exactly
  those it has returned with an event, each once and in the order they were accepted, followed by
  those still queued: no buffer is lost, returned twice or overtaken by a later one.
\<close>

theorem udc_loans_returned_once:
  assumes ok: "udc_stack_ok Z V" "setup_received_ok Z V own" "internal_ok Z" "register_ok Z V" "empty_view (V z)"
    and pre: "wch_preinit Z (udc_static m c z) = (r, s0)" and run: "udc_run Z V own s0 l s" and i: "i \<in> {2, 3}"
  shows "filter (\<lambda>b. own b = i) l =
    filter (\<lambda>b. own b = i) (List.map_filter ev_buf (vevs (V (stack s)))) @ vq (V (stack s)) i"
proof -
  note p = preinit_state(2,3,4) [OF ok(4,5) pre]
  have "lends V own s0 l s" using udc_run_ok [OF ok(1-3) run p(1)] by blast
  then show ?thesis using i by (auto simp: lends_def p(2,3) ret_def)
qed

theorem udc_loans_returned_once_witness: 
  "List.map_filter ev_buf (vevs (stack udc_demo_sending)) = [] \<and> vq (stack udc_demo_sending) 2 = [7]"
proof -
  have "filter (\<lambda>b. udc_demo_own b = 2) (List.map_filter ev_buf (vevs (stack udc_demo_sending))) = []"
    using udc_loans_returned_once [OF list_stack_ok list_setup_ok list_internal_ok udc_demo_register udc_demo_empty
        udc_demo_preinit [unfolded udc_demo_static_def] udc_demo_run, of 2] udc_demo_sending_facts(1) by (simp add: udc_demo_own_def)
  moreover have "vevs (stack udc_demo_sending) = []" by code_simp
  ultimately show ?thesis using udc_demo_sending_facts(1) by simp
qed

end
