(* ===== verification/Udc_Xfer.thy ===== *)
theory Udc_Xfer
  imports Udc_Props
begin

text \<open>
  Whole requests on the data endpoints: the packets the host sees of an IN request, and what an
  OUT request receives from the host's packets, with one run of the worker per packet.
\<close>

unbundle bit_operations_syntax

section \<open>The kicks at the end of a run of the worker\<close>

lemma kick_eps:
  assumes "udc_stack_ok Z V"
  shows "eps (wch_kick Z j s) = (if kick_guard V s j then (eps s)[j := (eps s ! j)\<lparr>stat_busy := True\<rparr>] else eps s)"
  by (simp add: kick_eq [OF assms] wch_access kick_stage_in_def Let_def)

lemma kicks_ep:
  assumes ok: "udc_stack_ok Z V" and w: "udc_wf V s" and i: "i = 2 \<or> i = 3"
  shows "eps (fold (wch_kick Z) [0..<4] s) ! i = (if kick_guard V s i then (eps s ! i)\<lparr>stat_busy := True\<rparr> else eps s ! i)"
    and "stack (fold (wch_kick Z) [0..<4] s) = stack s"
proof -
  define t where "t = wch_kick Z (Suc 0) (wch_kick Z 0 s)"
  have e: "eps t ! 2 = eps s ! 2" "eps t ! 3 = eps s ! 3" "length (eps t) = 4"
    using wf_len(1) [OF w] by (simp_all add: t_def kick_eps [OF ok])
  have f: "stack t = stack s" "running t = running s" by (simp_all add: t_def)
  have a: "USB_EP_GET_IDX (addr (eps s ! 2)) = Suc 0" "USB_EP_GET_IDX (addr (eps s ! 3)) = 2" using wf_addr [OF w] by simp_all
  have g: "kick_guard V t 2 = kick_guard V s 2" "kick_guard V (wch_kick Z 2 t) 3 = kick_guard V s 3"
    using e a by (simp_all add: kick_guard_def f kick_eps [OF ok])
  show "eps (fold (wch_kick Z) [0..<4] s) ! i = (if kick_guard V s i then (eps s ! i)\<lparr>stat_busy := True\<rparr> else eps s ! i)"
    using i e unfolding fold4 t_def [symmetric] by (auto simp: kick_eps [OF ok] g)
  show "stack (fold (wch_kick Z) [0..<4] s) = stack s" by (simp add: fold4)
qed

text \<open>The kicks leave a busy endpoint alone.\<close>

lemma kicks_same:
  assumes ok: "udc_stack_ok Z V"
  shows "udc_wf V s \<Longrightarrow> owned own (V (stack s)) \<Longrightarrow> stat_busy (eps s ! i) \<Longrightarrow> i < 4 \<Longrightarrow> \<forall>j \<in> set js. j < 4 \<Longrightarrow>
    ep_same V own i s (fold (wch_kick Z) js s)"
proof (induction js arbitrary: s)
  case (Cons j js)
  let ?t = "wch_kick Z j s"
  have "ep_step V own j s ?t" using step_kick [OF ok] Cons.prems(5) by simp
  then have t: "udc_wf V ?t" "owned own (V (stack ?t))" "j \<noteq> i \<Longrightarrow> ep_same V own i s ?t"
    using Cons.prems by (auto simp: ep_step_def)
  have "ep_same V own i s ?t"
    using t(3) Cons.prems(3) by (cases "j = i") (simp_all add: kick_eq [OF ok] kick_guard_def)
  moreover from this have "ep_same V own i ?t (fold (wch_kick Z) js ?t)"
    using Cons.IH [OF t(1,2)] Cons.prems(3,4,5) by (simp add: ep_same_def ep_state_def)
  ultimately show ?case using ep_same_trans [of V own i s ?t] by simp
qed simp

text \<open>The worker when the only flag is a transfer.\<close>

lemma transfer_flag: "\<not> has WCH_TRANSFER WCH_RESET" "\<not> has WCH_TRANSFER WCH_FIFO_OV" "has WCH_TRANSFER WCH_TRANSFER"
    "\<not> has WCH_TRANSFER WCH_SUSPEND" "WCH_TRANSFER \<noteq> 0"
  by (simp_all add: WCH_TRANSFER_def WCH_RESET_def WCH_FIFO_OV_def WCH_SUSPEND_def)

lemma work_transfer:
  assumes ok: "udc_stack_ok Z V" "setup_received_ok Z V own" and inv: "udc_inv V own s" and r: "running s"
    and fg: "mmio s WCH_INT_FG = WCH_TRANSFER" and i: "i = 2 \<or> i = 3"
    and t: "t = wch_transfer Z (mmio s WCH_INT_ST) s" and rt: "running t"
  shows "udc_inv V own (wch_work Z env s)" "stack (wch_work Z env s) = stack t"
    "eps (wch_work Z env s) ! i = (if kick_guard V t i then (eps t ! i)\<lparr>stat_busy := True\<rparr> else eps t ! i)"
proof -
  show "udc_inv V own (wch_work Z env s)" using work_keeps [OF ok, of s env] inv by (simp add: udc_keeps_def)
  have it: "udc_inv V own t" unfolding t using transfer_inv [OF ok inv] .
  let ?a = "wch_ack WCH_TRANSFER t"
  have a: "udc_wf V ?a" "stack ?a = stack t" "eps ?a = eps t" "running ?a = running t"
    using it by (simp_all add: wch_ack_def wch_write_def udc_inv_def)
  have g: "kick_guard V ?a i = kick_guard V t i"
    using i wf_addr(3,4) [of V t] it by (auto simp: kick_guard_def a udc_inv_def)
  have "wch_work Z env s = wch_write WCH_INT_EN WCH_IRQS (fold (wch_kick Z) [0..<4] ?a)"
    using r rt by (simp add: wch_work_def work_flags_def Let_def wch_read_def fg transfer_flag t [symmetric] a)
  then show "stack (wch_work Z env s) = stack t"
    "eps (wch_work Z env s) ! i = (if kick_guard V t i then (eps t ! i)\<lparr>stat_busy := True\<rparr> else eps t ! i)"
    using kicks_ep [OF ok(1) a(1) i] a g by (simp_all add: wch_write_def)
qed

section \<open>IN requests\<close>

text \<open>The host takes the staged packet: the controller latches a completed IN token of EP1.  The
  bytes on the wire are those of the staging buffer, as many as the length register says.\<close>

definition host_in :: "'z udc_dev \<Rightarrow> 'z udc_dev" where
  "host_in s = s\<lparr>mmio := (mmio s)(WCH_INT_FG := WCH_TRANSFER, WCH_INT_ST := WCH_TOKEN_IN OR 1)\<rparr>"

definition in_wire :: "'z udc_dev \<Rightarrow> u8 list" where
  "in_wire s = take (unat (sys_read16 (WCH_TX_LEN 1) s)) (packet s ! 1)"

fun in_cycles :: "'z udc_ext \<Rightarrow> (nat \<Rightarrow> 'z udc_dev \<Rightarrow> 'z udc_dev) \<Rightarrow> nat \<Rightarrow> 'z udc_dev \<Rightarrow> u8 list list \<times> 'z udc_dev" where
  "in_cycles Z env 0 s = ([], s)"
| "in_cycles Z env (Suc n) s =
     (let (ps, s') = in_cycles Z env n (wch_work Z env (host_in s)) in (in_wire s # ps, s'))"

text \<open>The packets of a request: full packets, then a shorter one, which is empty only if the
  request is, or if a terminating zero-length packet was asked for.\<close>

fun in_packets :: "nat \<Rightarrow> bool \<Rightarrow> u8 list \<Rightarrow> u8 list list" where
  "in_packets m zlp xs =
     (if m = 0 \<or> length xs < m then [xs]
      else if length xs = m then (if zlp then [xs, []] else [xs])
      else take m xs # in_packets m zlp (drop m xs))"

declare in_packets.simps [simp del]

lemma host_in_hw: "hw_change s (host_in s)"
  unfolding hw_change_def host_in_def
  by (rule exI [of _ "(mmio s)(WCH_INT_FG := WCH_TRANSFER, WCH_INT_ST := WCH_TOKEN_IN OR 1)"], rule exI [of _ "packet s"])
    (simp add: wch_offsets)

lemma tok_in:
  assumes "token AND 0x3f = WCH_TOKEN_IN OR 1"
  shows "tok_ep token = Some 2" "token AND 0x30 = WCH_TOKEN_IN"
    "WCH_TOKEN_IN \<noteq> WCH_TOKEN_SETUP" "WCH_TOKEN_IN \<noteq> WCH_TOKEN_OUT"
proof -
  have "token AND 0x30 = (token AND 0x3f) AND 0x30" "token AND 0xf = (token AND 0x3f) AND 0xf" by (simp_all add: and.assoc)
  then show "tok_ep token = Some 2" "token AND 0x30 = WCH_TOKEN_IN" "WCH_TOKEN_IN \<noteq> WCH_TOKEN_SETUP" "WCH_TOKEN_IN \<noteq> WCH_TOKEN_OUT"
    unfolding assms by (simp_all add: tok_ep_def WCH_TOKEN_IN_def WCH_TOKEN_SETUP_def WCH_TOKEN_OUT_def)
qed

text \<open>What a busy endpoint's invariant says, and the packet on the wire.\<close>

lemma busy_facts:
  assumes inv: "udc_inv V own s" and b: "stat_busy (eps s ! i)" and i: "i < 4"
  shows "running s" "stat_enabled (eps s ! i)" "\<not> stat_halted (eps s ! i)" "vq (V (stack s)) i \<noteq> []"
    "\<not> nb_setup (vbuf (V (stack s)) (head_buf V s i))"
    "i = 2 \<Longrightarrow> unat (in_length s ! 1) = min (length (nb_data (vbuf (V (stack s)) (head_buf V s i)))) (unat (mps (eps s ! i)))"
    "i = 2 \<Longrightarrow> in_wire s = take (unat (mps (eps s ! i))) (nb_data (vbuf (V (stack s)) (head_buf V s i)))"
proof -
  have e: "ep_ok V s i" using inv i by (simp add: udc_inv_def)
  show "running s" "stat_enabled (eps s ! i)" "\<not> stat_halted (eps s ! i)" "vq (V (stack s)) i \<noteq> []"
    "\<not> nb_setup (vbuf (V (stack s)) (head_buf V s i))"
    "i = 2 \<Longrightarrow> unat (in_length s ! 1) = min (length (nb_data (vbuf (V (stack s)) (head_buf V s i)))) (unat (mps (eps s ! i)))"
    using e b by (simp_all add: ep_ok_def Let_def)
  show "in_wire s = take (unat (mps (eps s ! i))) (nb_data (vbuf (V (stack s)) (head_buf V s i)))" if "i = 2"
    using e b that by (simp add: ep_ok_def Let_def in_staged_def in_wire_def)
qed

text \<open>One packet of an IN request: the request advances by it and is armed again, or is completed.\<close>

lemma in_transfer:
  assumes ok: "udc_stack_ok Z V" and inv: "udc_inv V own s" and busy: "stat_busy (eps s ! 2)"
    and q: "vq (V (stack s)) 2 = b # q" and d: "vbuf (V (stack s)) b = B" and m: "m = unat (mps (eps s ! 2))"
    and tok: "token AND 0x3f = WCH_TOKEN_IN OR 1" and t: "t = wch_transfer Z token s"
  shows "running t \<and> stat_enabled (eps t ! 2) \<and> \<not> stat_halted (eps t ! 2) \<and> mps (eps t ! 2) = mps (eps s ! 2)"
    and "m < length (nb_data B) \<Longrightarrow> \<not> stat_busy (eps t ! 2) \<and> V (stack t) = view_pull b m (V (stack s))"
    and "m = length (nb_data B) \<Longrightarrow> nb_zlp B \<Longrightarrow> stat_busy (eps t ! 2) \<and>
      V (stack t) = view_clear_zlp b (view_pull b m (V (stack s)))"
    and "m > length (nb_data B) \<or> m = length (nb_data B) \<and> \<not> nb_zlp B \<Longrightarrow> \<not> stat_busy (eps t ! 2) \<and>
      vevs (V (stack t)) = vevs (V (stack s)) @ [EpRequest b None] \<and> vq (V (stack t)) = (vq (V (stack s)))(2 := q)"
proof -
  let ?a = "accept_packet 2 s"
  have w: "udc_wf V s" using inv by (simp add: udc_inv_def)
  note f = busy_facts [OF inv busy] and c = accept_facts [OF w, of 2] and k = tok_in [OF tok]
  have g: "transfer_guard V s token 2"
    using f busy by (simp add: transfer_guard_def k)
  have e: "t = transfer_in Z 2 1 b ?a"
    using g q by (simp add: t transfer_eq [OF ok w] k wf_addr [OF w])
  have n: "unat (in_length s ! Suc 0) = min (length (nb_data B)) m" using f(6) d m q by simp
  have s: "\<not> nb_setup B" using f(5) q d by simp
  have l: "2 < length (eps s)" using wf_len(1) [OF w] by simp
  note law = stack_laws [OF ok]
  note du = e transfer_in_def Let_def c law n q d m [symmetric] wch_access complete_eq [OF ok] kick_eps [OF ok] kick_guard_def
    wf_addr(3) [OF w]
  show "running t \<and> stat_enabled (eps t ! 2) \<and> \<not> stat_halted (eps t ! 2) \<and> mps (eps t ! 2) = mps (eps s ! 2)"
    using f(1-3) l by (simp add: du)
  show "m < length (nb_data B) \<Longrightarrow> \<not> stat_busy (eps t ! 2) \<and> V (stack t) = view_pull b m (V (stack s))"
    using l by (simp add: du)
  show "m = length (nb_data B) \<Longrightarrow> nb_zlp B \<Longrightarrow> stat_busy (eps t ! 2) \<and>
      V (stack t) = view_clear_zlp b (view_pull b m (V (stack s)))"
    using l f(1-3) s by (simp add: du)
  show "m > length (nb_data B) \<or> m = length (nb_data B) \<and> \<not> nb_zlp B \<Longrightarrow> \<not> stat_busy (eps t ! 2) \<and>
      vevs (V (stack t)) = vevs (V (stack s)) @ [EpRequest b None] \<and> vq (V (stack t)) = (vq (V (stack s)))(2 := q)"
    using l by (elim disjE) (auto simp: du)
qed

text \<open>The same over one run of the worker.\<close>

lemma in_cycle:
  assumes ok: "udc_stack_ok Z V" "setup_received_ok Z V own" and inv: "udc_inv V own s" and busy: "stat_busy (eps s ! 2)"
    and q: "vq (V (stack s)) 2 = b # q" and d: "vbuf (V (stack s)) b = B" and m: "m = unat (mps (eps s ! 2))"
    and s': "s' = wch_work Z env (host_in s)"
  shows "udc_inv V own s'"
    and "m < length (nb_data B) \<or> m = length (nb_data B) \<and> nb_zlp B \<Longrightarrow>
      stat_busy (eps s' ! 2) \<and> mps (eps s' ! 2) = mps (eps s ! 2) \<and> vevs (V (stack s')) = vevs (V (stack s)) \<and>
      vq (V (stack s')) = vq (V (stack s)) \<and>
      vbuf (V (stack s')) b = B\<lparr>nb_data := drop m (nb_data B), nb_zlp := nb_zlp B \<and> m \<noteq> length (nb_data B)\<rparr>"
    and "m > length (nb_data B) \<or> m = length (nb_data B) \<and> \<not> nb_zlp B \<Longrightarrow>
      vevs (V (stack s')) = vevs (V (stack s)) @ [EpRequest b None] \<and> vq (V (stack s')) = (vq (V (stack s)))(2 := q)"
proof -
  let ?h = "host_in s" and ?t = "wch_transfer Z (WCH_TOKEN_IN OR 1) (host_in s)"
  note h = hw_facts [OF host_in_hw [of s]]
  have ih: "udc_inv V own ?h" using udc_hw_inv [OF host_in_hw inv] .
  have bh: "stat_busy (eps ?h ! 2)" "vq (V (stack ?h)) 2 = b # q" "vbuf (V (stack ?h)) b = B" "m = unat (mps (eps ?h ! 2))"
    using busy q d m by (simp_all add: h)
  have tok: "(WCH_TOKEN_IN OR 1) AND 0x3f = WCH_TOKEN_IN OR 1" by (simp add: WCH_TOKEN_IN_def)
  note t = in_transfer [OF ok(1) ih bh tok refl, unfolded h]
  have r: "running ?h" using busy_facts(1) [OF inv busy] by (simp add: h)
  have st: "mmio ?h WCH_INT_FG = WCH_TRANSFER" "mmio ?h WCH_INT_ST = WCH_TOKEN_IN OR 1"
    by (simp_all add: host_in_def wch_offsets)
  have rt: "running ?t" using t(1) by blast
  note k = work_transfer [OF ok ih r st(1), of 2, unfolded st(2), OF _ refl rt, where env = env, folded s', simplified]
  show "udc_inv V own s'" by (rule k(1))
  have nb: "\<not> nb_setup B" using busy_facts(5) [OF inv busy] q d by simp
  have w: "udc_wf V ?t" using transfer_inv [OF ok ih] by (simp add: udc_inv_def)
  show "stat_busy (eps s' ! 2) \<and> mps (eps s' ! 2) = mps (eps s ! 2) \<and> vevs (V (stack s')) = vevs (V (stack s)) \<and>
      vq (V (stack s')) = vq (V (stack s)) \<and>
      vbuf (V (stack s')) b = B\<lparr>nb_data := drop m (nb_data B), nb_zlp := nb_zlp B \<and> m \<noteq> length (nb_data B)\<rparr>"
    if c: "m < length (nb_data B) \<or> m = length (nb_data B) \<and> nb_zlp B"
  proof (cases "m < length (nb_data B)")
    case True
    then have "kick_guard V ?t 2" using t(1,2) nb q d by (simp add: kick_guard_def wf_addr [OF w])
    then show ?thesis using t(1,2) True k(2,3) d by simp
  next
    case False
    then show ?thesis using t(1,3) c k(2,3) d by simp
  qed
  show "m > length (nb_data B) \<or> m = length (nb_data B) \<and> \<not> nb_zlp B \<Longrightarrow>
      vevs (V (stack s')) = vevs (V (stack s)) @ [EpRequest b None] \<and> vq (V (stack s')) = (vq (V (stack s)))(2 := q)"
    using t(4) k(2) by simp
qed

lemma in_packets_concat: "concat (in_packets m zlp xs) = xs"
  by (induction m zlp xs rule: in_packets.induct) (subst in_packets.simps, auto)

lemma in_request:
  assumes ok: "udc_stack_ok Z V" "setup_received_ok Z V own"
  shows "udc_inv V own s \<Longrightarrow> stat_busy (eps s ! 2) \<Longrightarrow> m = unat (mps (eps s ! 2)) \<Longrightarrow> 0 < m \<Longrightarrow>
    vq (V (stack s)) 2 = b # q \<Longrightarrow> nb_data (vbuf (V (stack s)) b) = xs \<Longrightarrow> nb_zlp (vbuf (V (stack s)) b) = zlp \<Longrightarrow>
    in_cycles Z env (length (in_packets m zlp xs)) s = (ps, s') \<Longrightarrow>
    ps = in_packets m zlp xs \<and> vevs (V (stack s')) = vevs (V (stack s)) @ [EpRequest b None] \<and>
    vq (V (stack s')) 2 = q \<and> udc_inv V own s'"
proof (induction m zlp xs arbitrary: s ps s' rule: in_packets.induct)
  case (1 m zlp xs)
  obtain B where B: "vbuf (V (stack s)) b = B" "nb_data B = xs" "nb_zlp B = zlp" using "1.prems" by auto
  let ?t = "wch_work Z env (host_in s)"
  note c = in_cycle [OF ok "1.prems"(1,2,5) B(1) "1.prems"(3) refl, where env = env, unfolded B]
  have wire: "in_wire s = take m xs" using busy_facts(7) [OF "1.prems"(1,2)] B "1.prems"(3,5) by simp
  have step: "in_cycles Z env (Suc n) s = (in_wire s # fst (in_cycles Z env n ?t), snd (in_cycles Z env n ?t))" for n
    by (simp add: case_prod_beta)
  consider (short) "length xs < m \<or> length xs = m \<and> \<not> zlp" | (zlp) "length xs = m" "zlp" | (more) "m < length xs"
    by linarith
  then show ?case
  proof cases
    case short
    then have "in_packets m zlp xs = [xs]" by (subst in_packets.simps) auto
    then show ?thesis using short c(1,3) wire "1.prems"(8) step [of 0] by auto
  next
    case zlp
    then have p: "in_packets m zlp xs = [xs, []]" using "1.prems"(4) by (subst in_packets.simps) auto
    have u: "stat_busy (eps ?t ! 2)" "vq (V (stack ?t)) 2 = b # q" "unat (mps (eps ?t ! 2)) = m"
      "vbuf (V (stack ?t)) b = B\<lparr>nb_data := [], nb_zlp := False\<rparr>" "vevs (V (stack ?t)) = vevs (V (stack s))"
      using c(2) zlp B "1.prems"(3,5) by auto
    note v = in_cycle [OF ok c(1) u(1,2,4) refl refl, where env = env]
    have e: "in_wire ?t = []" using busy_facts(7) [OF c(1) u(1)] u by simp
    have "in_cycles Z env (Suc (Suc 0)) s = ([in_wire s, in_wire ?t], wch_work Z env (host_in ?t))"
      by (simp add: case_prod_beta)
    then have "ps = [xs, []]" "s' = wch_work Z env (host_in ?t)" using "1.prems"(8) p wire zlp e by auto
    then show ?thesis using v(1,3) u(3,5) "1.prems"(4) p by simp
  next
    case more
    have p: "in_packets m zlp xs = take m xs # in_packets m zlp (drop m xs)"
      using more "1.prems"(4) by (subst in_packets.simps) auto
    obtain qs where qs: "in_cycles Z env (length (in_packets m zlp (drop m xs))) ?t = (qs, s')" "ps = take m xs # qs"
      using "1.prems"(8) wire unfolding p by (auto simp: case_prod_beta prod_eq_iff)
    have u: "stat_busy (eps ?t ! 2)" "vq (V (stack ?t)) 2 = b # q" "m = unat (mps (eps ?t ! 2))"
      "nb_data (vbuf (V (stack ?t)) b) = drop m xs" "nb_zlp (vbuf (V (stack ?t)) b) = zlp"
      "vevs (V (stack ?t)) = vevs (V (stack s))"
      using c(2) more B "1.prems"(3,5) by auto
    have "\<not> (m = 0 \<or> length xs < m)" "length xs \<noteq> m" using more "1.prems"(4) by auto
    from "1.IH" [OF this c(1) u(1,3) "1.prems"(4) u(2,4,5) qs(1)] show ?thesis using p qs(2) u(6) by simp
  qed
qed

lemma in_packets_full: "0 < m \<Longrightarrow> p \<in> set (butlast (in_packets m zlp xs)) \<Longrightarrow> length p = m"
proof (induction m zlp xs rule: in_packets.induct)
  case (1 m zlp xs)
  show ?case
  proof (cases "m < length xs")
    case True
    then have e: "in_packets m zlp xs = take m xs # in_packets m zlp (drop m xs)" using "1.prems"(1) by (subst in_packets.simps) auto
    have "in_packets m zlp (drop m xs) \<noteq> []" by (subst in_packets.simps) auto
    then show ?thesis using 1 True e by (auto split: if_splits)
  next
    case False
    then show ?thesis using "1.prems" by (subst (asm) in_packets.simps) (auto split: if_splits)
  qed
qed

text \<open>
  (C11) An IN request: once it is armed, the host gets exactly its packets, one per IN token, each
  followed by one run of the worker: together they are the request's bytes, all but the last are
  full, and a request of whole packets ends with a zero-length packet exactly if that was asked
  for.  There is one event, a successful completion of this buffer after the last packet, and
  the queue has advanced by it.
\<close>

theorem udc_in_request:
  assumes ok: "udc_stack_ok Z V" "setup_received_ok Z V own" and inv: "udc_inv V own s"
    and busy: "stat_busy (eps s ! 2)" and m: "m = unat (mps (eps s ! 2))" "0 < m" and q: "vq (V (stack s)) 2 = b # q"
    and B: "xs = nb_data (vbuf (V (stack s)) b)" "zlp = nb_zlp (vbuf (V (stack s)) b)"
    and run: "in_cycles Z env (length (in_packets m zlp xs)) s = (ps, s')"
  shows "ps = in_packets m zlp xs \<and> concat ps = xs \<and> (\<forall>p \<in> set (butlast ps). length p = m) \<and>
    vevs (V (stack s')) = vevs (V (stack s)) @ [EpRequest b None] \<and> vq (V (stack s')) 2 = q \<and> udc_inv V own s'"
  using in_request [OF ok inv busy m q B [symmetric] run] in_packets_concat [of m zlp xs] in_packets_full [OF m(2)]
  by blast

definition udc_quiet_env :: "nat \<Rightarrow> udc_view udc_dev \<Rightarrow> udc_view udc_dev" where "udc_quiet_env _ s = s"

lemma udc_demo_inv: "udc_inv id udc_demo_own udc_demo_sending"
  using udc_run_ok [OF list_stack_ok list_setup_ok list_internal_ok udc_demo_run
      preinit_state(2) [OF udc_demo_register udc_demo_empty udc_demo_preinit [unfolded udc_demo_static_def]]] by blast

theorem udc_in_request_witness:
  "fst (in_cycles list_stack udc_quiet_env 1 udc_demo_sending) = [[1, 2, 3]] \<and>
   vevs (stack (snd (in_cycles list_stack udc_quiet_env 1 udc_demo_sending))) = [EpRequest 7 None]"
proof -
  have m: "unat (mps (eps udc_demo_sending ! 2)) = 64" and p: "in_packets 64 z [1, 2, 3] = [[1, 2, 3]]" for z
    by (simp_all add: udc_demo_sending_facts in_packets.simps)
  have e: "vevs (stack udc_demo_sending) = []" by code_simp
  obtain ps s' where "in_cycles list_stack udc_quiet_env 1 udc_demo_sending = (ps, s')" by force
  then show ?thesis
    using udc_in_request [OF list_stack_ok list_setup_ok udc_demo_inv udc_demo_sending_facts(4) refl _ _ refl refl, of 7 "[]"
        udc_quiet_env ps s'] udc_demo_sending_facts e by (simp add: m p)
qed

section \<open>OUT requests\<close>

text \<open>The host sends the packet \<open>p\<close> to EP2: its bytes are in the staging buffer, its length in the
  length register, and the token says whether its data toggle was the expected one.\<close>

definition host_out :: "bool \<Rightarrow> u8 list \<Rightarrow> 'z udc_dev \<Rightarrow> 'z udc_dev" where
  "host_out tog_ok p s = sys_write16 (of_nat (length p)) WCH_RX_LEN (copy_to_packet 2 p
     (set_mmio WCH_INT_ST ((WCH_TOKEN_OUT OR 2) OR (if tog_ok then WCH_TOG_OK else 0))
       (set_mmio WCH_INT_FG WCH_TRANSFER s)))"

lemma tok_out:
  assumes "token = (WCH_TOKEN_OUT OR 2) OR (if tog_ok then WCH_TOG_OK else 0)"
  shows "tok_ep token = Some 3" "token AND 0x30 = WCH_TOKEN_OUT" "has token WCH_TOG_OK = tog_ok"
    "WCH_TOKEN_OUT \<noteq> WCH_TOKEN_SETUP" "WCH_TOKEN_OUT \<noteq> WCH_TOKEN_IN"
  using assms by (cases tog_ok;
    simp add: tok_ep_def WCH_TOKEN_OUT_def WCH_TOKEN_SETUP_def WCH_TOKEN_IN_def WCH_TOG_OK_def)+

lemma host_out_hw:
  assumes "udc_wf V s" "length p \<le> 64"
  shows "hw_change s (host_out c p s)"
proof -
  let ?s = "host_out c p s"
  have l: "length (packet s ! 2) = 64" using wf_packet [OF assms(1)] by simp
  have "?s = s\<lparr>mmio := mmio ?s, packet := packet ?s\<rparr>"
    by (simp add: host_out_def sys_write16_def copy_to_packet_def set_mmio_def)
  moreover have "\<forall>off. off \<notin> {5, 6, 7, 8, 9} \<longrightarrow> mmio ?s off = mmio s off" by (simp add: host_out_def wch_offsets)
  moreover have "map length (packet ?s) = map length (packet s)" "packet ?s ! 1 = packet s ! 1"
    using l assms(2) wf_len(2) [OF assms(1)] by (simp_all add: host_out_def map_update list_update_same_conv)
  ultimately show ?thesis unfolding hw_change_def by blast
qed

lemma host_out_facts:
  assumes "udc_wf V s" "length p \<le> 64"
  shows "mmio (host_out c p s) WCH_INT_FG = WCH_TRANSFER"
    "mmio (host_out c p s) WCH_INT_ST = (WCH_TOKEN_OUT OR 2) OR (if c then WCH_TOG_OK else 0)"
    "unat (sys_read16 WCH_RX_LEN (host_out c p s)) = length p" "take (length p) (packet (host_out c p s) ! 2) = p"
  using assms wf_len(2) [OF assms(1)] by (simp_all add: host_out_def wch_offsets unat_of_nat)

text \<open>One packet of an OUT request.\<close>

lemma out_transfer:
  assumes ok: "udc_stack_ok Z V" and inv: "udc_inv V own s" and busy: "stat_busy (eps s ! 3)"
    and q: "vq (V (stack s)) 3 = b # q" and d: "vbuf (V (stack s)) b = B" and m: "m = unat (mps (eps s ! 3))"
    and tok: "token = (WCH_TOKEN_OUT OR 2) OR (if c then WCH_TOG_OK else 0)" and t: "t = wch_transfer Z token s"
    and n: "n = unat (sys_read16 WCH_RX_LEN s)"
  shows "\<not> c \<Longrightarrow> t = s"
    and "c \<Longrightarrow> running t \<and> stat_enabled (eps t ! 3) \<and> \<not> stat_halted (eps t ! 3) \<and> mps (eps t ! 3) = mps (eps s ! 3) \<and>
      \<not> stat_busy (eps t ! 3)"
    and "c \<Longrightarrow> m < n \<or> nb_room B < n \<Longrightarrow> vevs (V (stack t)) = vevs (V (stack s)) @ [EpRequest b (Some EMSGSIZE)] \<and>
      vq (V (stack t)) = (vq (V (stack s)))(3 := q) \<and> vbuf (V (stack t)) = vbuf (V (stack s))"
    and "c \<Longrightarrow> n \<le> m \<Longrightarrow> n \<le> nb_room B \<Longrightarrow> n < m \<or> n = nb_room B \<Longrightarrow>
      vevs (V (stack t)) = vevs (V (stack s)) @ [EpRequest b None] \<and> vq (V (stack t)) = (vq (V (stack s)))(3 := q) \<and>
      vbuf (V (stack t)) = vbuf (view_add b (take n (packet s ! 2)) (V (stack s)))"
    and "c \<Longrightarrow> n = m \<Longrightarrow> n < nb_room B \<Longrightarrow> V (stack t) = view_add b (take n (packet s ! 2)) (V (stack s))"
proof -
  let ?a = "accept_packet 3 s"
  have w: "udc_wf V s" using inv by (simp add: udc_inv_def)
  note f = busy_facts [OF inv busy] and a = accept_facts [OF w, of 3] and k = tok_out [OF tok]
  have g: "transfer_guard V s token 3 = c"
    using f busy by (simp add: transfer_guard_def k)
  show "\<not> c \<Longrightarrow> t = s" using g by (simp add: t transfer_eq [OF ok w] k)
  have e: "t = transfer_out Z 3 2 b ?a" if c
    using g that q by (simp add: t transfer_eq [OF ok w] k wf_addr [OF w])
  have rx: "sys_read16 WCH_RX_LEN ?a = sys_read16 WCH_RX_LEN s"
    by (simp add: accept_packet_def Let_def wf_addr [OF w] WCH_RX_LEN_def)
  have l: "3 < length (eps s)" "length (packet s ! 2) = 64" "m \<le> 64" using wf_len(1) [OF w] wf_packet [OF w] wf_mps [OF w] m by simp_all
  note law = stack_laws [OF ok]
  note du = transfer_out_def Let_def a law rx n [symmetric] q d m [symmetric] wch_access complete_eq [OF ok]
  show "c \<Longrightarrow> running t \<and> stat_enabled (eps t ! 3) \<and> \<not> stat_halted (eps t ! 3) \<and> mps (eps t ! 3) = mps (eps s ! 3) \<and>
      \<not> stat_busy (eps t ! 3)"
    using f(1-3) l by (simp add: e du)
  show "c \<Longrightarrow> m < n \<or> nb_room B < n \<Longrightarrow> vevs (V (stack t)) = vevs (V (stack s)) @ [EpRequest b (Some EMSGSIZE)] \<and>
      vq (V (stack t)) = (vq (V (stack s)))(3 := q) \<and> vbuf (V (stack t)) = vbuf (V (stack s))"
    by (simp add: e du)
  show "c \<Longrightarrow> n \<le> m \<Longrightarrow> n \<le> nb_room B \<Longrightarrow> n < m \<or> n = nb_room B \<Longrightarrow>
      vevs (V (stack t)) = vevs (V (stack s)) @ [EpRequest b None] \<and> vq (V (stack t)) = (vq (V (stack s)))(3 := q) \<and>
      vbuf (V (stack t)) = vbuf (view_add b (take n (packet s ! 2)) (V (stack s)))"
    using l by (auto simp: e du)
  show "c \<Longrightarrow> n = m \<Longrightarrow> n < nb_room B \<Longrightarrow> V (stack t) = view_add b (take n (packet s ! 2)) (V (stack s))"
    using l by (simp add: e du)
qed

lemma out_cycle:
  assumes ok: "udc_stack_ok Z V" "setup_received_ok Z V own" and inv: "udc_inv V own s" and busy: "stat_busy (eps s ! 3)"
    and q: "vq (V (stack s)) 3 = b # q" and d: "vbuf (V (stack s)) b = B" and m: "m = unat (mps (eps s ! 3))"
    and p: "length p \<le> 64" and s': "s' = wch_work Z env (host_out c p s)"
  shows "udc_inv V own s'" "\<not> c \<Longrightarrow> V (stack s') = V (stack s) \<and> eps s' ! 3 = eps s ! 3"
    and "c \<Longrightarrow> m < length p \<or> nb_room B < length p \<Longrightarrow>
      vevs (V (stack s')) = vevs (V (stack s)) @ [EpRequest b (Some EMSGSIZE)] \<and>
      vq (V (stack s')) 3 = q \<and> vbuf (V (stack s')) = vbuf (V (stack s))"
    and "c \<Longrightarrow> length p \<le> m \<Longrightarrow> length p \<le> nb_room B \<Longrightarrow> length p < m \<or> length p = nb_room B \<Longrightarrow>
      vevs (V (stack s')) = vevs (V (stack s)) @ [EpRequest b None] \<and> vq (V (stack s')) 3 = q \<and>
      nb_data (vbuf (V (stack s')) b) = nb_data B @ p"
    and "c \<Longrightarrow> length p = m \<Longrightarrow> length p < nb_room B \<Longrightarrow> stat_busy (eps s' ! 3) \<and> mps (eps s' ! 3) = mps (eps s ! 3) \<and>
      vevs (V (stack s')) = vevs (V (stack s)) \<and> vq (V (stack s')) = vq (V (stack s)) \<and>
      vbuf (V (stack s')) b = B\<lparr>nb_data := nb_data B @ p, nb_room := nb_room B - length p\<rparr>"
proof -
  have w: "udc_wf V s" using inv by (simp add: udc_inv_def)
  let ?h = "host_out c p s" and ?t = "wch_transfer Z (mmio (host_out c p s) WCH_INT_ST) (host_out c p s)"
  note hw = host_out_hw [OF w p, of c] and o = host_out_facts [OF w p, of c]
  note h = hw_facts [OF hw]
  have ih: "udc_inv V own ?h" using udc_hw_inv [OF hw inv] .
  have bh: "stat_busy (eps ?h ! 3)" "vq (V (stack ?h)) 3 = b # q" "vbuf (V (stack ?h)) b = B" "m = unat (mps (eps ?h ! 3))"
    using busy q d m by (simp_all add: h)
  note t = out_transfer [OF ok(1) ih bh o(2) refl o(3) [symmetric], unfolded h o(4)]
  have r: "running ?h" using busy_facts(1) [OF inv busy] by (simp add: h)
  have rt: "running ?t" using t(1,2) r by (cases c) auto
  note k = work_transfer [OF ok ih r o(1) _ refl rt, of 3, where env = env, folded s', simplified]
  show "udc_inv V own s'" by (rule k(1))
  have nb: "\<not> nb_setup B" using busy_facts(5) [OF inv busy] q d by simp
  have wt: "udc_wf V ?t" using transfer_inv [OF ok ih] by (simp add: udc_inv_def)
  show "\<not> c \<Longrightarrow> V (stack s') = V (stack s) \<and> eps s' ! 3 = eps s ! 3"
    using t(1) k(2,3) h(1,2) busy by (simp add: kick_guard_def)
  show "c \<Longrightarrow> m < length p \<or> nb_room B < length p \<Longrightarrow>
      vevs (V (stack s')) = vevs (V (stack s)) @ [EpRequest b (Some EMSGSIZE)] \<and>
      vq (V (stack s')) 3 = q \<and> vbuf (V (stack s')) = vbuf (V (stack s))"
    using t(3) k(2) by simp
  show "c \<Longrightarrow> length p \<le> m \<Longrightarrow> length p \<le> nb_room B \<Longrightarrow> length p < m \<or> length p = nb_room B \<Longrightarrow>
      vevs (V (stack s')) = vevs (V (stack s)) @ [EpRequest b None] \<and> vq (V (stack s')) 3 = q \<and>
      nb_data (vbuf (V (stack s')) b) = nb_data B @ p"
    using t(4) k(2) d by simp
  show "stat_busy (eps s' ! 3) \<and> mps (eps s' ! 3) = mps (eps s ! 3) \<and>
      vevs (V (stack s')) = vevs (V (stack s)) \<and> vq (V (stack s')) = vq (V (stack s)) \<and>
      vbuf (V (stack s')) b = B\<lparr>nb_data := nb_data B @ p, nb_room := nb_room B - length p\<rparr>"
    if "c" "length p = m" "length p < nb_room B"
  proof -
    have "USB_EP_GET_IDX (addr (eps ?t ! 3)) = 2" using wf_addr(4) [OF wt] by simp
    then have "kick_guard V ?t 3" using t(2,5) that nb q d by (simp add: kick_guard_def)
    then show ?thesis using t(2,5) that k(2,3) d by simp
  qed
qed

definition out_cycles :: "'z udc_ext \<Rightarrow> (nat \<Rightarrow> 'z udc_dev \<Rightarrow> 'z udc_dev) \<Rightarrow> u8 list list \<Rightarrow> 'z udc_dev \<Rightarrow> 'z udc_dev" where
  "out_cycles Z env = fold (\<lambda>p s. wch_work Z env (host_out True p s))"

lemma out_full:
  assumes ok: "udc_stack_ok Z V" "setup_received_ok Z V own"
  shows "udc_inv V own s \<Longrightarrow> stat_busy (eps s ! 3) \<Longrightarrow> m = unat (mps (eps s ! 3)) \<Longrightarrow> vq (V (stack s)) 3 = b # q \<Longrightarrow>
    \<forall>p \<in> set ps. length p = m \<Longrightarrow> m * length ps < nb_room (vbuf (V (stack s)) b) \<Longrightarrow> s' = out_cycles Z env ps s \<Longrightarrow>
    udc_inv V own s' \<and> stat_busy (eps s' ! 3) \<and> m = unat (mps (eps s' ! 3)) \<and> vevs (V (stack s')) = vevs (V (stack s)) \<and>
    vq (V (stack s')) 3 = b # q \<and>
    vbuf (V (stack s')) b = (vbuf (V (stack s)) b)\<lparr>nb_data := nb_data (vbuf (V (stack s)) b) @ concat ps,
      nb_room := nb_room (vbuf (V (stack s)) b) - m * length ps\<rparr>"
proof (induction ps arbitrary: s)
  case (Cons p ps)
  let ?t = "wch_work Z env (host_out True p s)"
  have l: "length p = m" "m < nb_room (vbuf (V (stack s)) b)" "m \<le> 64"
    using Cons.prems(1,3,5,6) wf_mps [of V s 3] by (auto simp: udc_inv_def)
  note c = out_cycle [OF ok Cons.prems(1,2,4) refl Cons.prems(3), of p ?t env True]
  have t: "stat_busy (eps ?t ! 3)" "m = unat (mps (eps ?t ! 3))" "vq (V (stack ?t)) 3 = b # q"
    "vevs (V (stack ?t)) = vevs (V (stack s))" "udc_inv V own ?t"
    "vbuf (V (stack ?t)) b = (vbuf (V (stack s)) b)\<lparr>nb_data := nb_data (vbuf (V (stack s)) b) @ p,
       nb_room := nb_room (vbuf (V (stack s)) b) - m\<rparr>"
    using c(1,5) l Cons.prems(3,4) by auto
  have "s' = out_cycles Z env ps ?t" "m * length ps < nb_room (vbuf (V (stack ?t)) b)" "\<forall>p \<in> set ps. length p = m"
    using Cons.prems(5,6,7) t(6) by (auto simp: out_cycles_def)
  from Cons.IH [OF t(5,1,2,3) this(3,2,1)] show ?case using t(4,6) by simp
qed (simp add: out_cycles_def)

text \<open>A controller with buffer 9 armed for reception.\<close>

definition udc_demo_receiving :: "udc_view udc_dev" where
  "udc_demo_receiving = snd (wch_enqueue list_stack 3 9 udc_demo_sending)"

lemma udc_demo_receiving_facts:
  "stat_busy (eps udc_demo_receiving ! 3)" "vq (id (stack udc_demo_receiving)) 3 = [9]" "mps (eps udc_demo_receiving ! 3) = 64"
  "nb_room (vbuf (stack udc_demo_receiving) 9) = 128" "nb_data (vbuf (stack udc_demo_receiving) 9) = []"
  "vevs (stack udc_demo_receiving) = []"
  by code_simp+

lemma udc_demo_receiving_inv: "udc_inv id udc_demo_own udc_demo_receiving"
proof -
  have o: "udc_demo_own 9 = 3" and i: "(3 :: nat) < 4" by (simp_all add: udc_demo_own_def)
  obtain r where e: "wch_enqueue list_stack 3 9 udc_demo_sending = (r, udc_demo_receiving)"
    unfolding udc_demo_receiving_def by (metis prod.collapse)
  show ?thesis using enqueue_result [OF list_stack_ok i o udc_demo_inv e] by (rule conjunct1)
qed

text \<open>
  (C12) An OUT request: full packets that leave room are appended one after the other, without an
  event, and the endpoint stays armed; then a packet that is too large for the endpoint or for
  the remaining room completes the request with \<^verbatim>\<open>-EMSGSIZE\<close> and adds nothing to it, and a short
  packet, or one that fills the buffer, is appended and completes it successfully.
\<close>

theorem udc_out_request:
  assumes ok: "udc_stack_ok Z V" "setup_received_ok Z V own" and inv: "udc_inv V own s"
    and busy: "stat_busy (eps s ! 3)" and m: "m = unat (mps (eps s ! 3))" and q: "vq (V (stack s)) 3 = b # q"
    and B: "B = vbuf (V (stack s)) b" and ps: "\<forall>p \<in> set ps. length p = m" "m * length ps < nb_room B" and p: "length p \<le> 64"
    and s1: "s1 = out_cycles Z env ps s" and s2: "s2 = out_cycles Z env (ps @ [p]) s"
  shows "vevs (V (stack s1)) = vevs (V (stack s)) \<and> vq (V (stack s1)) 3 = b # q \<and> stat_busy (eps s1 ! 3) \<and>
    nb_data (vbuf (V (stack s1)) b) = nb_data B @ concat ps \<and>
    (length p > m \<or> m * length ps + length p > nb_room B \<longrightarrow>
       vevs (V (stack s2)) = vevs (V (stack s)) @ [EpRequest b (Some EMSGSIZE)] \<and> vq (V (stack s2)) 3 = q \<and>
       nb_data (vbuf (V (stack s2)) b) = nb_data B @ concat ps) \<and>
    (length p < m \<and> m * length ps + length p \<le> nb_room B \<or> length p = m \<and> m * length ps + length p = nb_room B \<longrightarrow>
       vevs (V (stack s2)) = vevs (V (stack s)) @ [EpRequest b None] \<and> vq (V (stack s2)) 3 = q \<and>
       nb_data (vbuf (V (stack s2)) b) = nb_data B @ concat (ps @ [p]))"
proof -
  have f: "udc_inv V own s1" "stat_busy (eps s1 ! 3)" "m = unat (mps (eps s1 ! 3))" "vevs (V (stack s1)) = vevs (V (stack s))"
    "vq (V (stack s1)) 3 = b # q"
    "vbuf (V (stack s1)) b = B\<lparr>nb_data := nb_data B @ concat ps, nb_room := nb_room B - m * length ps\<rparr>"
    using out_full [OF ok inv busy m q ps(1) ps(2) [unfolded B] s1] B by auto
  have e: "s2 = wch_work Z env (host_out True p s1)" by (simp add: s1 s2 out_cycles_def)
  note c = out_cycle [OF ok f(1,2,5,6,3) p e]
  have l: "nb_room B - m * length ps < length p \<longleftrightarrow> m * length ps + length p > nb_room B"
    "length p = nb_room B - m * length ps \<longleftrightarrow> m * length ps + length p = nb_room B"
    "length p \<le> nb_room B - m * length ps \<longleftrightarrow> m * length ps + length p \<le> nb_room B"
    using ps(2) by auto
  have "length p > m \<or> m * length ps + length p > nb_room B \<longrightarrow>
       vevs (V (stack s2)) = vevs (V (stack s)) @ [EpRequest b (Some EMSGSIZE)] \<and> vq (V (stack s2)) 3 = q \<and>
       nb_data (vbuf (V (stack s2)) b) = nb_data B @ concat ps"
    using c(3) f(4,6) l(1) by auto
  moreover have "length p < m \<and> m * length ps + length p \<le> nb_room B \<or> length p = m \<and> m * length ps + length p = nb_room B \<longrightarrow>
       vevs (V (stack s2)) = vevs (V (stack s)) @ [EpRequest b None] \<and> vq (V (stack s2)) 3 = q \<and>
       nb_data (vbuf (V (stack s2)) b) = nb_data B @ concat (ps @ [p])"
    using c(4) f(4) l(2,3) by auto
  ultimately show ?thesis using f(2,4,5,6) by simp
qed

theorem udc_out_request_witness:
  "nb_data (vbuf (stack (out_cycles list_stack udc_quiet_env [replicate 64 1, [2, 3]] udc_demo_receiving)) 9) = replicate 64 1 @ [2, 3] \<and>
   vevs (stack (out_cycles list_stack udc_quiet_env [replicate 64 1, [2, 3]] udc_demo_receiving)) = [EpRequest 9 None]"
  using udc_out_request [OF list_stack_ok list_setup_ok udc_demo_receiving_inv udc_demo_receiving_facts(1) refl
      udc_demo_receiving_facts(2) refl, where ps = "[replicate 64 1]" and p = "[2, 3]" and env = udc_quiet_env]
    udc_demo_receiving_facts by simp


text \<open>
  (C13) A packet repeated by the host with the old data toggle changes nothing of the request, the
  queue or the events, and the endpoint stays armed for the next packet.
\<close>

theorem udc_out_duplicate_ignored:
  assumes ok: "udc_stack_ok Z V" "setup_received_ok Z V own" and inv: "udc_inv V own s"
    and busy: "stat_busy (eps s ! 3)" and p: "length p \<le> 64" and s': "s' = wch_work Z env (host_out False p s)"
  shows "V (stack s') = V (stack s) \<and> stat_busy (eps s' ! 3) \<and> mmio s' (WCH_RX_CTL 2) = mmio s (WCH_RX_CTL 2)"
proof -
  have w: "udc_wf V s" using inv by (simp add: udc_inv_def)
  let ?h = "host_out False p s" and ?t = "wch_transfer Z (mmio (host_out False p s) WCH_INT_ST) (host_out False p s)"
  note hw = host_out_hw [OF w p, of False] and o = host_out_facts [OF w p, of False]
  note h = hw_facts [OF hw]
  have ih: "udc_inv V own ?h" using udc_hw_inv [OF hw inv] .
  have bh: "stat_busy (eps ?h ! 3)" using busy by (simp add: h)
  obtain b q where "vq (V (stack ?h)) 3 = b # q" using busy_facts(4) [OF ih bh] by (cases "vq (V (stack ?h)) 3") auto
  from out_transfer(1) [OF ok(1) ih bh this refl refl o(2) refl refl] have t: "?t = ?h" by simp
  have r: "running ?h" using busy_facts(1) [OF inv busy] by (simp add: h)
  let ?a = "wch_ack WCH_TRANSFER ?h"
  have a: "udc_wf V ?a" "owned own (V (stack ?a))" "stat_busy (eps ?a ! 3)" "running ?a"
    using ih bh r by (simp_all add: wch_ack_def wch_write_def udc_inv_def)
  have e: "s' = wch_write WCH_INT_EN WCH_IRQS (fold (wch_kick Z) [0..<4] ?a)"
    using r a(4) t by (simp add: s' wch_work_def work_flags_def Let_def wch_read_def o(1) transfer_flag)
  have "ep_same V own 3 ?a (fold (wch_kick Z) [0..<4] ?a)"
    by (rule kicks_same [OF ok(1) a(1,2,3)]) auto
  then have "mmio (fold (wch_kick Z) [0..<4] ?a) 0x3b = mmio ?a 0x3b" "stat_busy (eps (fold (wch_kick Z) [0..<4] ?a) ! 3)"
    using a(3) by (auto simp: ep_same_def ep_state_def)
  moreover have "mmio ?a 0x3b = mmio s 0x3b" using h(6) [of "0x3b"] by (simp add: wch_ack_def wch_write_def WCH_INT_FG_def)
  moreover have "stack (fold (wch_kick Z) [0..<4] ?a) = stack s" by (simp add: fold4 wch_ack_def wch_write_def h)
  ultimately show ?thesis by (simp add: e wch_write_def WCH_INT_EN_def WCH_RX_CTL_def)
qed

theorem udc_out_duplicate_ignored_witness:
  "nb_data (vbuf (stack (wch_work list_stack udc_quiet_env (host_out False [4, 5] udc_demo_receiving))) 9) = []"
proof -
  have l: "length [4, 5 :: u8] \<le> 64" by simp
  note d = udc_out_duplicate_ignored [OF list_stack_ok list_setup_ok udc_demo_receiving_inv udc_demo_receiving_facts(1) l refl,
      of udc_quiet_env]
  show ?thesis unfolding d [THEN conjunct1, unfolded id_apply] by (rule udc_demo_receiving_facts)
qed

end
