(* ===== verification/Udc_Ops.thy ===== *)
theory Udc_Ops
  imports Udc_Xfer
begin

text \<open>
  What single operations of the USB device controller driver do: bus reset, overflow, cancellation,
  halting, initialisation and shutdown.
\<close>

unbundle bit_operations_syntax

section \<open>Bus reset\<close>

lemma reset_all:
  assumes ok: "udc_stack_ok Z V" and w: "udc_wf V s" and u: "u = fold (reset_ep Z) [0..<4] s"
  shows "V (stack u) = view_cancel 3 (view_cancel 2 (view_cancel 1 (view_cancel 0 (V (stack s)))))" "running u = running s"
    "i < 4 \<Longrightarrow> eps u ! i = (eps s ! i)\<lparr>stat_busy := False, stat_halted := False, stat_enabled := (i < 2)\<rparr>"
    "off \<notin> {0x32, 0x33, 0x36, 0x3b} \<Longrightarrow> mmio u off = mmio s off" "length (eps u) = length (eps s)"
proof -
  note l = wf_len(1) [OF w] and a = wf_addr [OF w] and r = reset_ep_view [OF ok]
  show "V (stack u) = view_cancel 3 (view_cancel 2 (view_cancel 1 (view_cancel 0 (V (stack s)))))" "running u = running s"
    "length (eps u) = length (eps s)"
    by (simp_all add: u fold4 r)
  show "i < 4 \<Longrightarrow> eps u ! i = (eps s ! i)\<lparr>stat_busy := False, stat_halted := False, stat_enabled := (i < 2)\<rparr>"
    using l a by (auto simp: less4 u fold4 r)
  show "off \<notin> {0x32, 0x33, 0x36, 0x3b} \<Longrightarrow> mmio u off = mmio s off"
    using l a by (simp add: u fold4 r)
qed

lemma kicks_idle:
  assumes "udc_stack_ok Z V" "\<forall>i < 4. vq (V (stack s)) i = []"
  shows "fold (wch_kick Z) [0..<4] s = s"
  using assms(2) by (simp add: fold4 kick_eq [OF assms(1)] kick_guard_def)

text \<open>The requests cancelled when all four queues are emptied.\<close>

definition cancelled :: "udc_view \<Rightarrow> udc_ev list" where
  "cancelled v = map (\<lambda>b. EpRequest b (Some ECONNABORTED)) (concat (map (vq v) [0..<4]))"

lemma cancel_all:
  "vevs (view_cancel 3 (view_cancel 2 (view_cancel 1 (view_cancel 0 v)))) = vevs v @ cancelled v"
  "i < 4 \<Longrightarrow> vq (view_cancel 3 (view_cancel 2 (view_cancel 1 (view_cancel 0 v)))) i = []"
proof -
  have "[0..<4] = [0, 1, 2, 3 :: nat]" by (simp add: upt_rec)
  then show "vevs (view_cancel 3 (view_cancel 2 (view_cancel 1 (view_cancel 0 v)))) = vevs v @ cancelled v"
    by (simp add: cancelled_def)
  show "i < 4 \<Longrightarrow> vq (view_cancel 3 (view_cancel 2 (view_cancel 1 (view_cancel 0 v)))) i = []"
    by (auto simp: less4)
qed

text \<open>
  (C14) A bus reset wins over every other flag of the same run of the worker, in particular over a
  coincident completion: every queued request is returned as cancelled, in order, no request is
  reported complete, and the reset event comes last; the device is back at address 0 with only
  the control endpoint enabled (OUT accepting, IN not ready), nothing busy or halted, no cached
  SETUP packet, and the flags it saw acknowledged.
\<close>

theorem udc_reset_dominates:
  assumes ok: "udc_stack_ok Z V" and w: "udc_wf V s" and r: "running s" and fg: "has (mmio s WCH_INT_FG) WCH_RESET"
    and s': "s' = wch_work Z env s"
  shows "vevs (V (stack s')) = vevs (V (stack s)) @ cancelled (V (stack s)) @ [BusEvent UDC_EVT_RESET None] \<and>
    (\<forall>i < 4. vq (V (stack s')) i = [] \<and> \<not> stat_busy (eps s' ! i) \<and> \<not> stat_halted (eps s' ! i) \<and>
       (stat_enabled (eps s' ! i) \<longleftrightarrow> i < 2)) \<and>
    mmio s' WCH_ADDR = 0 \<and> mmio s' WCH_MODE1 = 0 \<and> mmio s' WCH_MODE2 = 0 \<and> mmio s' WCH_INT_FG = 0 \<and>
    mmio s' (WCH_RX_CTL 0) = WCH_ACK \<and> mmio s' (WCH_TX_CTL 0) = WCH_NAK \<and> mmio s' WCH_INT_EN = WCH_IRQS \<and>
    \<not> setup_pending s' \<and> \<not> setup_valid s' \<and> \<not> vsusp (V (stack s')) \<and> running s'"
proof -
  let ?s1 = "wch_write WCH_MODE2 0 (wch_write WCH_MODE1 0 (wch_write WCH_ADDR 0 s))"
  let ?s2 = "fold (reset_ep Z) [0..<4] ?s1"
  have w1: "udc_wf V ?s1" using w by (simp add: wch_write_def)
  note u = reset_all [OF ok w1 refl] and law = stack_laws [OF ok]
  let ?r = "wch_ack (mmio s WCH_INT_FG) (wch_reset Z s)"
  have v: "V (stack (wch_reset Z s)) = view_event (BusEvent UDC_EVT_RESET None) ((V (stack ?s2))\<lparr>vsusp := False\<rparr>)"
    by (simp add: wch_reset_def Let_def law wch_write_def)
  have f: "running ?r" "eps ?r = eps ?s2" "\<not> setup_pending ?r" "\<not> setup_valid ?r" "stack ?r = stack (wch_reset Z s)"
    using r u(2) by (simp_all add: wch_reset_def Let_def wch_access)
  have m: "mmio (wch_reset Z s) off = ((mmio ?s2)(0x32 := WCH_NAK, 0x33 := WCH_ACK)) off" for off
    by (simp add: wch_reset_def Let_def wch_write_def WCH_RX_CTL_def WCH_TX_CTL_def)
  have fg0: "mmio (wch_reset Z s) WCH_INT_FG = mmio s WCH_INT_FG"
    using u(4) [of WCH_INT_FG] by (simp add: m wch_write_def wch_offsets)
  have "V (stack ?r) = view_event (BusEvent UDC_EVT_RESET None)
      ((view_cancel 3 (view_cancel 2 (view_cancel 1 (view_cancel 0 (V (stack s))))))\<lparr>vsusp := False\<rparr>)"
    using f(5) v u(1) by (simp add: wch_write_def)
  then have q: "vevs (V (stack ?r)) = vevs (V (stack s)) @ cancelled (V (stack s)) @ [BusEvent UDC_EVT_RESET None]"
    "\<And>i. i < 4 \<Longrightarrow> vq (V (stack ?r)) i = []" "\<not> vsusp (V (stack ?r))"
    using cancel_all(1) [of "V (stack s)"] cancel_all(2) [where v = "V (stack s)"] by simp_all
  have e: "s' = wch_write WCH_INT_EN WCH_IRQS ?r"
    using r fg f(1) q(2) by (simp add: s' wch_work_def work_flags_def wch_read_def Let_def kicks_idle [OF ok])
  have k: "eps ?s2 ! i = (eps s ! i)\<lparr>stat_busy := False, stat_halted := False, stat_enabled := (i < 2)\<rparr>" if "i < 4" for i
    using u(3) [OF that] by (simp add: wch_write_def)
  have regs: "mmio ?r off = (if off = WCH_INT_FG then 0 else ((mmio ?s2)(0x32 := WCH_NAK, 0x33 := WCH_ACK)) off)" for off
    using fg0 m by (simp add: wch_access)
  have "mmio ?s2 WCH_ADDR = 0" "mmio ?s2 WCH_MODE1 = 0" "mmio ?s2 WCH_MODE2 = 0"
    using u(4) [of WCH_ADDR] u(4) [of WCH_MODE1] u(4) [of WCH_MODE2] by (simp_all add: wch_write_def wch_offsets)
  then have "mmio s' WCH_ADDR = 0 \<and> mmio s' WCH_MODE1 = 0 \<and> mmio s' WCH_MODE2 = 0 \<and> mmio s' WCH_INT_FG = 0 \<and>
    mmio s' (WCH_RX_CTL 0) = WCH_ACK \<and> mmio s' (WCH_TX_CTL 0) = WCH_NAK \<and> mmio s' WCH_INT_EN = WCH_IRQS"
    by (simp only: e wch_write_def mmio_ops fun_upd_apply regs) (simp add: wch_offsets)
  then show ?thesis using q f(1-4) k by (simp add: e wch_write_def)
qed

theorem udc_reset_dominates_witness:
  "vevs (stack (wch_work list_stack udc_quiet_env (set_mmio WCH_INT_FG (WCH_RESET OR WCH_TRANSFER) udc_demo_sending))) =
     [EpRequest 7 (Some ECONNABORTED), BusEvent UDC_EVT_RESET None]"
proof -
  let ?s = "set_mmio WCH_INT_FG (WCH_RESET OR WCH_TRANSFER) udc_demo_sending"
  have h: "udc_wf id ?s" "running ?s" "has (mmio ?s WCH_INT_FG) WCH_RESET"
    using udc_demo_inv busy_facts(1) [OF udc_demo_inv udc_demo_sending_facts(4)]
    by (simp_all add: udc_inv_def WCH_RESET_def WCH_TRANSFER_def)
  have "cancelled (stack ?s) = [EpRequest 7 (Some ECONNABORTED)] \<and> vevs (stack ?s) = []" by code_simp
  then show ?thesis using udc_reset_dominates [OF list_stack_ok h refl, of udc_quiet_env] by simp
qed

section \<open>FIFO overflow\<close>

lemma dequeue_regs:
  assumes ok: "udc_stack_ok Z V"
  shows "n \<le> 4 \<Longrightarrow> \<not> running s \<Longrightarrow> udc_wf V s \<Longrightarrow> owned own (V (stack s)) \<Longrightarrow>
    t = fold (\<lambda>i s. snd (wch_dequeue Z env i s)) [0..<n] s \<Longrightarrow>
    \<not> running t \<and> udc_wf V t \<and> owned own (V (stack t)) \<and> (\<forall>off. off \<notin> {6, 0x32, 0x33, 0x36, 0x3b} \<longrightarrow> mmio t off = mmio s off)"
proof (induction n arbitrary: t)
  case (Suc n)
  define u where "u = fold (\<lambda>i s. snd (wch_dequeue Z env i s)) [0..<n] s"
  have u: "\<not> running u" "udc_wf V u" "owned own (V (stack u))" "\<forall>off. off \<notin> {6, 0x32, 0x33, 0x36, 0x3b} \<longrightarrow> mmio u off = mmio s off"
    using Suc.IH [OF _ Suc.prems(2-4) u_def] Suc.prems(1) by auto
  have n: "n < 4" using Suc.prems(1) by simp
  have t: "t = snd (wch_dequeue Z env n u)" using Suc.prems(5) by (simp add: u_def)
  note d = dequeue_stopped [OF ok n u(1), where env = env, folded t]
  have "ep_ctl (addr (eps u ! n)) \<in> {0x32, 0x33, 0x36, 0x3b}" using n wf_addr [OF u(2)] by (auto simp: less4)
  then have "mmio t off = mmio u off" if "off \<notin> {6, 0x32, 0x33, 0x36, 0x3b}" for off
    using d(5) [of off] that by (auto simp: WCH_INT_FG_def)
  moreover have "udc_wf V t \<and> owned own (V (stack t))" using d(1) [of own] u(2,3) by (auto simp: ep_step_def)
  ultimately show ?case using d(2) u(4) by simp
qed simp

text \<open>
  (C15) A FIFO overflow wins over a coincident completion: the controller is stopped and detached (no
  interrupts, no pull-up, no port), every queued request is returned as cancelled, in order, none
  as complete, and the error event comes last.  From then on the worker does nothing and requests
  are refused with \<^verbatim>\<open>-EIO\<close>.
\<close>

theorem udc_overflow_dominates:
  assumes ok: "udc_stack_ok Z V" and inv: "udc_inv V own s" and r: "running s"
    and fg: "has (mmio s WCH_INT_FG) WCH_FIFO_OV" "\<not> has (mmio s WCH_INT_FG) WCH_RESET" and s': "s' = wch_work Z env s"
  shows "vevs (V (stack s')) =
      vevs (V (stack s)) @ cancelled (V (stack s)) @ [BusEvent UDC_EVT_ERROR (Some EOVERFLOW)] \<and>
    (\<forall>i < 4. vq (V (stack s')) i = [] \<and> \<not> stat_busy (eps s' ! i)) \<and> \<not> running s' \<and>
    mmio s' WCH_CTRL = 0 \<and> mmio s' WCH_PORT = 0 \<and> mmio s' WCH_INT_EN = 0 \<and> \<not> setup_pending s' \<and>
    wch_work Z env' s' = s' \<and> (\<forall>i b. wch_enqueue Z i b s' = (Err EIO, s'))"
proof -
  let ?f = "fold (\<lambda>i s. snd (wch_dequeue Z env i s)) [0..<4] (disable_start s)"
  have w: "udc_wf V (disable_start s)" "owned own (V (stack (disable_start s)))" using inv by (auto simp: udc_inv_def)
  note a = dequeue_all [OF ok _ w refl, of env, simplified]
  have g: "mmio (disable_start s) WCH_CTRL = 0" "mmio (disable_start s) WCH_PORT = 0" "mmio (disable_start s) WCH_INT_EN = 0"
    by (simp_all add: disable_start_def wch_access wch_offsets)
  have m: "mmio ?f WCH_CTRL = 0" "mmio ?f WCH_PORT = 0" "mmio ?f WCH_INT_EN = 0"
    using dequeue_regs [OF ok _ _ w refl, of 4 env] g by (simp_all add: wch_offsets)
  have e: "s' = upd_stack (udc_submit_event Z UDC_EVT_ERROR (Some EOVERFLOW)) (?f\<lparr>setup_pending := False, setup_valid := False\<rparr>)"
    using r fg a(1) by (simp add: s' wch_work_def work_flags_def wch_read_def Let_def disable_eq)
  have n: "\<not> running s'" using a(1) by (simp add: e)
  have q: "vevs (V (stack s')) = vevs (V (stack s)) @ cancelled (V (stack s)) @ [BusEvent UDC_EVT_ERROR (Some EOVERFLOW)]"
    "\<And>i. i < 4 \<Longrightarrow> vq (V (stack s')) i = []"
    using cancel_all(1) [of "V (stack s)"] cancel_all(2) [where v = "V (stack s)"] a(2)
    by (simp_all add: e stack_laws [OF ok])
  have b: "\<And>i. i < 4 \<Longrightarrow> \<not> stat_busy (eps s' ! i)" using a(1) by (auto simp: e quiet_def)
  have "wch_work Z env' s' = s'" "\<forall>i b. wch_enqueue Z i b s' = (Err EIO, s')"
    using n by (simp_all add: wch_work_def wch_enqueue_def)
  then show ?thesis using q b n m by (simp add: e)
qed

theorem udc_overflow_dominates_witness:
  "fst (wch_enqueue list_stack 2 7 (wch_work list_stack udc_quiet_env
     (set_mmio WCH_INT_FG (WCH_FIFO_OV OR WCH_TRANSFER) udc_demo_sending))) = Err EIO"
proof -
  let ?s = "set_mmio WCH_INT_FG (WCH_FIFO_OV OR WCH_TRANSFER) udc_demo_sending"
  have h: "udc_inv id udc_demo_own ?s" "running ?s" "has (mmio ?s WCH_INT_FG) WCH_FIFO_OV" "\<not> has (mmio ?s WCH_INT_FG) WCH_RESET"
    using udc_demo_inv busy_facts(1) [OF udc_demo_inv udc_demo_sending_facts(4)]
    by (simp_all add: inv_reg WCH_INT_FG_def WCH_RESET_def WCH_TRANSFER_def WCH_FIFO_OV_def)
  show ?thesis using udc_overflow_dominates [OF list_stack_ok h refl, of udc_quiet_env udc_quiet_env] by simp
qed

section \<open>Cancellation\<close>

lemma quiesce_wait_result:
  "fst (quiesce_wait env n s) \<longleftrightarrow> (\<exists>k \<le> n. \<not> sie_busy (fold env (rev [n - k..<n]) s))"
proof (induction n arbitrary: s)
  case (Suc n)
  have step: "fold env (rev [Suc n - Suc k..<Suc n]) s = fold env (rev [n - k..<n]) (env n s)" for k
    by simp
  have "(\<exists>k \<le> Suc n. \<not> sie_busy (fold env (rev [Suc n - k..<Suc n]) s)) \<longleftrightarrow>
      \<not> sie_busy s \<or> (\<exists>k \<le> n. \<not> sie_busy (fold env (rev [n - k..<n]) (env n s)))" (is "?l \<longleftrightarrow> ?r")
  proof
    assume ?l
    then obtain k where k: "k \<le> Suc n" "\<not> sie_busy (fold env (rev [Suc n - k..<Suc n]) s)" by blast
    then show ?r using step by (cases k) auto
  next
    assume ?r
    then show ?l
    proof
      assume "\<not> sie_busy s"
      then show ?l by (intro exI [of _ 0]) simp
    next
      assume "\<exists>k \<le> n. \<not> sie_busy (fold env (rev [n - k..<n]) (env n s))"
      then obtain k where "k \<le> n" "\<not> sie_busy (fold env (rev [n - k..<n]) (env n s))" by blast
      then show ?l using step [of k] by (intro exI [of _ "Suc k"]) simp
    qed
  qed
  then show ?case using Suc.IH [of "env n s"] by (cases "sie_busy s") auto
qed simp

text \<open>
  (C16) Cancelling the requests of an endpoint ends after at most 101 looks at the serial engine, one
  microsecond apart: if the engine is seen free (or the controller is stopped) it succeeds, all
  queued requests come back as cancelled, in order, and the endpoint is idle and not ready; if
  it is busy all the time the call fails with \<^verbatim>\<open>-EBUSY\<close> and keeps every request.
\<close>

theorem udc_cancel_bounded:
  assumes ok: "udc_stack_ok Z V" "setup_received_ok Z V own" "hw_env env" and i: "i < 4" and inv: "udc_inv V own s"
    and n: "n = wch_response (addr (eps s ! i)) WCH_NAK s" and q: "wch_dequeue Z env i s = (r, s')"
  shows "(r = Ok \<longleftrightarrow> (\<exists>k \<le> 100. \<not> sie_busy (fold env (rev [100 - k..<100]) n))) \<and> (r = Ok \<or> r = Err EBUSY) \<and>
    mmio s' (ep_ctl (addr (eps s ! i))) AND 3 = WCH_NAK \<and>
    (r = Err EBUSY \<longrightarrow> stack s' = stack s \<and> eps s' = eps s) \<and>
    (r = Ok \<longrightarrow> \<not> stat_busy (eps s' ! i) \<and> V (stack s') = view_cancel i (V (stack s)))"
proof -
  obtain b s1 where w: "quiesce_wait env 100 n = (b, s1)" by force
  note h = hw_facts [OF quiesce_wait_hw [OF ok(3) w]]
  have b: "b \<longleftrightarrow> (\<exists>k \<le> 100. \<not> sie_busy (fold env (rev [100 - k..<100]) n))"
    using quiesce_wait_result [of env 100 n] unfolding w fst_conv .
  let ?q = "quiesced Z True (addr (eps s ! i)) s1"
  have c: "ep_ctl (addr (eps s ! i)) \<in> {0x32, 0x33, 0x36, 0x3b}"
  proof -
    have wf: "udc_wf V s" using inv by (simp add: udc_inv_def)
    show ?thesis using i wf_addr [OF wf] by (auto simp: less4)
  qed
  then have m: "mmio s1 (ep_ctl (addr (eps s ! i))) AND 3 = WCH_NAK"
    using h(6) [of "ep_ctl (addr (eps s ! i))"] by (auto simp: n)
  have f: "eps ?q = eps s" "stack ?q = stack s" "mmio ?q (ep_ctl (addr (eps s ! i))) = mmio s1 (ep_ctl (addr (eps s ! i)))"
    using h(1,2) c by (auto simp: quiesced_def wch_access n WCH_INT_FG_def)
  have e: "r = (if b then Ok else Err EBUSY)"
    "s' = (if b then upd_stack (udc_ep_cancel_queued Z i) (udc_ep_set_busy i False ?q) else s1)"
    using q w by (auto simp: wch_dequeue_def quiesce_eq n)
  have l: "i < length (eps s)" using inv_len [OF inv] i by simp
  show ?thesis
    unfolding b [symmetric] using m f h(1,2) l by (auto simp: e stack_laws [OF ok(1)] udc_ep_set_busy_def n)
qed

theorem udc_cancel_bounded_witness:
  "fst (wch_dequeue list_stack udc_quiet_env 2 udc_demo_sending) = Err EBUSY \<and>
   fst (wch_dequeue list_stack udc_quiet_env 2 (set_mmio WCH_MIS_ST 32 udc_demo_sending)) = Ok"
proof -
  have e: "hw_env udc_quiet_env" by (simp add: hw_env_def udc_quiet_env_def)
  have id: "fold udc_quiet_env xs s = s" for xs s by (induction xs) (simp_all add: udc_quiet_env_def)
  have i: "(2 :: nat) < 4" by simp
  let ?t = "set_mmio WCH_MIS_ST 32 udc_demo_sending"
  have inv: "udc_inv id udc_demo_own ?t" using udc_demo_inv by (simp add: inv_reg WCH_MIS_ST_def)
  have b: "sie_busy (wch_response (addr (eps udc_demo_sending ! 2)) WCH_NAK udc_demo_sending)"
    "\<not> sie_busy (wch_response (addr (eps ?t ! 2)) WCH_NAK ?t)" by code_simp+
  note c = udc_cancel_bounded [OF list_stack_ok list_setup_ok e i udc_demo_inv refl prod.collapse [symmetric]]
    and d = udc_cancel_bounded [OF list_stack_ok list_setup_ok e i inv refl prod.collapse [symmetric]]
  show ?thesis using c d b unfolding id by blast
qed

section \<open>Halting\<close>

text \<open>
  (C17) Halting EP1 while a completed packet is latched keeps that packet's progress: the request
  advances by it and stays queued, no event is made, the latch is acknowledged, and the endpoint
  answers STALL.  Clearing the halt then arms the rest of the request, starting right after the
  acknowledged packet and with data toggle DATA0.
\<close>

theorem udc_halt_keeps_progress:
  assumes ok: "udc_stack_ok Z V" "setup_received_ok Z V own" "hw_env env" and inv: "udc_inv V own s"
    and busy: "stat_busy (eps s ! 2)" and q: "vq (V (stack s)) 2 = b # q" and m: "m = unat (mps (eps s ! 2))"
    and xs: "xs = nb_data (vbuf (V (stack s)) b)" "m < length xs"
    and fg: "has (mmio s WCH_MIS_ST) 32" "has (mmio s WCH_INT_FG) WCH_TRANSFER" "mmio s WCH_INT_ST AND 0x3f = WCH_TOKEN_IN OR 1"
    and h: "wch_halt Z env 2 s = (r1, s1)" and c: "wch_clear_halt Z 2 s1 = (r2, s2)"
  shows "r1 = Ok \<and> stat_halted (eps s1 ! 2) \<and> mmio s1 (WCH_TX_CTL 1) AND 3 = WCH_STALL \<and>
    nb_data (vbuf (V (stack s1)) b) = drop m xs \<and> vq (V (stack s1)) 2 = b # q \<and> vevs (V (stack s1)) = vevs (V (stack s)) \<and>
    \<not> has (mmio s1 WCH_INT_FG) WCH_TRANSFER \<and>
    r2 = Ok \<and> stat_busy (eps s2 ! 2) \<and> mmio s2 (WCH_TX_CTL 1) = WCH_ACK \<and> in_wire s2 = take m (drop m xs) \<and>
    V (stack s2) = V (stack s1)"
proof -
  have w: "udc_wf V s" using inv by (simp add: udc_inv_def)
  let ?n = "wch_response 0x81 WCH_NAK s"
  let ?t = "wch_transfer Z (mmio s WCH_INT_ST) ?n"
  have i: "(2 :: nat) < 4" by simp
  have inv_n: "udc_inv V own ?n"
    using keeps_response [OF i, of WCH_NAK V own s] inv wf_addr [OF w] by (simp add: udc_keeps_def)
  note t = in_transfer [OF ok(1) inv_n, of b q _ m, unfolded response_frame, OF busy q refl m fg(3) refl]
  have v: "V (stack ?t) = view_pull b m (V (stack s))" "\<not> stat_busy (eps ?t ! 2)" using t(2) xs by auto
  have it: "udc_wf V ?t" "length (eps ?t) = 4" using transfer_inv [OF ok(1,2) inv_n] inv_len [of V own] by (auto simp: udc_inv_def)
  let ?a = "wch_ack WCH_TRANSFER (wch_response 0x81 WCH_NAK ?t)"
  have regs: "mmio ?n WCH_INT_ST = mmio s WCH_INT_ST" "mmio ?n WCH_INT_FG = mmio s WCH_INT_FG" "mmio ?n WCH_MIS_ST = mmio s WCH_MIS_ST"
    by (simp_all add: wch_offsets)
  have sie: "quiesce_wait env 100 ?n = (True, ?n)"
    using quiesce_wait.simps(2) [of env 99 ?n] fg(1) by (simp add: sie_busy_def wch_read_def regs)
  have qs: "quiesced Z False 0x81 ?n = ?a"
    using fg by (simp add: quiesced_def wch_read_def regs or.commute)
  have e1: "r1 = Ok" "s1 = upd_ep 2 (\<lambda>c. c\<lparr>stat_halted := True\<rparr>) (wch_response 0x81 WCH_STALL (udc_ep_set_busy 2 False ?a))"
    using h it wf_addr [OF w] wf_addr(3) [OF it(1)]
    by (auto simp: wch_halt_def quiesce_eq sie qs udc_ep_set_busy_def wch_ack_def wch_write_def)
  have k: "stack s1 = stack ?t" "running s1" "eps s1 ! 2 = (eps ?t ! 2)\<lparr>stat_busy := False, stat_halted := True\<rparr>"
    using it(2) t(1) by (simp_all add: e1 udc_ep_set_busy_def wch_ack_def wch_write_def)
  have st: "mmio s1 0x36 AND 3 = WCH_STALL"
    using response_ctl [of "0x81" WCH_STALL "udc_ep_set_busy 2 False ?a"] by (simp add: e1)
  have fg1: "\<not> has (mmio s1 WCH_INT_FG) WCH_TRANSFER"
    by (simp add: e1 udc_ep_set_busy_def wch_access WCH_INT_FG_def and.assoc)
  let ?c = "upd_ep 2 (\<lambda>c. c\<lparr>stat_halted := False\<rparr>) (set_mmio 0x36 WCH_NAK s1)"
  have ad: "addr (eps s1 ! 2) = 0x81" using k(3) wf_addr(3) [OF it(1)] by simp
  have e2: "r2 = Ok" "s2 = wch_kick Z 2 ?c" using c by (auto simp: wch_clear_halt_def Let_def ad wch_write_def)
  have l: "length (eps s1) = 4" using it(2) by (simp add: e1 udc_ep_set_busy_def wch_ack_def wch_write_def)
  have nb: "\<not> nb_setup (vbuf (V (stack s)) b)" using busy_facts(5) [OF inv busy] q by simp
  have g: "kick_guard V ?c 2"
    using t(1) k v(1) q nb l ad by (simp add: kick_guard_def)
  have b2: "stat_busy (eps s2 ! 2)" "mps (eps s2 ! 2) = mps (eps s ! 2)" "stack s2 = stack s1"
    using g l k(3) t(1) by (simp_all add: e2 kick_eps [OF ok(1)])
  have c2: "mmio s2 0x36 = WCH_ACK"
  proof -
    let ?k = "udc_ep_set_busy 2 True (kick_stage_in Z 1 (eps ?c ! 2) (head_buf V ?c 2) ?c)"
    have "s2 = wch_response 0x81 WCH_ACK ?k" using g l ad by (simp add: e2 kick_eq [OF ok(1)])
    moreover have "mmio ?k 0x36 = WCH_NAK"
      by (simp add: udc_ep_set_busy_def kick_stage_in_def Let_def sys_write16_def WCH_TX_LEN_def)
    ultimately show ?thesis using response_ctl [of "0x81" WCH_ACK ?k] by (simp add: WCH_NAK_def WCH_TOGGLE_def WCH_ACK_def)
  qed
  have inv2: "udc_inv V own s2"
    using halt_result [OF ok i inv h] clear_halt_keeps [OF ok(1) i, of own s1] c by (simp add: udc_keeps_def)
  have wire: "in_wire s2 = take m (drop m xs)"
    using busy_facts(7) [OF inv2 b2(1)] b2(2,3) k(1) v(1) q m xs by simp
  show ?thesis
    using e1(1) e2(1) st k(1,3) v(1) q xs fg1 b2 c2 wire by (simp add: WCH_TX_CTL_def)
qed

text \<open>The first packet of a 100-byte request, latched.\<close>

definition udc_demo_filled :: "udc_view udc_dev" where
  "udc_demo_filled = udc_demo_up\<lparr>stack := (stack udc_demo_up)\<lparr>vbuf := (vbuf (stack udc_demo_up))(7 :=
     \<lparr>nb_data = replicate 100 1, nb_room = 0, nb_setup = False, nb_zlp = False\<rparr>)\<rparr>\<rparr>"

definition udc_demo_latched :: "udc_view udc_dev" where
  "udc_demo_latched = set_mmio WCH_MIS_ST 32 (host_in (snd (wch_enqueue list_stack 2 7 udc_demo_filled)))"

lemma udc_demo_latched_inv: "udc_inv id udc_demo_own udc_demo_latched"
proof -
  have up: "udc_inv id udc_demo_own udc_demo_up"
    using udc_run_ok [OF list_stack_ok list_setup_ok list_internal_ok udc_demo_up_run
        preinit_state(2) [OF udc_demo_register udc_demo_empty udc_demo_preinit [unfolded udc_demo_static_def]]] by blast
  have "vq (stack udc_demo_up) 2 = []" by code_simp
  moreover have "7 \<in> set (vq (stack udc_demo_up) i) \<Longrightarrow> i = 2" for i
    using up unfolding udc_inv_def owned_def by (metis id_apply udc_demo_own_def)
  ultimately have "7 \<notin> set (vq (stack udc_demo_up) i)" for i by (cases "i = 2") auto
  then have "udc_inv id udc_demo_own udc_demo_filled"
    unfolding udc_demo_filled_def
    by (intro app_inv [OF up, where f = "(vbuf (stack udc_demo_up))(7 :=
          \<lparr>nb_data = replicate 100 1, nb_room = 0, nb_setup = False, nb_zlp = False\<rparr>)"]) (auto split: if_splits)
  then have "udc_inv id udc_demo_own (snd (wch_enqueue list_stack 2 7 udc_demo_filled))"
    using enqueue_result [OF list_stack_ok, of 2 udc_demo_own 7, OF _ _ _ prod.collapse [symmetric]]
    by (simp add: udc_demo_own_def)
  then show ?thesis
    unfolding udc_demo_latched_def by (simp add: inv_reg WCH_MIS_ST_def udc_hw_inv [OF host_in_hw])
qed

lemma udc_demo_latched_facts:
  "stat_busy (eps udc_demo_latched ! 2)" "vq (stack udc_demo_latched) 2 = [7]" "mps (eps udc_demo_latched ! 2) = 64"
  "nb_data (vbuf (stack udc_demo_latched) 7) = replicate 100 1" "has (mmio udc_demo_latched WCH_MIS_ST) 32"
  "has (mmio udc_demo_latched WCH_INT_FG) WCH_TRANSFER" "mmio udc_demo_latched WCH_INT_ST AND 0x3f = WCH_TOKEN_IN OR 1"
  by code_simp+

theorem udc_halt_keeps_progress_witness:
  "nb_data (vbuf (stack (snd (wch_halt list_stack udc_quiet_env 2 udc_demo_latched))) 7) = replicate 36 1 \<and>
   stat_halted (eps (snd (wch_halt list_stack udc_quiet_env 2 udc_demo_latched)) ! 2)"
proof -
  have e: "hw_env udc_quiet_env" by (simp add: hw_env_def udc_quiet_env_def)
  note f = udc_demo_latched_facts
  have q: "vq (id (stack udc_demo_latched)) 2 = [7]" using f(2) by simp
  have l: "unat (mps (eps udc_demo_latched ! 2)) < length (nb_data (vbuf (id (stack udc_demo_latched)) 7))" by (simp add: f)
  from udc_halt_keeps_progress [OF list_stack_ok list_setup_ok e udc_demo_latched_inv f(1) q refl refl l f(5-7)
      prod.collapse [symmetric] prod.collapse [symmetric]]
  show ?thesis by (simp add: f)
qed

text \<open>
  (C40) Clearing the halt condition of a data endpoint that is not halted and has a packet armed (a
  host may do so at any time to reset the data toggle) answers NAK from then on but leaves the
  endpoint marked busy: arming it again does nothing, and neither does a run of the worker
  without new flags, although its request is still queued.
\<close>

theorem wch_clear_halt_busy_not_rearmed:
  assumes ok: "udc_stack_ok Z V" and inv: "udc_inv V own s" and busy: "stat_busy (eps s ! i)" and i: "i \<in> {2, 3}"
    and c: "wch_clear_halt Z i s = (r, s')" and fg: "mmio s WCH_INT_FG = 0"
  shows "r = Ok \<and> vq (V (stack s')) i \<noteq> [] \<and> stat_busy (eps s' ! i) \<and>
    mmio s' (ep_ctl (addr (eps s ! i))) = WCH_NAK \<and> wch_kick Z i s' = s' \<and>
    stat_busy (eps (wch_work Z env s') ! i) \<and> mmio (wch_work Z env s') (ep_ctl (addr (eps s ! i))) = WCH_NAK"
proof -
  have i4: "i < 4" "2 \<le> i" using i by auto
  let ?u = "upd_ep i (\<lambda>c. c\<lparr>stat_halted := False\<rparr>) (set_mmio (ep_ctl (addr (eps s ! i))) WCH_NAK s)"
  have l: "i < length (eps s)" using inv_len [OF inv] i4 by simp
  have e: "r = Ok" "s' = ?u"
    using c busy l by (auto simp: wch_clear_halt_def Let_def wch_write_def kick_eq [OF ok] kick_guard_def)
  have a: "ep_ctl (addr (eps s ! i)) = data_ctl i" using inv_addr [OF inv i4(2,1)] .
  have b: "stat_busy (eps s' ! i)" "mmio s' (data_ctl i) = WCH_NAK" "stack s' = stack s" "running s' = running s"
    using busy l a by (simp_all add: e)
  have inv': "udc_inv V own s'" using clear_halt_keeps [OF ok i4(1), of own s] c inv by (simp add: udc_keeps_def)
  have k: "wch_kick Z i s' = s'" using b(1) by (simp add: kick_eq [OF ok] kick_guard_def)
  have "ep_same V own i s' (fold (wch_kick Z) [0..<4] s')"
    using inv' b(1) i4 by (intro kicks_same [OF ok]) (auto simp: udc_inv_def)
  then have f: "stat_busy (eps (fold (wch_kick Z) [0..<4] s') ! i)" "mmio (fold (wch_kick Z) [0..<4] s') (data_ctl i) = WCH_NAK"
    using b(1,2) i4(2) by (auto simp: ep_same_def ep_state_def split: if_splits)
  have r: "running s'" using busy_facts(1) [OF inv' b(1) i4(1)] .
  have "mmio s' WCH_INT_FG = 0" using fg i4 a by (simp add: e WCH_INT_FG_def)
  then have w: "wch_work Z env s' = wch_write WCH_INT_EN WCH_IRQS (fold (wch_kick Z) [0..<4] s')"
    using r by (simp add: wch_work_def work_flags_def wch_read_def Let_def)
  have "vq (V (stack s)) i \<noteq> []" using busy_facts(4) [OF inv busy i4(1)] .
  moreover have "data_ctl i \<noteq> WCH_INT_EN" by (simp add: WCH_INT_EN_def)
  ultimately show ?thesis using e(1) b k f by (simp add: w a wch_write_def split del: if_split)
qed

theorem wch_clear_halt_busy_not_rearmed_witness:
  "stat_busy (eps (snd (wch_clear_halt list_stack 2 udc_demo_sending)) ! 2) \<and>
   mmio (snd (wch_clear_halt list_stack 2 udc_demo_sending)) 0x36 = WCH_NAK"
proof -
  have f: "mmio udc_demo_sending WCH_INT_FG = 0" "addr (eps udc_demo_sending ! 2) = 0x81" by code_simp+
  have i: "(2 :: nat) \<in> {2, 3}" by simp
  show ?thesis
    using wch_clear_halt_busy_not_rearmed [OF list_stack_ok udc_demo_inv udc_demo_sending_facts(4) i prod.collapse [symmetric] f(1)]
    by (simp add: f(2))
qed

section \<open>Initialisation and shutdown\<close>

definition same_soc :: "'z udc_dev \<Rightarrow> 'z udc_dev \<Rightarrow> bool" where
  "same_soc s s' \<longleftrightarrow> soc s' = soc s \<and> saved_sdi s' = saved_sdi s \<and> saved_usbpre s' = saved_usbpre s"

lemma same_soc_trans: "same_soc s t \<Longrightarrow> same_soc t u \<Longrightarrow> same_soc s u"
  by (simp add: same_soc_def)

lemma dequeue_soc:
  assumes "hw_env env"
  shows "same_soc s (snd (wch_dequeue Z env i s))"
proof -
  let ?n = "wch_response (addr (eps s ! i)) WCH_NAK s"
  obtain b s1 where w: "quiesce_wait env 100 ?n = (b, s1)" by force
  have "same_soc ?n s1" using quiesce_wait_hw [OF assms w] by (auto simp: hw_change_def same_soc_def)
  then show ?thesis
    using w by (simp add: wch_dequeue_def quiesce_eq quiesced_def same_soc_def wch_access split: bool.split)
qed

lemma ep_disable_soc:
  assumes "hw_env env"
  shows "same_soc s (snd (wch_ep_disable Z env i s))"
  using dequeue_soc [OF assms, of s Z i]
  by (cases "wch_dequeue Z env i s") (auto simp: wch_ep_disable_def same_soc_def wch_write_def split: sum.split)

lemma ep_enable_soc: "same_soc s (snd (wch_ep_enable i s))"
  by (simp add: wch_ep_enable_def Let_def same_soc_def wch_access)

lemma internal_soc:
  assumes ok: "internal_ok Z" and e: "hw_env env"
  shows "same_soc s (snd (udc_ep_enable_internal Z wch_ep_enable a 64 s))"
    and "same_soc s (snd (udc_ep_disable_internal Z (wch_ep_disable Z env) a s))"
proof -
  obtain r s' where s: "udc_ep_enable_internal Z wch_ep_enable a 64 s = (r, s')" by force
  then have "enable_result wch_ep_enable s r s'" using ok unfolding internal_ok_def by blast
  moreover have "same_soc s s1" if "wch_ep_enable i (upd_ep i f s) = (r1, s1)" for i f r1 s1
    using ep_enable_soc [of "upd_ep i f s" i] that by (simp add: same_soc_def)
  ultimately show "same_soc s (snd (udc_ep_enable_internal Z wch_ep_enable a 64 s))"
    using s by (auto simp: enable_result_def same_soc_def)
  obtain r s' where s: "udc_ep_disable_internal Z (wch_ep_disable Z env) a s = (r, s')" by force
  then have "disable_result (wch_ep_disable Z env) s r s'" using ok unfolding internal_ok_def by blast
  moreover have "same_soc s s1" if "wch_ep_disable Z env i s = (r1, s1)" for i r1 s1
    using ep_disable_soc [OF e, of s Z i] that by simp
  ultimately show "same_soc s (snd (udc_ep_disable_internal Z (wch_ep_disable Z env) a s))"
    using s by (auto simp: disable_result_def same_soc_def)
qed

lemma init_regs_frame: "same_soc s (init_regs K s)" "eps (init_regs K s) = eps s" "stack (init_regs K s) = stack s"
proof -
  have u: "[0..<3] = [0, Suc 0, 2]" by (simp add: upt_rec numeral_2_eq_2)
  show "same_soc s (init_regs K s)" "eps (init_regs K s) = eps s" "stack (init_regs K s) = stack s"
    by (simp_all add: init_regs_def Let_def u sys_write32_def wch_access same_soc_def)
qed

lemma disable_soc:
  assumes "hw_env env"
  shows "same_soc s (snd (wch_disable Z env s))"
proof -
  have d: "same_soc s (disable_start s)" by (simp add: disable_start_def wch_access same_soc_def)
  have f: "same_soc t (fold (\<lambda>i s. snd (wch_dequeue Z env i s)) is t)" for t and "is" :: "nat list"
  proof (induction "is" arbitrary: t)
    case (Cons i "is")
    then show ?case using dequeue_soc [OF assms, of t Z i] same_soc_trans by simp blast
  qed (simp add: same_soc_def)
  show ?thesis
    using same_soc_trans [OF d f, of "[0..<4]"] by (simp add: disable_eq same_soc_def)
qed

text \<open>Documented of the vendor's masks: each setting lies within its field.\<close>

definition soc_masks_ok :: "soc_env \<Rightarrow> bool" where
  "soc_masks_ok E \<longleftrightarrow> RCC_USBPRE_DIV1 E AND NOT (RCC_USBPRE E) = 0 \<and> RCC_USBPRE_DIV2 E AND NOT (RCC_USBPRE E) = 0 \<and>
     RCC_USBPRE_DIV3 E AND NOT (RCC_USBPRE E) = 0 \<and> AFIO_SWJ_CFG_DISABLE E AND NOT (AFIO_SWJ_CFG E) = 0"

lemma field_restore:
  assumes "v AND NOT m = 0"
  shows "field_set m (x AND m) (field_set m v x) = x" "field_set m v x AND m = v"
proof -
  have b: "bit m n" if n: "bit v n" for n
  proof (rule ccontr)
    assume "\<not> bit m n"
    then have "bit (v AND NOT m) n" using n bit_word_less [OF n] by (simp add: bit_simps)
    then show False by (simp add: assms)
  qed
  show "field_set m (x AND m) (field_set m v x) = x" "field_set m v x AND m = v"
    by (rule bit_word_eqI; use b in \<open>auto simp: field_set_def bit_simps\<close>)+
qed

text \<open>Preparing and undoing it.\<close>

lemma usb_divider_mask: "soc_masks_ok E \<Longrightarrow> usb_divider E hz = Some d \<Longrightarrow> d AND NOT (RCC_USBPRE E) = 0"
  by (auto simp: soc_masks_ok_def usb_divider_def split: if_splits)

lemma prepare_restores:
  assumes E: "soc_masks_ok E" and p: "wch_prepare E K s = (r, s1)"
  shows "r \<noteq> Ok \<Longrightarrow> RCC_CFGR0 (soc s1) = RCC_CFGR0 (soc s) \<and> AFIO_PCFR1 (soc s1) = AFIO_PCFR1 (soc s)"
    and "r = Ok \<Longrightarrow> same_soc s1 t \<Longrightarrow> RCC_CFGR0 (soc (wch_unprepare E K t)) = RCC_CFGR0 (soc s) \<and>
      AFIO_PCFR1 (soc (wch_unprepare E K t)) = AFIO_PCFR1 (soc s)"
    and "r = Ok \<Longrightarrow> usb_divider E (pll_hz K) = Some (RCC_CFGR0 (soc s1) AND RCC_USBPRE E)"
proof -
  have a: "AFIO_SWJ_CFG_DISABLE E AND NOT (AFIO_SWJ_CFG E) = 0" using E by (simp add: soc_masks_ok_def)
  show "r \<noteq> Ok \<Longrightarrow> RCC_CFGR0 (soc s1) = RCC_CFGR0 (soc s) \<and> AFIO_PCFR1 (soc s1) = AFIO_PCFR1 (soc s)"
    using p field_restore(1) [OF usb_divider_mask [OF E]]
    by (auto simp: wch_prepare_def clock_call_def upd_soc_def Let_def split: if_splits option.splits)
  show "r = Ok \<Longrightarrow> same_soc s1 t \<Longrightarrow> RCC_CFGR0 (soc (wch_unprepare E K t)) = RCC_CFGR0 (soc s) \<and>
      AFIO_PCFR1 (soc (wch_unprepare E K t)) = AFIO_PCFR1 (soc s)"
    using p field_restore(1) [OF usb_divider_mask [OF E]] field_restore(1) [OF a]
    by (auto simp: wch_prepare_def wch_unprepare_def clock_call_def upd_soc_def same_soc_def Let_def split: if_splits option.splits)
  show "r = Ok \<Longrightarrow> usb_divider E (pll_hz K) = Some (RCC_CFGR0 (soc s1) AND RCC_USBPRE E)"
    using p field_restore(2) [OF usb_divider_mask [OF E]]
    by (auto simp: wch_prepare_def clock_call_def upd_soc_def Let_def split: if_splits option.splits)
qed

text \<open>
  The interface to the SoC glue, the function pointers of the configuration: what failed preparing
  changed is restored, and undoing a successful one restores it from any state in which the SoC
  registers and the saved settings are those preparing left.
\<close>

locale udc_soc_glue =
  fixes glue_config :: "'z wch_udc_config \<Rightarrow> bool" and restored :: "'z udc_dev \<Rightarrow> 'z udc_dev \<Rightarrow> bool"
  assumes prepare_fails: "glue_config K \<Longrightarrow> prepare K s = (Err e, s1) \<Longrightarrow> restored s s1"
    and undo_restores: "glue_config K \<Longrightarrow> prepare K s = (Ok, s1) \<Longrightarrow> same_soc s1 t \<Longrightarrow> restored s (unprepare K t)"
    and irq_config_on: "glue_config K \<Longrightarrow> same_soc s (irq_config K s) \<and> irq_on (irq_config K s)"
begin

lemma init_outcome:
  assumes K: "glue_config K" and ok: "internal_ok Z" "hw_env env" and i: "wch_init Z env K s = (r, s1)"
  shows "r \<noteq> Ok \<Longrightarrow> restored s s1" and "r = Ok \<Longrightarrow> irq_on s1 \<and> (\<exists>p. prepare K s = (Ok, p) \<and> same_soc p s1)"
proof -
  let ?en = "udc_ep_enable_internal Z wch_ep_enable"
    and ?dis = "\<lambda>s. snd (udc_ep_disable_internal Z (wch_ep_disable Z env) 0 s)"
  obtain r0 p where p: "prepare K s = (r0, p)" by force
  obtain ra a where a: "?en 0 64 (init_regs K p) = (ra, a)" by force
  obtain rb b where b: "?en 0x80 64 a = (rb, b)" by force
  have sa: "same_soc p a" using same_soc_trans [OF init_regs_frame(1) [of p K] internal_soc(1) [OF ok, of "init_regs K p" 0]] a by simp
  have sb: "same_soc p b" using same_soc_trans [OF sa internal_soc(1) [OF ok, of a "0x80"]] b by simp
  have undo: "restored s (unprepare K (?dis u))" if "r0 = Ok" "same_soc p u" for u
    using undo_restores [OF K, of s p] p that same_soc_trans [OF that(2) internal_soc(2) [OF ok]] by blast
  have i': "(r, s1) = (case r0 of Inl e \<Rightarrow> (Err e, p) | Inr _ \<Rightarrow> (case ra of Inl e \<Rightarrow> (Err e, unprepare K (?dis a))
    | Inr _ \<Rightarrow> (case rb of Inl e \<Rightarrow> (Err e, unprepare K (?dis b)) | Inr _ \<Rightarrow> (Ok, irq_config K b))))"
    using i by (auto simp: wch_init_def p a b split: sum.splits)
  show "r \<noteq> Ok \<Longrightarrow> restored s s1" using i' p prepare_fails [OF K] undo sa sb by (auto split: sum.splits)
  show "r = Ok \<Longrightarrow> irq_on s1 \<and> (\<exists>p. prepare K s = (Ok, p) \<and> same_soc p s1)"
    using i' p irq_config_on [OF K] same_soc_trans [OF sb] by (auto split: sum.splits)
qed

lemma shutdown_restores:
  assumes K: "glue_config K" and ok: "internal_ok Z" "hw_env env" and p: "prepare K s = (Ok, p)" "same_soc p t"
    and d: "wch_shutdown Z env K t = (r, s2)"
  shows "r = Ok" "restored s s2"
proof -
  let ?dis = "\<lambda>a s. snd (udc_ep_disable_internal Z (wch_ep_disable Z env) a s)"
  have "same_soc p (?dis 0x80 (?dis 0 (snd (wch_disable Z env t))))"
    using p(2) disable_soc [OF ok(2)] internal_soc(2) [OF ok] same_soc_trans by metis
  from undo_restores [OF K p(1) this] d show "r = Ok" "restored s s2" by (simp_all add: wch_shutdown_def Let_def)
qed

end

text \<open>The CH32V203 glue provides it.\<close>

definition ch32v203_config :: "'z wch_udc_config \<Rightarrow> bool" where
  "ch32v203_config C \<longleftrightarrow> (\<exists>E K. soc_masks_ok E \<and> C = wch_config E K)"

definition soc_restored :: "'z udc_dev \<Rightarrow> 'z udc_dev \<Rightarrow> bool" where
  "soc_restored s s' \<longleftrightarrow> RCC_CFGR0 (soc s') = RCC_CFGR0 (soc s) \<and> AFIO_PCFR1 (soc s') = AFIO_PCFR1 (soc s)"

lemma wch_config_fields [simp]:
  "prepare (wch_config E K) = wch_prepare E K" "unprepare (wch_config E K) = wch_unprepare E K"
  "irq_config (wch_config E K) = wch_irq_config"
  by (simp_all add: wch_config_def)

interpretation ch32v203: udc_soc_glue ch32v203_config soc_restored
proof
  show "ch32v203_config K \<Longrightarrow> prepare K s = (Err e, s1) \<Longrightarrow> soc_restored s s1" for K :: "'a wch_udc_config" and s s1 e
    using prepare_restores(1) by (fastforce simp: ch32v203_config_def soc_restored_def)
  show "ch32v203_config K \<Longrightarrow> prepare K s = (Ok, s1) \<Longrightarrow> same_soc s1 t \<Longrightarrow> soc_restored s (unprepare K t)"
    for K :: "'a wch_udc_config" and s s1 t
    using prepare_restores(2) by (fastforce simp: ch32v203_config_def soc_restored_def)
qed (auto simp: ch32v203_config_def same_soc_def wch_irq_config_def)

text \<open>
  (C18) Initialisation and shutdown leave the system as they found it: a failed initialisation restores
  the USB divider and the debug pin selection; a successful one sets the divider of the PLL
  frequency, and a later shutdown, from any state in which the driver's operations have left the
  SoC registers alone, restores both registers to their values before initialisation.
\<close>

theorem udc_init_shutdown_roundtrip:
  assumes ok: "internal_ok Z" "hw_env env" and E: "soc_masks_ok E" and i: "wch_init Z env (wch_config E K) s = (r, s1)"
    and t: "soc t = soc s1" "saved_sdi t = saved_sdi s1" "saved_usbpre t = saved_usbpre s1"
    and d: "wch_shutdown Z env (wch_config E K) t = (r', s2)"
  shows "(r \<noteq> Ok \<longrightarrow> RCC_CFGR0 (soc s1) = RCC_CFGR0 (soc s) \<and> AFIO_PCFR1 (soc s1) = AFIO_PCFR1 (soc s)) \<and>
    (r = Ok \<longrightarrow> usb_divider E (pll_hz K) = Some (RCC_CFGR0 (soc s1) AND RCC_USBPRE E) \<and> irq_on s1 \<and>
       RCC_CFGR0 (soc s2) = RCC_CFGR0 (soc s) \<and> AFIO_PCFR1 (soc s2) = AFIO_PCFR1 (soc s)) \<and>
    r' = Ok"
proof -
  have K: "ch32v203_config (wch_config E K)" using E by (auto simp: ch32v203_config_def)
  note init = ch32v203.init_outcome [OF K ok i]
  have good: "usb_divider E (pll_hz K) = Some (RCC_CFGR0 (soc s1) AND RCC_USBPRE E) \<and> irq_on s1 \<and> soc_restored s s2" if "r = Ok"
  proof -
    from init(2) [OF that] obtain p where p: "prepare (wch_config E K) s = (Ok, p)" "same_soc p s1" and on: "irq_on s1" by blast
    have "same_soc p t" using p(2) t by (simp add: same_soc_def)
    from ch32v203.shutdown_restores(2) [OF K ok p(1) this d] prepare_restores(3) [OF E p(1) [simplified] refl] p(2) on
    show ?thesis by (simp add: same_soc_def)
  qed
  have "r' = Ok" using d by (simp add: wch_shutdown_def Let_def)
  then show ?thesis using init(1) good by (simp add: soc_restored_def)
qed

text \<open>The CH32V203's masks, a 144 MHz PLL and a preset divider and debug pin selection.\<close>

definition udc_demo_soc :: soc_env where
  "udc_demo_soc = \<lparr>clock_dev_ready = True, clock_control_on = (\<lambda>_. 0), SYS_CLOCK_HW_CYCLES = 144000000, CLOCK_AFIO = 1,
     RCC_SWS = 0xC, RCC_SWS_PLL = 8, RCC_HPRE = 0xF0, RCC_USBPRE = 0xC00000, RCC_USBPRE_DIV1 = 0, RCC_USBPRE_DIV2 = 0x400000,
     RCC_USBPRE_DIV3 = 0x800000, AFIO_SWJ_CFG = 0x7000000, AFIO_SWJ_CFG_DISABLE = 0x4000000\<rparr>"

definition udc_demo_config :: "udc_view wch_udc_config" where
  "udc_demo_config = wch_config udc_demo_soc \<lparr>prepare = (\<lambda>s. (Ok, s)), unprepare = id, irq_config = id, packet_addr = (\<lambda>_. 0),
     clock_id = 12, pll_hz = 144000000, release_sdi = True\<rparr>"

definition udc_demo_cold :: "udc_view udc_dev" where
  "udc_demo_cold = udc_demo_fresh\<lparr>soc := \<lparr>RCC_CFGR0 = 0x400008, AFIO_PCFR1 = 0x2000001, clock_calls = []\<rparr>\<rparr>"

lemma list_enable:
  assumes "vtab (stack s) a = Some i" "i < length (eps s)" "length (eps s) = 4" "\<not> stat_enabled (eps s ! i)"
  shows "\<exists>s'. udc_ep_enable_internal list_stack wch_ep_enable a 64 s = (Ok, s') \<and> stack s' = stack s \<and>
    (\<forall>j. j \<noteq> i \<longrightarrow> eps s' ! j = eps s ! j) \<and> length (eps s') = 4"
proof -
  have l: "udc_ep_enable_internal list_stack wch_ep_enable a 64 s =
    (case wch_ep_enable i (upd_ep i (\<lambda>c. c\<lparr>mps := 64, stat_halted := False\<rparr>) s) of (Inl e, s1) \<Rightarrow> (Err e, s1)
     | (Inr _, s1) \<Rightarrow> (Ok, upd_ep i (\<lambda>c. c\<lparr>stat_enabled := True\<rparr>) s1))"
    using assms by (simp add: list_stack_def)
  obtain s1 where e: "wch_ep_enable i (upd_ep i (\<lambda>c. c\<lparr>mps := 64, stat_halted := False\<rparr>) s) = (Ok, s1)"
    using assms(2) by (simp add: wch_ep_enable_def Let_def)
  have "stack s1 = stack s \<and> (\<forall>j. j \<noteq> i \<longrightarrow> eps s1 ! j = eps s ! j) \<and> length (eps s1) = length (eps s)"
    using e assms(2) by (auto simp: wch_ep_enable_def Let_def wch_access)
  then show ?thesis using assms(3) by (simp add: l e)
qed

theorem udc_init_shutdown_roundtrip_witness:
  "RCC_CFGR0 (soc (snd (wch_init list_stack udc_quiet_env (wch_config udc_demo_soc udc_demo_config) udc_demo_cold))) AND 0xC00000 = 0x800000 \<and>
   RCC_CFGR0 (soc (snd (wch_shutdown list_stack udc_quiet_env (wch_config udc_demo_soc udc_demo_config)
     (snd (wch_init list_stack udc_quiet_env (wch_config udc_demo_soc udc_demo_config) udc_demo_cold))))) = 0x400008"
proof -
  let ?i = "wch_init list_stack udc_quiet_env (wch_config udc_demo_soc udc_demo_config) udc_demo_cold"
  have e: "hw_env udc_quiet_env" by (simp add: hw_env_def udc_quiet_env_def)
  have m: "soc_masks_ok udc_demo_soc" by (simp add: soc_masks_ok_def udc_demo_soc_def)
  have d: "usb_divider udc_demo_soc (pll_hz udc_demo_config) = Some 0x800000" "RCC_USBPRE udc_demo_soc = 0xC00000"
    "RCC_CFGR0 (soc udc_demo_cold) = 0x400008"
    by (simp_all add: udc_demo_soc_def udc_demo_config_def udc_demo_cold_def usb_divider_def wch_config_def)
  have w: "udc_inv id udc_demo_own udc_demo_fresh"
    using preinit_state(2) [OF udc_demo_register udc_demo_empty udc_demo_preinit [unfolded udc_demo_static_def]] .
  define P where "P = snd (wch_prepare udc_demo_soc udc_demo_config udc_demo_cold)"
  have p: "wch_prepare udc_demo_soc udc_demo_config udc_demo_cold = (Ok, P)"
    unfolding P_def by (simp add: udc_demo_soc_def udc_demo_config_def udc_demo_cold_def usb_divider_def wch_config_def wch_prepare_def Let_def)
  have q: "eps P = eps udc_demo_fresh" "vtab (stack P) = ep_table"
    using w by (simp_all add: P_def udc_demo_soc_def udc_demo_config_def udc_demo_cold_def usb_divider_def wch_config_def wch_prepare_def Let_def
        upd_soc_def clock_call_def udc_inv_def wf_tab [of id, simplified])
  have f: "prepare (wch_config udc_demo_soc K) = wch_prepare udc_demo_soc K" for K :: "udc_view wch_udc_config" by (simp add: wch_config_def)
  let ?s = "init_regs (wch_config udc_demo_soc udc_demo_config) P"
  have z: "\<not> stat_enabled (eps ?s ! 0)" "\<not> stat_enabled (eps ?s ! Suc 0)" "vtab (stack ?s) = ep_table" "length (eps ?s) = 4"
    using preinit_state(6) [OF udc_demo_register udc_demo_empty udc_demo_preinit [unfolded udc_demo_static_def]] q
    by (simp_all add: init_regs_frame zero_ep_def)
  obtain s1 where s1: "udc_ep_enable_internal list_stack wch_ep_enable 0 64 ?s = (Ok, s1)" "stack s1 = stack ?s"
      "eps s1 ! Suc 0 = eps ?s ! Suc 0" "length (eps s1) = 4"
    using list_enable [of ?s 0 0] z by (auto simp: ep_table_def)
  obtain s2 where s2: "udc_ep_enable_internal list_stack wch_ep_enable 0x80 64 s1 = (Ok, s2)"
    using list_enable [of s1 "0x80" "Suc 0"] z s1 by (auto simp: ep_table_def)
  have r: "fst ?i = Ok" by (simp add: wch_init_def f p s1 s2)
  show ?thesis
    using udc_init_shutdown_roundtrip [OF list_internal_ok e m prod.collapse [symmetric] refl refl refl prod.collapse [symmetric],
        of udc_demo_config udc_demo_cold]
    by (simp add: r d)
qed

end
