(* ===== verification/Spec2Isabelle.thy ===== *)
theory Spec2Isabelle
  imports Uart_Ops Uart_Trace Udc_Ops
begin

text \<open>
  \<^bold>\<open>Verification of the WCH drivers for Zephyr (DMA, UART, USB device).\<close>

  \<^bold>\<open>The program.\<close>  The repository holds three drivers for the CH32V203.  The DMA driver
  (\<^verbatim>\<open>src/drivers/dma/dma_wch.c\<close>) configures and runs the channels of a DMA controller and turns
  its interrupts into callbacks.  The UART driver (\<^verbatim>\<open>src/drivers/serial\<close>) has polling and
  interrupt-driven parts and an asynchronous part that borrows buffers from the application,
  moves them with two DMA channels through the DMA driver's function table, and reports each of
  them back with an event.  The USB device controller driver (\<^verbatim>\<open>src/drivers/usb\<close>) moves the
  packets of four endpoints between staging buffers and the requests that Zephyr's USB stack
  queues.  The UART and DMA drivers interact through calls (configure, start, stop, status) and
  callbacks; the USB driver shares nothing with them.

  \<^bold>\<open>The theories and the code.\<close>
  \<^item> \<open>Wch_Prelude\<close>: error codes and results, word types, facts on flags and words.
  \<^item> \<open>Dma_Wch\<close>: \<^verbatim>\<open>dma_wch.c\<close>, one definition per function: \<open>dma_dev\<close> is the controller with its
    per-channel registers and driver data.  \<open>Dma_Iface\<close>: the function table of a DMA driver and,
    as the locales \<open>dma_provider\<close> and \<open>dma_irq_provider\<close>, what a client may rely on, over an
    abstract channel (\<open>achan\<close>: free, ready, running, paused, with the bytes to go).  \<open>Dma_Props\<close>:
    the driver's invariant and properties, and the interpretations of both locales on
    \<open>dma_wch_driver_api\<close>.
  \<^item> \<open>Uart_Contract\<close>: \<^verbatim>\<open>uart_wch_contract.h\<close>, the divisor, the buffer check and the receive delta.
    \<open>Uart_Regs\<close>: the USART registers.  \<open>Uart_Irq_Trace\<close>: \<^verbatim>\<open>uart_wch_irq_trace.h\<close>.
    \<open>Uart_Dev\<close>: the state of a port (\<open>uart_dev\<close>), from \<^verbatim>\<open>uart_wch_tx_state.h\<close> and
    \<^verbatim>\<open>uart_wch_rx_state.h\<close>.  \<open>Uart_Rx\<close>, \<open>Uart_Tx\<close>, \<open>Uart_Usart\<close>: \<^verbatim>\<open>uart_wch_rx_impl.h\<close>,
    \<^verbatim>\<open>uart_wch_tx_impl.h\<close>, \<^verbatim>\<open>uart_wch_usart.c\<close> with \<^verbatim>\<open>uart_wch_dma_dt.h\<close>, function by function.
  \<^item> \<open>Uart_Ring\<close>: the event ring as a bounded queue (locale \<open>bounded_queue\<close>, interpreted on
    \<open>usart_wch_rx_queue\<close> and \<open>rx_ring_pop\<close>).  \<open>Uart_Rx_Spec\<close>: the receive contract as an automaton.
    \<open>Uart_Inv\<close>, \<open>Uart_Tx_Props\<close>, \<open>Uart_Rx_Props\<close>, \<open>Uart_System\<close>: the port's invariant, every critical
    section against it, and the port as a transition system, all over any provider in the
    locale \<open>dma_irq_provider\<close>.  \<open>Uart_Props\<close>, \<open>Uart_Ops\<close>: the properties, with the WCH DMA driver as
    the provider.  \<open>Uart_Init\<close>: initialisation and polling output.  \<open>Uart_Trace\<close>: the interrupt trace
    over runs of the interrupt-driven build.
  \<^item> \<open>Udc_Dev\<close>, \<open>Udc_Wch\<close>: \<^verbatim>\<open>udc_wch.c\<close>; \<open>udc_dev\<close> holds the byte registers, the endpoint
    configurations and the driver's data.  \<open>Udc_Soc\<close>: \<^verbatim>\<open>udc_wch_ch32v203.h\<close>.  \<open>Udc_Stack\<close>: what the
    driver relies on from Zephyr's USB stack (\<open>udc_stack_ok\<close>, \<open>setup_received_ok\<close>, \<open>internal_ok\<close>,
    hypotheses of the properties), and a stack that meets it.  \<open>Udc_Inv\<close>, \<open>Udc_Steps\<close>, \<open>Udc_Api\<close>: the
    invariant and that every operation keeps it.  \<open>Udc_Props\<close>: the controller as a transition
    system from start-up and its properties.  \<open>Udc_Xfer\<close>: whole IN and OUT requests.  \<open>Udc_Ops\<close>: reset,
    overflow, cancelling, halting, and initialisation with shutdown over the function pointers of the
    SoC glue (locale \<open>udc_soc_glue\<close>, interpreted on \<open>wch_config\<close>).

  \<^bold>\<open>What is shown.\<close>  DMA: the invariant of every reachable state, refinement of the abstract
  channel, field-by-field round trip of a configuration, the result of every configuration request
  against the documented transfer contract, error over completion, quiet stop, isolation of
  channels, exact status.  UART: every accepted transmission gets exactly one terminal
  event; reception follows its automaton and returns every buffer once and in order; DMA only
  ever touches buffers on loan; the event ring never overflows; the outcome of each call on
  every branch; the dispatch loop ends; a successful initialisation yields a port in the state
  the runs start from; polling output returns in the first round that may write; the interrupt trace
  shows exactly the errors that calls read, keeps the first for good and times exactly every sampled
  interrupt.  USB: the invariant of
  every reachable state, exactly-once return of requests in order, the established endpoint table;
  the packets of a whole request in either direction, repeated packets ignored; reset and overflow
  win over a coincident completion; cancelling is bounded; a halt keeps a request's progress;
  shutdown restores what initialisation changed.  Clearing the halt of an endpoint that has a packet
  armed leaves it answering NAK (\<open>wch_clear_halt_busy_not_rearmed\<close>).

  \<^bold>\<open>Concurrency, time and loops.\<close>  A section under \<^verbatim>\<open>irq_lock\<close>, a spin lock or the UDC mutex is
  one state transformer; the transition systems interleave such sections with interrupts and
  hardware in any order.  Hardware appears as relations (\<open>dma_hw\<close>, \<open>hw_change\<close>) or, inside a busy
  wait, as the function \<open>env\<close>.  The receive dispatch loop takes fuel because a callback may queue
  more events; it is shown that as many rounds as the ring has entries are enough when callbacks
  queue nothing.  The wait of \<open>wch_quiesce\<close> has the source's bound of 100 retries and the polling
  loops take the number of polls of the hardware as fuel.  Transmit events count at the end of the
  locked section that produces them, just before the callback is made.  Kernel ticks (\<^verbatim>\<open>int64_t\<close>)
  are integers.

  \<^bold>\<open>Parameters.\<close>  Zephyr's kernel, clock and pin drivers, the USB stack and network buffers, and the
  vendor's register masks are not part of the repository: they are fields of the records
  \<open>uart_ext\<close>, \<open>uart_init_env\<close>, \<open>udc_ext\<close>, \<open>soc_env\<close>, arguments of the definitions that use them.

  \<^bold>\<open>Not modelled.\<close>  The device-tree instantiation macros (tables of constants that the C preprocessor
  expands per instance), \<^verbatim>\<open>CONFIG_DMA_64BIT\<close>, the debugger's trace header beyond the fields the code
  reads, the native unit tests, the target test programs and the host scripts.
\<close>

end
